(* ===== verification/Go_Strings.thy ===== *)
theory Go_Strings
  imports Go_Base
begin

text \<open>
  The functions of the packages \<open>strings\<close>, \<open>strconv\<close> and \<open>fmt\<close> that the program
  calls, on byte strings, and the round trips between printing and parsing. The locale
  \<open>csv_field\<close> states what a printer and a parser of one field must satisfy so that a whole
  comma-separated line survives; it is interpreted on decimal numbers here and gives the
  monitor-to-statistics round trip.
\<close>

section \<open>Decimal numbers\<close>

definition digit_char :: "nat \<Rightarrow> char" where
  "digit_char d = char_of (48 + d)"

definition is_digit :: "char \<Rightarrow> bool" where
  "is_digit c \<longleftrightarrow> 48 \<le> (of_char c :: nat) \<and> (of_char c :: nat) \<le> 57"

definition digit_value :: "char \<Rightarrow> nat" where
  "digit_value c = of_char c - 48"

fun show_nat :: "nat \<Rightarrow> string" where
  "show_nat n =
     (if n < 10 then [digit_char n] else show_nat (n div 10) @ [digit_char (n mod 10)])"

declare show_nat.simps [simp del]

text \<open>The verb \<open>%d\<close> on a signed value.\<close>

definition show_int :: "int \<Rightarrow> string" where
  "show_int i = (if i < 0 then ''-'' @ show_nat (nat (- i)) else show_nat (nat i))"

fun digits_value :: "nat \<Rightarrow> string \<Rightarrow> nat option" where
  "digits_value acc [] = Some acc"
| "digits_value acc (c # cs) =
     (if is_digit c then digits_value (10 * acc + digit_value c) cs else None)"

text \<open>\<open>strconv.ParseUint(s, 10, 64)\<close>.\<close>

definition parse_uint64 :: "string \<Rightarrow> gerror + uint64" where
  "parse_uint64 s =
     (if s = [] then Inl (NumErr s ''invalid syntax'')
      else case digits_value 0 s of
        None \<Rightarrow> Inl (NumErr s ''invalid syntax'')
      | Some n \<Rightarrow> if n < 2 ^ 64 then Inr (word_of_nat n)
                  else Inl (NumErr s ''value out of range''))"

text \<open>\<open>strconv.Atoi\<close>: an optional sign, then digits, within the 64-bit range of \<open>int\<close>.\<close>

definition atoi :: "string \<Rightarrow> gerror + int" where
  "atoi s =
     (let neg = (s \<noteq> [] \<and> hd s = CHR ''-'');
          ds = (if s \<noteq> [] \<and> (hd s = CHR ''-'' \<or> hd s = CHR ''+'') then tl s else s)
      in if ds = [] then Inl (NumErr s ''invalid syntax'')
         else case digits_value 0 ds of
           None \<Rightarrow> Inl (NumErr s ''invalid syntax'')
         | Some n \<Rightarrow>
             let v = (if neg then - int n else int n)
             in if in_int64 v then Inr v else Inl (NumErr s ''value out of range''))"

lemma digit_char_is_digit [simp]: "d < 10 \<Longrightarrow> is_digit (digit_char d)"
  by (simp add: digit_char_def is_digit_def)

lemma digit_value_char [simp]: "d < 10 \<Longrightarrow> digit_value (digit_char d) = d"
  by (simp add: digit_char_def digit_value_def)

lemma digit_char_simps [simp]:
  "digit_char 0 = CHR ''0''" "digit_char (Suc 0) = CHR ''1''" "digit_char 1 = CHR ''1''"
  "digit_char 2 = CHR ''2''" "digit_char 3 = CHR ''3''" "digit_char 4 = CHR ''4''"
  "digit_char 5 = CHR ''5''" "digit_char 6 = CHR ''6''" "digit_char 7 = CHR ''7''"
  "digit_char 8 = CHR ''8''" "digit_char 9 = CHR ''9''"
  by (simp_all add: digit_char_def char_of_def bit_Suc_0_iff)

lemma digits_value_append:
  "digits_value acc (xs @ ys) =
     (case digits_value acc xs of None \<Rightarrow> None | Some a \<Rightarrow> digits_value a ys)"
  by (induction xs arbitrary: acc) auto

lemma show_nat_digits: "c \<in> set (show_nat n) \<Longrightarrow> is_digit c"
proof (induction n rule: show_nat.induct)
  case (1 n)
  show ?case
  proof (cases "n < 10")
    case True
    with "1.prems" show ?thesis by (simp add: show_nat.simps)
  next
    case False
    with "1.prems" have "c \<in> set (show_nat (n div 10)) \<or> c = digit_char (n mod 10)"
      by (subst (asm) show_nat.simps) auto
    with False "1.IH" show ?thesis by auto
  qed
qed

lemma show_nat_nonempty [simp]: "show_nat n \<noteq> []"
  by (subst show_nat.simps) simp

lemma length_show_nat: "n < 10 ^ k \<Longrightarrow> 0 < k \<Longrightarrow> length (show_nat n) \<le> k"
proof (induction n arbitrary: k rule: show_nat.induct)
  case (1 n)
  show ?case
  proof (cases "n < 10")
    case True
    then show ?thesis using 1(3) by (subst show_nat.simps) simp
  next
    case False
    with 1 obtain j where k: "k = Suc j" "0 < j" by (cases k; cases "k - 1") auto
    moreover have "n div 10 < 10 ^ j" using 1(2) k by (simp add: less_mult_imp_div_less mult.commute)
    ultimately show ?thesis using 1(1) False by (subst show_nat.simps) simp
  qed
qed

lemma digits_value_show_nat: "digits_value 0 (show_nat n) = Some n"
proof (induction n rule: show_nat.induct)
  case (1 n)
  show ?case
  proof (cases "n < 10")
    case True
    then show ?thesis by (simp add: show_nat.simps)
  next
    case False
    with "1.IH" show ?thesis
      by (simp add: show_nat.simps [of n] digits_value_append)
  qed
qed

lemma parse_show_nat: "n < 2 ^ 64 \<Longrightarrow> parse_uint64 (show_nat n) = Inr (word_of_nat n)"
  by (simp add: parse_uint64_def digits_value_show_nat)

lemma inj_show_nat: "inj show_nat"
  by (rule injI) (metis digits_value_show_nat option.inject)

lemma show_nat_eq_iff [simp]: "show_nat m = show_nat n \<longleftrightarrow> m = n"
  using inj_show_nat by (auto dest: injD)

lemma show_nat_no_char: "\<not> is_digit c \<Longrightarrow> c \<notin> set (show_nat n)"
  using show_nat_digits by blast

lemma not_digit_special [simp]:
  "\<not> is_digit CHR '' ''" "\<not> is_digit CHR '',''" "\<not> is_digit CHR ''-''" "\<not> is_digit CHR ''+''"
  "\<not> is_digit CHR ''/''" "\<not> is_digit CHR '':''" "\<not> is_digit CHR 0x0A" "\<not> is_digit CHR 0x0D"
  by (simp_all add: is_digit_def)

lemma show_int_nat [simp]: "show_int (int n) = show_nat n"
  by (simp add: show_int_def)

text \<open>An integer that fits survives printing with \<open>%d\<close> and \<open>strconv.Atoi\<close>.\<close>

lemma show_nat_hd_digit: "is_digit (hd (show_nat n))"
  using show_nat_digits [of "hd (show_nat n)" n] by simp

lemma atoi_show_int: "in_int64 i \<Longrightarrow> atoi (show_int i) = Inr i"
proof (cases "i < 0")
  case True
  assume "in_int64 i"
  with True show ?thesis
    by (simp add: atoi_def show_int_def digits_value_show_nat Let_def)
next
  case False
  assume i: "in_int64 i"
  have "hd (show_nat (nat i)) \<noteq> CHR ''-''" "hd (show_nat (nat i)) \<noteq> CHR ''+''"
    using show_nat_hd_digit [of "nat i"] by auto
  with False i show ?thesis
    by (simp add: atoi_def show_int_def digits_value_show_nat Let_def)
qed

section \<open>strings\<close>

text \<open>\<open>strings.Split(s, sep)\<close> for a separator of one byte: never the empty slice.\<close>

fun split_on :: "char \<Rightarrow> string \<Rightarrow> string list" where
  "split_on c [] = [[]]"
| "split_on c (x # xs) =
     (if x = c then [] # split_on c xs
      else case split_on c xs of [] \<Rightarrow> [[x]] | w # ws \<Rightarrow> (x # w) # ws)"

text \<open>\<open>strings.Trim(s, cutset)\<close> for a cutset of one byte.\<close>

definition trim_char :: "char \<Rightarrow> string \<Rightarrow> string" where
  "trim_char c s = rev (dropWhile (\<lambda>x. x = c) (rev (dropWhile (\<lambda>x. x = c) s)))"

fun join :: "string \<Rightarrow> string list \<Rightarrow> string" where
  "join sep [] = []"
| "join sep [w] = w"
| "join sep (w # v # ws) = w @ sep @ join sep (v # ws)"

definition has_prefix :: "string \<Rightarrow> string \<Rightarrow> bool" where
  "has_prefix s p \<longleftrightarrow> take (length p) s = p"

fun str_contains :: "string \<Rightarrow> string \<Rightarrow> bool" where
  "str_contains [] p \<longleftrightarrow> p = []"
| "str_contains (x # xs) p \<longleftrightarrow> has_prefix (x # xs) p \<or> str_contains xs p"

definition to_lower_char :: "char \<Rightarrow> char" where
  "to_lower_char c =
     (if 65 \<le> (of_char c :: nat) \<and> (of_char c :: nat) \<le> 90 then char_of (of_char c + 32 :: nat) else c)"

text \<open>\<open>strings.ToLower\<close> on ASCII text.\<close>

definition to_lower :: "string \<Rightarrow> string" where
  "to_lower s = map to_lower_char s"

lemma split_on_nonempty [simp]: "split_on c s \<noteq> []"
  by (cases "(c, s)" rule: split_on.cases) (auto split: list.splits)

lemma split_on_absent: "c \<notin> set s \<Longrightarrow> split_on c s = [s]"
  by (induction s) auto

lemma split_on_append_sep:
  "c \<notin> set w \<Longrightarrow> split_on c (w @ c # s) = w # split_on c s"
  by (induction w) auto

lemma split_on_append:
  "c \<notin> set w \<Longrightarrow> split_on c (w @ s) = (w @ hd (split_on c s)) # tl (split_on c s)"
  by (induction w) auto

lemma split_join:
  assumes "ws \<noteq> []" and "\<forall>w \<in> set ws. c \<notin> set w"
  shows "split_on c (join [c] ws) = ws"
  using assms
proof (induction "[c]" ws rule: join.induct)
  case (3 w v ws)
  then show ?case using split_on_append_sep [of c w "join [c] (v # ws)"] by simp
qed (auto simp: split_on_absent)

lemma join_split: "join [c] (split_on c s) = s"
proof (induction s)
  case (Cons x xs)
  obtain w ws where w: "split_on c xs = w # ws"
    by (cases "split_on c xs") auto
  with Cons show ?case by (cases ws) auto
qed simp

lemma dropWhile_absent: "c \<notin> set s \<Longrightarrow> dropWhile (\<lambda>x. x = c) s = s"
  by (cases s) auto

lemma trim_char_absent [simp]: "c \<notin> set s \<Longrightarrow> trim_char c s = s"
  by (simp add: trim_char_def dropWhile_absent)

lemma dropWhile_replicate: "dropWhile (\<lambda>x. x = c) (replicate n c @ s) = dropWhile (\<lambda>x. x = c) s"
  by (induction n) auto

lemma trim_char_padded:
  assumes "c \<notin> set s"
  shows "trim_char c (replicate m c @ s @ replicate n c) = s"
proof (cases "s = []")
  case True
  moreover have "dropWhile (\<lambda>x. x = c) (replicate n c) = []"
    by (simp add: dropWhile_eq_Nil_conv)
  ultimately show ?thesis
    by (simp add: trim_char_def dropWhile_replicate)
next
  case False
  then obtain y ys where s: "s = y # ys" by (cases s) auto
  with assms have "dropWhile (\<lambda>x. x = c) (s @ replicate n c) = s @ replicate n c" by auto
  with assms show ?thesis
    by (simp add: trim_char_def dropWhile_replicate dropWhile_absent)
qed

lemma join_chars: "x \<in> set (join sep ws) \<Longrightarrow> x \<in> set sep \<or> (\<exists>w \<in> set ws. x \<in> set w)"
  by (induction sep ws rule: join.induct) auto

lemma has_prefix_append [simp]: "has_prefix (p @ s) p"
  by (simp add: has_prefix_def)

lemma has_prefix_iff: "has_prefix s p \<longleftrightarrow> (\<exists>t. s = p @ t)"
  by (auto simp: has_prefix_def) (metis append_take_drop_id)

lemma str_contains_iff: "str_contains s p \<longleftrightarrow> (\<exists>u v. s = u @ p @ v)"
proof (induction s)
  case (Cons x xs)
  show ?case
  proof
    assume "str_contains (x # xs) p"
    then consider "has_prefix (x # xs) p" | "str_contains xs p" by auto
    then show "\<exists>u v. x # xs = u @ p @ v"
    proof cases
      case 1
      then show ?thesis by (auto simp: has_prefix_iff intro: exI [of _ "[]"])
    next
      case 2
      with Cons.IH obtain u v where "xs = u @ p @ v" by blast
      then show ?thesis by (intro exI [of _ "x # u"] exI [of _ v]) simp
    qed
  next
    assume "\<exists>u v. x # xs = u @ p @ v"
    then obtain u v where uv: "x # xs = u @ p @ v" by blast
    show "str_contains (x # xs) p"
    proof (cases u)
      case Nil
      with uv have "has_prefix (x # xs) p" by (simp add: has_prefix_iff)
      then show ?thesis by simp
    next
      case (Cons y u')
      with uv have "xs = u' @ p @ v" by simp
      with Cons.IH show ?thesis by auto
    qed
  qed
qed auto

section \<open>Comma-separated lines\<close>

locale csv_field =
  fixes put :: "'a \<Rightarrow> string" and parse :: "string \<Rightarrow> gerror + 'b" and view :: "'a \<Rightarrow> 'b"
    and sep pad :: char and valid :: "'a \<Rightarrow> bool"
  assumes parse_put: "valid x \<Longrightarrow> parse (put x) = Inr (view x)"
    and put_no_sep: "sep \<notin> set (put x)"
    and put_no_pad: "pad \<notin> set (put x)"
    and sep_pad: "sep \<noteq> pad"
begin

definition fields :: "string \<Rightarrow> 'b list" where
  "fields line =
     concat (map (\<lambda>w. case parse (trim_char pad w) of Inl _ \<Rightarrow> [] | Inr v \<Rightarrow> [v])
                 (split_on sep line))"

lemma fields_join:
  assumes "xs \<noteq> []" and "\<forall>x \<in> set xs. valid x"
  shows "fields (join [sep] (map put xs)) = map view xs"
proof -
  have "split_on sep (join [sep] (map put xs)) = map put xs"
    using assms put_no_sep by (intro split_join) auto
  moreover have "concat (map ((\<lambda>w. case parse (trim_char pad w) of Inl _ \<Rightarrow> [] | Inr v \<Rightarrow> [v]) \<circ> put) xs)
      = map view xs"
    using assms(2) by (induction xs) (auto simp: parse_put put_no_pad)
  ultimately show ?thesis by (simp add: fields_def)
qed

text \<open>Blanks around a field are harmless.\<close>

lemma fields_padded:
  assumes "valid x"
  shows "fields (replicate m pad @ put x @ replicate n pad) = [view x]"
proof -
  have "split_on sep (replicate m pad @ put x @ replicate n pad)
      = [replicate m pad @ put x @ replicate n pad]"
    using put_no_sep sep_pad by (intro split_on_absent) auto
  moreover have "trim_char pad (replicate m pad @ put x @ replicate n pad) = put x"
    using put_no_pad by (intro trim_char_padded)
  ultimately show ?thesis
    using assms by (simp add: fields_def parse_put)
qed

end

text \<open>Unsigned decimal fields separated by commas and padded with blanks.\<close>

interpretation decimal: csv_field show_nat parse_uint64 word_of_nat
  "CHR '',''" "CHR '' ''" "\<lambda>n. n < 2 ^ 64"
  by unfold_locales (auto simp: parse_show_nat show_nat_no_char)

end
