(* ===== verification/Go_Bufio.thy ===== *)
theory Go_Bufio
  imports Go_Strings
begin

text \<open>
  Reading line by line with a \<open>bufio.Scanner\<close>, which the statistics and the tunnel share: the
  lines of a text, and the lemma that lines written one by one are read back.
\<close>

abbreviation newline :: char where "newline \<equiv> CHR 0x0A"
abbreviation carriage_return :: char where "carriage_return \<equiv> CHR 0x0D"

text \<open>
  The lines of a \<open>bufio.Scanner\<close>: the text after the last line feed is a line unless it is
  empty, one trailing carriage return is dropped, and a line that does not fit in the 64 KiB buffer
  ends the scan.
\<close>

definition max_scan_token :: nat where
  "max_scan_token = 65536"

definition drop_cr :: "string \<Rightarrow> string" where
  "drop_cr l = (if l \<noteq> [] \<and> last l = carriage_return then butlast l else l)"

definition raw_lines :: "string \<Rightarrow> string list" where
  "raw_lines s = (let ls = split_on newline s in if last ls = [] then butlast ls else ls)"

definition scan_lines :: "string \<Rightarrow> string list" where
  "scan_lines s = map drop_cr (takeWhile (\<lambda>l. length l < max_scan_token) (raw_lines s))"

text \<open>Lines written one by one are read back.\<close>

abbreviation plain_line :: "string \<Rightarrow> bool" where
  "plain_line l \<equiv> newline \<notin> set l \<and> carriage_return \<notin> set l \<and> length l < max_scan_token"

lemma split_on_lines:
  "\<forall>l \<in> set ls. newline \<notin> set l \<Longrightarrow> split_on newline (concat (map (\<lambda>l. l @ [newline]) ls)) = ls @ ['''']"
  by (induction ls) (simp_all add: split_on_append_sep)

lemma scan_written_lines:
  assumes "\<forall>l \<in> set ls. plain_line l"
  shows "scan_lines (concat (map (\<lambda>l. l @ [newline]) ls)) = ls"
proof -
  have "raw_lines (concat (map (\<lambda>l. l @ [newline]) ls)) = ls"
    using assms by (simp add: raw_lines_def split_on_lines)
  moreover have "takeWhile (\<lambda>l. length l < max_scan_token) ls = ls"
    using assms by (simp add: takeWhile_eq_all_conv)
  moreover have "map drop_cr ls = ls"
    using assms last_in_set by (intro map_idI) (fastforce simp: drop_cr_def)
  ultimately show ?thesis by (simp only: scan_lines_def)
qed

end
