(* ===== verification/Float64.thy ===== *)
theory Float64
  imports Complex_Main "HOL-Library.Log_Nat" Go_Strings
begin

text \<open>
  Go's \<open>float64\<close>: IEEE 754 binary64 with rounding to nearest, ties to even. A finite value
  is the rational it denotes, so every operation of the program is the exact rational result
  followed by the rounding \<open>rnd\<close>, and everything computes. The sign of zero is not kept:
  no value the program prints or converts depends on it.

  The lemmas bound and evaluate \<open>rnd\<close> where the program relies on it: it is exact on the
  integers up to \<open>2 ^ 53\<close> in magnitude and on their multiples by powers of two, it never
  crosses such an integer, and dividing by a power of two is exact.
\<close>

section \<open>Rounding\<close>

datatype float64 = Fin rat | PInf | NInf | NaN

text \<open>\<open>ilog2 x\<close> is the exponent of the leading bit of a positive rational.\<close>

definition ilog2 :: "rat \<Rightarrow> int" where
  "ilog2 x =
     (let p = fst (quotient_of x); q = snd (quotient_of x); e = bitlen p - bitlen q
      in if 2 powi e \<le> x then e else e - 1)"

text \<open>Round to an integer, ties to even.\<close>

definition rne :: "rat \<Rightarrow> int" where
  "rne x =
     (let f = \<lfloor>x\<rfloor>; d = x - of_int f
      in if d < 1 / 2 then f else if 1 / 2 < d then f + 1 else if even f then f else f + 1)"

text \<open>The exponent of the last bit of the format for values as large as \<open>x\<close>.\<close>

definition ulp_exp :: "rat \<Rightarrow> int" where
  "ulp_exp x = max (ilog2 \<bar>x\<bar>) (- 1022) - 52"

definition rnd_rat :: "rat \<Rightarrow> rat" where
  "rnd_rat x =
     (if x = 0 then 0 else of_int (rne (x / 2 powi ulp_exp x)) * 2 powi ulp_exp x)"

definition rnd :: "rat \<Rightarrow> float64" where
  "rnd x =
     (let y = rnd_rat x
      in if 2 ^ 1024 \<le> y then PInf else if y \<le> - (2 ^ 1024) then NInf else Fin y)"

section \<open>Operations\<close>

text \<open>Conversion from an integer type.\<close>

definition f64_of_int :: "int \<Rightarrow> float64" where
  "f64_of_int i = rnd (of_int i)"

definition f64_of_uint64 :: "uint64 \<Rightarrow> float64" where
  "f64_of_uint64 w = f64_of_int (uint w)"

text \<open>
  Conversion to \<open>int64\<close> (\<open>int\<close>, \<open>time.Duration\<close>) truncates towards zero. Out of the range
  the result is implementation-dependent: it is the parameter \<open>ood\<close> of the conversion.
\<close>

definition trunc_rat :: "rat \<Rightarrow> int" where
  "trunc_rat x = (if 0 \<le> x then \<lfloor>x\<rfloor> else \<lceil>x\<rceil>)"

fun f64_to_int :: "(float64 \<Rightarrow> int) \<Rightarrow> float64 \<Rightarrow> int" where
  "f64_to_int ood (Fin x) = (if in_int64 (trunc_rat x) then trunc_rat x else ood (Fin x))"
| "f64_to_int ood x = ood x"

instantiation float64 :: ord
begin

text \<open>IEEE comparisons: every comparison with a NaN is false.\<close>

fun less_float64 :: "float64 \<Rightarrow> float64 \<Rightarrow> bool" where
  "less_float64 (Fin x) (Fin y) \<longleftrightarrow> x < y"
| "less_float64 (Fin x) PInf \<longleftrightarrow> True"
| "less_float64 NInf (Fin y) \<longleftrightarrow> True"
| "less_float64 NInf PInf \<longleftrightarrow> True"
| "less_float64 _ _ \<longleftrightarrow> False"

fun less_eq_float64 :: "float64 \<Rightarrow> float64 \<Rightarrow> bool" where
  "less_eq_float64 (Fin x) (Fin y) \<longleftrightarrow> x \<le> y"
| "less_eq_float64 NaN _ \<longleftrightarrow> False"
| "less_eq_float64 _ NaN \<longleftrightarrow> False"
| "less_eq_float64 NInf _ \<longleftrightarrow> True"
| "less_eq_float64 _ PInf \<longleftrightarrow> True"
| "less_eq_float64 _ _ \<longleftrightarrow> False"

instance ..

end

instantiation float64 :: "{zero, one, plus, uminus, minus, times, divide}"
begin

definition zero_float64 :: float64 where
  "zero_float64 = Fin 0"

definition one_float64 :: float64 where
  "one_float64 = Fin 1"

fun plus_float64 :: "float64 \<Rightarrow> float64 \<Rightarrow> float64" where
  "plus_float64 (Fin x) (Fin y) = rnd (x + y)"
| "plus_float64 NaN _ = NaN"
| "plus_float64 _ NaN = NaN"
| "plus_float64 PInf NInf = NaN"
| "plus_float64 NInf PInf = NaN"
| "plus_float64 PInf _ = PInf"
| "plus_float64 _ PInf = PInf"
| "plus_float64 _ _ = NInf"

fun uminus_float64 :: "float64 \<Rightarrow> float64" where
  "uminus_float64 (Fin x) = Fin (- x)"
| "uminus_float64 PInf = NInf"
| "uminus_float64 NInf = PInf"
| "uminus_float64 NaN = NaN"

definition minus_float64 :: "float64 \<Rightarrow> float64 \<Rightarrow> float64" where
  "minus_float64 a b = a + - b"

definition inf_of :: "rat \<Rightarrow> float64" where
  "inf_of s = (if 0 < s then PInf else if s < 0 then NInf else NaN)"

fun times_float64 :: "float64 \<Rightarrow> float64 \<Rightarrow> float64" where
  "times_float64 (Fin x) (Fin y) = rnd (x * y)"
| "times_float64 NaN _ = NaN"
| "times_float64 _ NaN = NaN"
| "times_float64 (Fin x) PInf = inf_of x"
| "times_float64 (Fin x) NInf = inf_of (- x)"
| "times_float64 PInf (Fin y) = inf_of y"
| "times_float64 NInf (Fin y) = inf_of (- y)"
| "times_float64 PInf PInf = PInf"
| "times_float64 NInf NInf = PInf"
| "times_float64 _ _ = NInf"

text \<open>A zero divisor counts as the positive zero, the only one the program can produce.\<close>

fun divide_float64 :: "float64 \<Rightarrow> float64 \<Rightarrow> float64" where
  "divide_float64 (Fin x) (Fin y) = (if y = 0 then inf_of x else rnd (x / y))"
| "divide_float64 NaN _ = NaN"
| "divide_float64 _ NaN = NaN"
| "divide_float64 (Fin x) _ = Fin 0"
| "divide_float64 PInf (Fin y) = (if 0 \<le> y then PInf else NInf)"
| "divide_float64 NInf (Fin y) = (if 0 \<le> y then NInf else PInf)"
| "divide_float64 _ _ = NaN"

instance ..

end

text \<open>\<open>math.Min\<close>, \<open>math.Max\<close>, \<open>math.Ceil\<close>.\<close>

definition f64_min :: "float64 \<Rightarrow> float64 \<Rightarrow> float64" where
  "f64_min a b =
     (if a = NInf \<or> b = NInf then NInf
      else if a = NaN \<or> b = NaN then NaN
      else if a < b then a else b)"

definition f64_max :: "float64 \<Rightarrow> float64 \<Rightarrow> float64" where
  "f64_max a b =
     (if a = PInf \<or> b = PInf then PInf
      else if a = NaN \<or> b = NaN then NaN
      else if b < a then a else b)"

fun f64_ceil :: "float64 \<Rightarrow> float64" where
  "f64_ceil (Fin x) = Fin (of_int \<lceil>x\<rceil>)"
| "f64_ceil x = x"

text \<open>
  \<open>math.Sqrt\<close>, correctly rounded: the integer square root of the argument scaled by an even
  power of two is an integer of 111 or 112 bits whose root has at least 55, and a half is added when it is not exact, so that rounding it
  is rounding the true root.
\<close>

function isqrt :: "nat \<Rightarrow> nat" where
  "isqrt n =
     (if n = 0 then 0
      else let r = 2 * isqrt (n div 4) in if (r + 1) * (r + 1) \<le> n then r + 1 else r)"
  by pat_completeness auto
termination by (relation "measure id") auto

declare isqrt.simps [simp del]

definition sqrt_scale :: "rat \<Rightarrow> int" where
  "sqrt_scale x = 55 - ilog2 x div 2"

fun f64_sqrt :: "float64 \<Rightarrow> float64" where
  "f64_sqrt (Fin x) =
     (if x < 0 then NaN
      else if x = 0 then Fin 0
      else let k = sqrt_scale x; n = nat \<lfloor>x * 4 powi k\<rfloor>; r = isqrt n
           in if r * r = n then rnd (of_nat r / 2 powi k)
              else rnd ((of_nat r + 1 / 2) / 2 powi k))"
| "f64_sqrt PInf = PInf"
| "f64_sqrt NInf = NaN"
| "f64_sqrt NaN = NaN"

text \<open>The verb \<open>%.2f\<close>: the exact value to two decimals, ties to even.\<close>

definition show_cents :: "nat \<Rightarrow> string" where
  "show_cents n =
     show_nat (n div 100) @ ''.'' @ [digit_char (n div 10 mod 10), digit_char (n mod 10)]"

fun f64_fmt2 :: "float64 \<Rightarrow> string" where
  "f64_fmt2 (Fin x) = (if x < 0 then ''-'' else '''') @ show_cents (nat (rne (\<bar>x\<bar> * 100)))"
| "f64_fmt2 PInf = ''+Inf''"
| "f64_fmt2 NInf = ''-Inf''"
| "f64_fmt2 NaN = ''NaN''"

text \<open>A minimum width pads with blanks on the left: \<open>%6.2f\<close>, \<open>%8.2f\<close>.\<close>

definition pad_left :: "nat \<Rightarrow> string \<Rightarrow> string" where
  "pad_left n s = replicate (n - length s) CHR '' '' @ s"

section \<open>Powers of two and the exponent\<close>

abbreviation pow2 :: "int \<Rightarrow> rat" where
  "pow2 k \<equiv> 2 powi k"

lemma pow2_pos [simp]: "0 < pow2 k"
  by (simp add: zero_less_power_int)

lemma pow2_add: "pow2 (j + k) = pow2 j * pow2 k"
  by (simp add: power_int_add)

lemma pow2_diff: "pow2 (j - k) = pow2 j / pow2 k"
  by (simp add: power_int_diff)

lemma pow2_le_iff [simp]: "pow2 j \<le> pow2 k \<longleftrightarrow> j \<le> k"
  by (metis linorder_not_le one_less_numeral_iff order_less_imp_le power_int_increasing
      power_int_strict_increasing semiring_norm(76))

lemma pow2_less_iff [simp]: "pow2 j < pow2 k \<longleftrightarrow> j < k"
  by (metis linorder_not_le pow2_le_iff)

lemma pow2_of_int: "0 \<le> k \<Longrightarrow> pow2 k = of_int (2 ^ nat k)"
  by (simp add: power_int_nonneg_exp)

lemma pow2_shift: "of_int (2 ^ n) * pow2 k = pow2 (int n + k)"
  by (simp add: pow2_add)

lemma rat_positive_quotient:
  assumes "0 < (x::rat)"
  obtains p q where "quotient_of x = (p, q)" "0 < p" "0 < q" "x = of_int p / of_int q"
proof -
  obtain p q where pq: "quotient_of x = (p, q)" by (cases "quotient_of x")
  then have q: "0 < q" by (rule quotient_of_denom_pos)
  have x: "x = of_int p / of_int q" using pq by (rule quotient_of_div)
  with assms q have "0 < p" by (simp add: zero_less_divide_iff)
  with pq q x show thesis by (rule_tac that)
qed

lemma bitlen_pow2_bounds:
  assumes "0 < p"
  shows "pow2 (bitlen p - 1) \<le> of_int p" and "of_int p < pow2 (bitlen p)"
proof -
  have b: "1 \<le> bitlen p" using assms bitlen_eq_zero_iff [of p] bitlen_nonneg [of p] by linarith
  from bitlen_bounds [OF assms] have "2 ^ nat (bitlen p - 1) \<le> p" "p < 2 ^ nat (bitlen p)" by auto
  then have "of_int (2 ^ nat (bitlen p - 1)) \<le> (of_int p :: rat)"
    "(of_int p :: rat) < of_int (2 ^ nat (bitlen p))"
    by (simp_all only: of_int_le_iff of_int_less_iff)
  with b show "pow2 (bitlen p - 1) \<le> of_int p" "of_int p < pow2 (bitlen p)"
    by (simp_all add: pow2_of_int)
qed

lemma ilog2_bounds:
  assumes "0 < x"
  shows "pow2 (ilog2 x) \<le> x" and "x < pow2 (ilog2 x + 1)"
proof -
  obtain p q where pq: "quotient_of x = (p, q)" "0 < p" "0 < q" "x = of_int p / of_int q"
    using assms by (rule rat_positive_quotient)
  note p = bitlen_pow2_bounds [OF pq(2)] and q = bitlen_pow2_bounds [OF pq(3)]
  have "pow2 (bitlen p - 1) / pow2 (bitlen q) \<le> of_int p / of_int q"
    using p q pq by (intro frac_le) auto
  then have lo: "pow2 (bitlen p - bitlen q - 1) \<le> x"
    by (simp add: pq(4) algebra_simps flip: pow2_diff)
  have "of_int p / of_int q < pow2 (bitlen p) / pow2 (bitlen q - 1)"
    using p q pq by (intro frac_less) auto
  then have hi: "x < pow2 (bitlen p - bitlen q + 1)"
    by (simp add: pq(4) algebra_simps flip: pow2_diff)
  show "pow2 (ilog2 x) \<le> x" "x < pow2 (ilog2 x + 1)"
    using lo hi pq(1) by (auto simp: ilog2_def Let_def)
qed

lemma ilog2_eqI:
  assumes "pow2 k \<le> x" and "x < pow2 (k + 1)"
  shows "ilog2 x = k"
proof -
  have "0 < x" using assms(1) pow2_pos [of k] by linarith
  note b = ilog2_bounds [OF this]
  have "pow2 k < pow2 (ilog2 x + 1)" "pow2 (ilog2 x) < pow2 (k + 1)" using assms b by linarith+
  then show ?thesis by simp
qed

lemma ilog2_mono:
  assumes "0 < x" and "x \<le> y"
  shows "ilog2 x \<le> ilog2 y"
proof -
  have "pow2 (ilog2 x) < pow2 (ilog2 y + 1)"
    using ilog2_bounds [of x] ilog2_bounds [of y] assms by linarith
  then show ?thesis by simp
qed

section \<open>Rounding to an integer\<close>

lemma rne_of_int [simp]: "rne (of_int i) = i"
  by (simp add: rne_def)

lemma rne_floor: "\<lfloor>x\<rfloor> \<le> rne x" "rne x \<le> \<lfloor>x\<rfloor> + 1"
  by (auto simp: rne_def Let_def)

lemma rne_near: "\<bar>of_int (rne x) - x\<bar> \<le> 1 / 2"
  by (auto simp: rne_def Let_def abs_if field_simps) linarith+

lemma rne_mono:
  assumes "x \<le> y"
  shows "rne x \<le> rne y"
proof (cases "\<lfloor>x\<rfloor> = \<lfloor>y\<rfloor>")
  case True
  with assms show ?thesis by (auto simp: rne_def Let_def)
next
  case False
  with assms have "\<lfloor>x\<rfloor> + 1 \<le> \<lfloor>y\<rfloor>" using floor_mono [OF assms] by linarith
  then show ?thesis using rne_floor [of x] rne_floor [of y] by linarith
qed

lemma rne_uminus: "rne (- x) = - rne x"
proof (cases "x = of_int \<lfloor>x\<rfloor>")
  case True
  then show ?thesis by (metis of_int_minus rne_of_int)
next
  case False
  then have "\<lfloor>- x\<rfloor> = - \<lfloor>x\<rfloor> - 1"
    by (smt (verit) ceiling_altdef floor_minus)
  note f = this
  have "even (- \<lfloor>x\<rfloor> - 1) = odd \<lfloor>x\<rfloor>" by simp
  then show ?thesis unfolding rne_def Let_def f by auto
qed

lemma rne_ge_int: "of_int i \<le> x \<Longrightarrow> i \<le> rne x"
  using rne_mono [of "of_int i" x] by simp

lemma rne_le_int: "x \<le> of_int i \<Longrightarrow> rne x \<le> i"
  using rne_mono [of x "of_int i"] by simp

section \<open>Rounding to the format\<close>

lemma rnd_rat_0 [simp]: "rnd_rat 0 = 0"
  by (simp add: rnd_rat_def)

lemma ulp_exp_uminus [simp]: "ulp_exp (- x) = ulp_exp x"
  by (simp add: ulp_exp_def)

lemma rnd_rat_uminus: "rnd_rat (- x) = - rnd_rat x"
proof -
  have "- x / pow2 (ulp_exp x) = - (x / pow2 (ulp_exp x))" by simp
  then show ?thesis unfolding rnd_rat_def ulp_exp_uminus by (simp add: rne_uminus)
qed

text \<open>A value that is a multiple of its own last place is a float.\<close>

lemma rnd_rat_multiple:
  assumes "x = of_int n * pow2 (ulp_exp x)"
  shows "rnd_rat x = x"
proof (cases "x = 0")
  case False
  have "x / pow2 (ulp_exp x) = of_int n" using assms by (simp add: field_simps)
  then have "rnd_rat x = of_int n * pow2 (ulp_exp x)" using False by (simp add: rnd_rat_def)
  with assms show ?thesis by simp
qed simp

lemma rnd_rat_exact:
  assumes x: "x = of_int m * pow2 k" and m: "\<bar>m\<bar> \<le> 2 ^ 53" and k: "- 1074 \<le> k"
  shows "rnd_rat x = x"
proof (cases "x = 0")
  case False
  let ?u = "ulp_exp x"
  have "of_int \<bar>m\<bar> \<le> (of_int (2 ^ 53) :: rat)" using m by (simp only: of_int_le_iff)
  then have xle: "\<bar>x\<bar> \<le> pow2 53 * pow2 k"
    by (simp add: x abs_mult mult_right_mono)
  have lo: "pow2 (ilog2 \<bar>x\<bar>) \<le> \<bar>x\<bar>" using False by (intro ilog2_bounds) simp
  then have "pow2 (ilog2 \<bar>x\<bar>) \<le> pow2 (53 + k)" using xle by (simp only: pow2_add)
  then have E: "ilog2 \<bar>x\<bar> \<le> 53 + k" by simp
  show ?thesis
  proof (cases "?u \<le> k")
    case True
    then have "pow2 k = of_int (2 ^ nat (k - ?u)) * pow2 ?u"
      by (simp add: pow2_shift del: of_int_power)
    then have "x = of_int (m * 2 ^ nat (k - ?u)) * pow2 ?u" by (simp add: x)
    then show ?thesis by (rule rnd_rat_multiple)
  next
    case False
    then have e: "ilog2 \<bar>x\<bar> = 53 + k" and u: "?u = k + 1" using E k by (auto simp: ulp_exp_def)
    have "\<bar>x\<bar> = pow2 (53 + k)"
      using lo xle unfolding e pow2_add [of 53 k] by (rule order_antisym [rotated])
    then have "\<bar>x\<bar> = of_int (2 ^ 52) * pow2 ?u" by (simp only: u pow2_shift) simp
    then have "x = of_int (if 0 \<le> x then 2 ^ 52 else - (2 ^ 52)) * pow2 ?u"
      by (auto simp: abs_if split: if_splits)
    then show ?thesis by (rule rnd_rat_multiple)
  qed
qed simp

lemma rnd_rat_is_multiple: "\<exists>n. rnd_rat x = of_int n * pow2 (ulp_exp x)"
  by (auto simp: rnd_rat_def intro: exI [of _ 0])

text \<open>Rounding never crosses a float.\<close>

lemma rnd_rat_ge_pos:
  assumes x: "0 < x" and y: "rnd_rat y = y" and yx: "y \<le> x"
  shows "y \<le> rnd_rat x"
proof (cases "0 < y")
  case False
  have "0 \<le> rne (x / pow2 (ulp_exp x))" using x by (intro rne_ge_int) (simp add: less_imp_le)
  then have "0 \<le> rnd_rat x" by (simp add: rnd_rat_def)
  with False show ?thesis by linarith
next
  case True
  let ?u = "ulp_exp x"
  have xr: "rnd_rat x = of_int (rne (x / pow2 ?u)) * pow2 ?u" using x by (simp add: rnd_rat_def)
  have bound: "of_int n * pow2 ?u \<le> rnd_rat x" if "of_int n * pow2 ?u \<le> x" for n
  proof -
    have "n \<le> rne (x / pow2 ?u)" using that by (intro rne_ge_int) (simp add: pos_le_divide_eq)
    then show ?thesis by (simp add: xr mult_right_mono)
  qed
  show ?thesis
  proof (cases "ulp_exp y = ?u")
    case True
    obtain n where "y = of_int n * pow2 ?u" using rnd_rat_is_multiple [of y] y True by metis
    with bound yx show ?thesis by metis
  next
    case False
    have E: "ilog2 y \<le> ilog2 x" using \<open>0 < y\<close> yx by (rule ilog2_mono)
    with False have lt: "ilog2 y < ilog2 x" and n: "- 1022 < ilog2 x" and u: "?u = ilog2 x - 52"
      using x \<open>0 < y\<close> by (auto simp: ulp_exp_def)
    have p: "of_int (2 ^ 52) * pow2 ?u = pow2 (ilog2 x)"
      by (simp only: u pow2_shift) simp
    have "pow2 (ilog2 x) \<le> rnd_rat x"
      using bound [of "2 ^ 52"] ilog2_bounds(1) [OF x] unfolding p .
    moreover have "y < pow2 (ilog2 y + 1)" using \<open>0 < y\<close> by (rule ilog2_bounds)
    moreover have "pow2 (ilog2 y + 1) \<le> pow2 (ilog2 x)" using lt by simp
    ultimately show ?thesis by linarith
  qed
qed

lemma rnd_rat_le_pos:
  assumes x: "0 < x" and y: "rnd_rat y = y" and xy: "x \<le> y"
  shows "rnd_rat x \<le> y"
proof -
  let ?u = "ulp_exp x"
  have y0: "0 < y" using x xy by linarith
  have xr: "rnd_rat x = of_int (rne (x / pow2 ?u)) * pow2 ?u" using x by (simp add: rnd_rat_def)
  have bound: "rnd_rat x \<le> of_int n * pow2 ?u" if "x \<le> of_int n * pow2 ?u" for n
  proof -
    have "rne (x / pow2 ?u) \<le> n" using that by (intro rne_le_int) (simp add: pos_divide_le_eq)
    then show ?thesis by (simp add: xr mult_right_mono)
  qed
  show ?thesis
  proof (cases "ulp_exp y = ?u")
    case True
    obtain n where "y = of_int n * pow2 ?u" using rnd_rat_is_multiple [of y] y True by metis
    with bound xy show ?thesis by metis
  next
    case False
    let ?M = "max (ilog2 x) (- 1022)"
    have "ilog2 x \<le> ilog2 y" using x xy by (rule ilog2_mono)
    with False have lt: "?M < ilog2 y" using x y0 by (auto simp: ulp_exp_def)
    have p: "of_int (2 ^ 53) * pow2 ?u = pow2 (?M + 1)"
      using x by (simp only: ulp_exp_def pow2_shift) (simp add: add.commute)
    have "x < pow2 (ilog2 x + 1)" using x by (rule ilog2_bounds)
    also have "\<dots> \<le> pow2 (?M + 1)" by simp
    finally have "rnd_rat x \<le> pow2 (?M + 1)" using bound [of "2 ^ 53"] unfolding p by simp
    also have "\<dots> \<le> pow2 (ilog2 y)" using lt by (subst pow2_le_iff) linarith
    also have "\<dots> \<le> y" using y0 by (rule ilog2_bounds)
    finally show ?thesis .
  qed
qed

lemma rnd_rat_ge:
  assumes "rnd_rat y = y" and "y \<le> x"
  shows "y \<le> rnd_rat x"
proof -
  consider "0 < x" | "x = 0" | "x < 0" by linarith
  then show ?thesis
  proof cases
    case 1
    then show ?thesis using assms by (rule rnd_rat_ge_pos)
  next
    case 3
    then have "rnd_rat (- x) \<le> - y"
      using assms by (intro rnd_rat_le_pos) (simp_all add: rnd_rat_uminus)
    then show ?thesis by (simp add: rnd_rat_uminus)
  qed (use assms in simp)
qed

lemma rnd_rat_le:
  assumes "rnd_rat y = y" and "x \<le> y"
  shows "rnd_rat x \<le> y"
  using rnd_rat_ge [of "- y" "- x"] assms by (simp add: rnd_rat_uminus)

lemma rnd_rat_int: "\<bar>i\<bar> \<le> 2 ^ 53 \<Longrightarrow> rnd_rat (of_int i) = of_int i"
  by (rule rnd_rat_exact [of _ i 0]) simp_all

lemma rnd_rat_pow2: "- 1074 \<le> k \<Longrightarrow> rnd_rat (pow2 k) = pow2 k"
  by (rule rnd_rat_exact [of _ 1 k]) simp_all

text \<open>The result of rounding has at most 53 significant bits.\<close>

lemma rnd_rat_format:
  obtains m where "rnd_rat x = of_int m * pow2 (ulp_exp x)" and "\<bar>m\<bar> \<le> 2 ^ 53"
proof (cases "x = 0")
  case True
  with that [of 0] show thesis by simp
next
  case False
  let ?u = "ulp_exp x"
  have "\<bar>x\<bar> < pow2 (ilog2 \<bar>x\<bar> + 1)" using False by (intro ilog2_bounds) simp
  also have "\<dots> \<le> pow2 (max (ilog2 \<bar>x\<bar>) (- 1022) + 1)" by simp
  also have "\<dots> = of_int (2 ^ 53) * pow2 ?u"
    by (simp only: ulp_exp_def pow2_shift) (simp add: add.commute)
  finally have "x \<le> of_int (2 ^ 53) * pow2 ?u" "- (of_int (2 ^ 53) * pow2 ?u) \<le> x" by linarith+
  then have "x / pow2 ?u \<le> of_int (2 ^ 53)" "of_int (- (2 ^ 53)) \<le> x / pow2 ?u"
    by (simp_all add: pos_divide_le_eq pos_le_divide_eq)
  then have "\<bar>rne (x / pow2 ?u)\<bar> \<le> 2 ^ 53"
    using rne_le_int [of "x / pow2 ?u" "2 ^ 53"] rne_ge_int [of "- (2 ^ 53)" "x / pow2 ?u"] by linarith
  with that False show thesis by (simp add: rnd_rat_def)
qed

lemma rnd_rat_idem [simp]: "rnd_rat (rnd_rat x) = rnd_rat x"
proof -
  obtain m where "rnd_rat x = of_int m * pow2 (ulp_exp x)" and "\<bar>m\<bar> \<le> 2 ^ 53"
    by (rule rnd_rat_format)
  then show ?thesis by (rule rnd_rat_exact) (simp add: ulp_exp_def)
qed

text \<open>Finite results.\<close>

lemma rnd_Fin: "\<bar>rnd_rat x\<bar> < 2 ^ 1024 \<Longrightarrow> rnd x = Fin (rnd_rat x)"
  by (auto simp: rnd_def Let_def)

lemma rnd_rat_abs_le:
  assumes "\<bar>x\<bar> \<le> pow2 k" and "- 1074 \<le> k"
  shows "\<bar>rnd_rat x\<bar> \<le> pow2 k"
proof -
  have "rnd_rat x \<le> pow2 k" using assms by (intro rnd_rat_le rnd_rat_pow2) auto
  moreover have "rnd_rat (- x) \<le> pow2 k" using assms by (intro rnd_rat_le rnd_rat_pow2) auto
  ultimately show ?thesis by (simp add: rnd_rat_uminus)
qed

lemma rnd_bounded:
  assumes "\<bar>x\<bar> \<le> pow2 1000"
  shows "rnd x = Fin (rnd_rat x)"
proof (rule rnd_Fin)
  have "\<bar>rnd_rat x\<bar> \<le> pow2 1000" using assms by (intro rnd_rat_abs_le) auto
  also have "\<dots> < pow2 1024" by (subst pow2_less_iff) simp
  finally show "\<bar>rnd_rat x\<bar> < 2 ^ 1024" by simp
qed

lemma rnd_int: "\<bar>i\<bar> \<le> 2 ^ 53 \<Longrightarrow> rnd (of_int i) = Fin (of_int i)"
proof -
  assume i: "\<bar>i\<bar> \<le> 2 ^ 53"
  have "of_int \<bar>i\<bar> \<le> (of_int (2 ^ 53) :: rat)" using i by (simp only: of_int_le_iff)
  also have "\<dots> = pow2 53" by simp
  also have "\<dots> \<le> pow2 1000" by (subst pow2_le_iff) simp
  finally show ?thesis using i by (simp add: rnd_bounded rnd_rat_int)
qed

lemma f64_of_int_exact: "\<bar>i\<bar> \<le> 2 ^ 53 \<Longrightarrow> f64_of_int i = Fin (of_int i)"
  by (simp add: f64_of_int_def rnd_int)

text \<open>Converting any 64-bit integer gives a finite value on the same side of every small integer.\<close>

lemma f64_of_int64:
  assumes "\<bar>i\<bar> \<le> 2 ^ 64"
  obtains y where "f64_of_int i = Fin y" "y = rnd_rat (of_int i)"
proof -
  have "of_int \<bar>i\<bar> \<le> (of_int (2 ^ 64) :: rat)" using assms by (simp only: of_int_le_iff)
  also have "\<dots> = pow2 64" by simp
  also have "\<dots> \<le> pow2 1000" by (subst pow2_le_iff) simp
  finally show thesis using that by (simp add: f64_of_int_def rnd_bounded)
qed

text \<open>Rounding an integer gives an integer.\<close>

lemma rnd_rat_of_int_Ints: "rnd_rat (of_int i) \<in> \<int>"
proof (cases "\<bar>i\<bar> \<le> 2 ^ 53")
  case False
  then have "of_int (2 ^ 53) < (of_int \<bar>i\<bar> :: rat)" by (simp only: of_int_less_iff not_le)
  then have le: "pow2 53 \<le> \<bar>of_int i :: rat\<bar>" by simp
  have "ilog2 (pow2 53) = 53" by (rule ilog2_eqI) simp_all
  with le have "53 \<le> ilog2 \<bar>of_int i :: rat\<bar>" using ilog2_mono [of "pow2 53"] by simp
  then have "0 \<le> ulp_exp (of_int i)" by (simp add: ulp_exp_def)
  then show ?thesis by (metis Ints_mult Ints_of_int pow2_of_int rnd_rat_is_multiple)
qed (simp add: rnd_rat_int)

lemma f64_of_uint64_Fin:
  obtains i where "f64_of_uint64 w = Fin (of_int i)" and "0 \<le> i" and "i \<le> 2 ^ 64"
proof -
  have "\<bar>uint w\<bar> \<le> 2 ^ 64" by (simp add: less_imp_le)
  then obtain y where y: "f64_of_int (uint w) = Fin y" "y = rnd_rat (of_int (uint w))"
    by (rule f64_of_int64)
  have "of_int (uint w) \<le> (of_int (2 ^ 64) :: rat)" by (simp only: of_int_le_iff) (simp add: less_imp_le)
  also have "(of_int (2 ^ 64) :: rat) = pow2 64" by simp
  finally have "rnd_rat (of_int (uint w)) \<le> pow2 64" by (intro rnd_rat_le rnd_rat_pow2) simp_all
  moreover have "0 \<le> rnd_rat (of_int (uint w))" by (intro rnd_rat_ge) (simp_all only: of_int_0_le_iff rnd_rat_0 unsigned_greater_eq)
  moreover obtain i where "rnd_rat (of_int (uint w)) = of_int i" by (metis Ints_cases rnd_rat_of_int_Ints)
  ultimately show thesis
    using that [of i] y of_int_le_iff [of i "2 ^ 64", where 'a = rat] by (simp add: f64_of_uint64_def)
qed

text \<open>Rounding keeps a value between two floats.\<close>

lemma rnd_between_floats:
  assumes "rnd_rat lo = lo" and "rnd_rat hi = hi" and "lo \<le> x" and "x \<le> hi"
    and "- pow2 1000 \<le> lo" and "hi \<le> pow2 1000"
  obtains y where "rnd x = Fin y" and "lo \<le> y" and "y \<le> hi"
proof -
  have "\<bar>x\<bar> \<le> pow2 1000" using assms by linarith
  then have "rnd x = Fin (rnd_rat x)" by (rule rnd_bounded)
  then show thesis using that rnd_rat_ge [of lo x] rnd_rat_le [of hi x] assms by simp
qed

end
