(* ===== verification/Metrics.thy ===== *)
theory Metrics
  imports Go_Bufio Float64 "HOL-Library.AList"
begin

text \<open>
  The statistics of a simulation (\<open>metrics/mod.go\<close>): a node's resource usage read line by
  line from the output of the monitor, and its aggregates. Counters are 64-bit words, timestamps
  are \<open>int64\<close>. A Go map that is iterated over is an association list with distinct keys. The
  standard deviation of gonum is a parameter.
\<close>

section \<open>Data\<close>

record node_stats =
  ns_timestamps :: "int list"
  ns_rx :: "uint64 list"
  ns_tx :: "uint64 list"
  ns_cpu :: "uint64 list"
  ns_memory :: "uint64 list"

record stats =
  stats_timestamp :: int
  stats_tags :: "(int \<times> string) list"
  stats_nodes :: "(string \<times> node_stats) list"

definition new_stats :: stats where
  "new_stats = \<lparr>stats_timestamp = 0, stats_tags = [], stats_nodes = []\<rparr>"

definition empty_node_stats :: node_stats where
  "empty_node_stats = \<lparr>ns_timestamps = [], ns_rx = [], ns_tx = [], ns_cpu = [], ns_memory = []\<rparr>"

section \<open>Reading\<close>

definition parse_integer :: "string \<Rightarrow> gerror + uint64" where
  "parse_integer v = parse_uint64 (trim_char (CHR '' '') v)"

fun parse_values :: "uint64 list \<Rightarrow> string list \<Rightarrow> uint64 list" where
  "parse_values numbers [] = numbers"
| "parse_values numbers (v # vs) =
     (case parse_integer v of
        Inl err \<Rightarrow> parse_values numbers vs
      | Inr num \<Rightarrow> parse_values (numbers @ [num]) vs)"

definition parse_line :: "string \<Rightarrow> uint64 list" where
  "parse_line line = parse_values [] (split_on (CHR '','') line)"

text \<open>The body of the loop over the lines; \<open>int64(numbers[0])\<close> reinterprets the bits.\<close>

definition stats_step :: "int \<Rightarrow> int \<Rightarrow> string \<Rightarrow> node_stats \<Rightarrow> node_stats" where
  "stats_step start end line ns =
     (let numbers = parse_line line in
      if 5 \<le> length numbers then
        let ts = sint (numbers ! 0) in
        if start \<le> ts \<and> ts \<le> end then
          \<lparr>ns_timestamps = ns_timestamps ns @ [ts],
           ns_rx = ns_rx ns @ [numbers ! 1],
           ns_tx = ns_tx ns @ [numbers ! 2],
           ns_cpu = ns_cpu ns @ [numbers ! 3],
           ns_memory = ns_memory ns @ [numbers ! 4]\<rparr>
        else ns
      else ns)"

definition new_node_stats :: "string \<Rightarrow> int \<Rightarrow> int \<Rightarrow> node_stats" where
  "new_node_stats data start end = fold (stats_step start end) (scan_lines data) empty_node_stats"

section \<open>Aggregates\<close>

text \<open>The division of \<open>float64\<close> is written \<open>div\<close>, the symbol of the class it instantiates.\<close>

text \<open>Indexing a slice panics out of range.\<close>

definition index :: "'a list \<Rightarrow> nat \<Rightarrow> ('a \<Rightarrow> 'b outcome) \<Rightarrow> 'b outcome" where
  "index xs i k = (if i < length xs then k (xs ! i) else Panic ''index out of range'')"

type_synonym columns = "uint64 \<times> uint64 \<times> uint64 \<times> uint64"

text \<open>The four columns of one index, in the order the loops read them.\<close>

definition row :: "node_stats \<Rightarrow> nat \<Rightarrow> (columns \<Rightarrow> 'b outcome) \<Rightarrow> 'b outcome" where
  "row ns i k =
     index (ns_cpu ns) i (\<lambda>cpu. index (ns_memory ns) i (\<lambda>mem.
     index (ns_tx ns) i (\<lambda>tx. index (ns_rx ns) i (\<lambda>rx. k (cpu, mem, tx, rx)))))"

fun for_rows :: "(columns \<Rightarrow> 's \<Rightarrow> 's) \<Rightarrow> node_stats \<Rightarrow> nat list \<Rightarrow> 's \<Rightarrow> 's outcome" where
  "for_rows f ns [] s = Return s"
| "for_rows f ns (i # is) s = row ns i (\<lambda>r. for_rows f ns is (f r s))"

fun max_step :: "columns \<Rightarrow> columns \<Rightarrow> columns" where
  "max_step (c, m, t, r) (cpu, mem, tx, rx) =
     (if cpu < c then c else cpu, if mem < m then m else mem,
      if tx < t then t else tx, if rx < r then r else rx)"

definition stats_max :: "node_stats \<Rightarrow> columns outcome" where
  "stats_max ns = for_rows max_step ns [0..<length (ns_timestamps ns)] (0, 0, 0, 0)"

fun sum_step :: "columns \<Rightarrow> columns \<Rightarrow> columns" where
  "sum_step (c, m, t, r) (cpu, mem, tx, rx) = (cpu + c, mem + m, tx + t, rx + r)"

type_synonym averages = "float64 \<times> float64 \<times> float64 \<times> float64"

definition stats_average :: "node_stats \<Rightarrow> averages outcome" where
  "stats_average ns =
     (case for_rows sum_step ns [0..<length (ns_timestamps ns)] (0, 0, 0, 0) of
        Return (cpu, mem, tx, rx) \<Rightarrow>
          (let n = f64_of_int (int (length (ns_timestamps ns)))
           in Return (f64_of_uint64 cpu div n, f64_of_uint64 mem div n,
                      f64_of_uint64 tx div n, f64_of_uint64 rx div n))
      | Panic m \<Rightarrow> Panic m
      | Blocked \<Rightarrow> Blocked)"

type_synonym float_columns = "float64 list \<times> float64 list \<times> float64 list \<times> float64 list"

fun float_step :: "columns \<Rightarrow> float_columns \<Rightarrow> float_columns" where
  "float_step (c, m, t, r) (cpu, mem, tx, rx) =
     (cpu @ [f64_of_uint64 c], mem @ [f64_of_uint64 m],
      tx @ [f64_of_uint64 t], rx @ [f64_of_uint64 r])"

definition stats_stddev :: "(float64 list \<Rightarrow> float64) \<Rightarrow> node_stats \<Rightarrow> averages outcome" where
  "stats_stddev stddev ns =
     (case for_rows float_step ns [0..<length (ns_timestamps ns)] ([], [], [], []) of
        Return (cpu, mem, tx, rx) \<Rightarrow> Return (stddev cpu, stddev mem, stddev tx, stddev rx)
      | Panic m \<Rightarrow> Panic m
      | Blocked \<Rightarrow> Blocked)"

section \<open>Lines\<close>

lemma parse_values_append: "parse_values ns vs = ns @ parse_values [] vs"
proof (induction vs arbitrary: ns)
  case (Cons v vs)
  show ?case
    using Cons.IH [of ns] Cons.IH [of "ns @ [x]" for x] Cons.IH [of "[x]" for x]
    by (auto split: sum.splits)
qed simp

lemma parse_line_fields: "parse_line line = decimal.fields line"
proof -
  have "parse_values [] vs = concat (map (\<lambda>w. case parse_uint64 (trim_char (CHR '' '') w) of
      Inl _ \<Rightarrow> [] | Inr v \<Rightarrow> [v]) vs)" for vs
  proof (induction vs)
    case (Cons v vs)
    have "parse_values [x] vs = x # parse_values [] vs" for x
      by (subst parse_values_append) simp
    then show ?case using Cons by (simp add: parse_integer_def split: sum.splits)
  qed simp
  then show ?thesis by (simp add: parse_line_def decimal.fields_def)
qed

lemma parse_line_eq: "parse_line = decimal.fields"
  by (rule ext) (rule parse_line_fields)

section \<open>The series of a node\<close>

text \<open>The lines that count: at least five numbers and a timestamp in the window.\<close>

definition in_window :: "int \<Rightarrow> int \<Rightarrow> uint64 list \<Rightarrow> bool" where
  "in_window start end ns \<longleftrightarrow> 5 \<le> length ns \<and> start \<le> sint (ns ! 0) \<and> sint (ns ! 0) \<le> end"

definition samples :: "string \<Rightarrow> int \<Rightarrow> int \<Rightarrow> uint64 list list" where
  "samples data start end = filter (in_window start end) (map decimal.fields (scan_lines data))"

definition series_of :: "uint64 list list \<Rightarrow> node_stats" where
  "series_of rows =
     \<lparr>ns_timestamps = map (\<lambda>r. sint (r ! 0)) rows, ns_rx = map (\<lambda>r. r ! 1) rows,
      ns_tx = map (\<lambda>r. r ! 2) rows, ns_cpu = map (\<lambda>r. r ! 3) rows, ns_memory = map (\<lambda>r. r ! 4) rows\<rparr>"

lemma fold_stats_step:
  "fold (stats_step start end) ls (series_of rows)
     = series_of (rows @ filter (in_window start end) (map decimal.fields ls))"
proof (induction ls arbitrary: rows)
  case (Cons l ls)
  have "stats_step start end l (series_of rows)
      = series_of (if in_window start end (decimal.fields l) then rows @ [decimal.fields l] else rows)"
    by (auto simp: stats_step_def series_of_def in_window_def parse_line_fields Let_def)
  then show ?case using Cons.IH by simp
qed (simp add: series_of_def)

lemma new_node_stats_samples: "new_node_stats data start end = series_of (samples data start end)"
  using fold_stats_step [of start "end" "scan_lines data" "[]"]
  by (simp add: new_node_stats_def samples_def series_of_def empty_node_stats_def)

section \<open>Aggregates of equally long series\<close>

definition stats_wf :: "node_stats \<Rightarrow> bool" where
  "stats_wf ns \<longleftrightarrow> (let n = length (ns_timestamps ns) in
     length (ns_rx ns) = n \<and> length (ns_tx ns) = n \<and> length (ns_cpu ns) = n \<and> length (ns_memory ns) = n)"

lemma series_wf [simp]: "stats_wf (series_of rows)"
  by (simp add: stats_wf_def series_of_def)

definition rows_of :: "node_stats \<Rightarrow> columns list" where
  "rows_of ns = map (\<lambda>i. (ns_cpu ns ! i, ns_memory ns ! i, ns_tx ns ! i, ns_rx ns ! i))
                    [0..<length (ns_timestamps ns)]"

definition readable :: "node_stats \<Rightarrow> nat \<Rightarrow> bool" where
  "readable ns i \<longleftrightarrow> i < length (ns_cpu ns) \<and> i < length (ns_memory ns) \<and> i < length (ns_tx ns)
     \<and> i < length (ns_rx ns)"

lemma for_rows_result:
  "for_rows f ns is s =
     (if \<forall>i \<in> set is. readable ns i
      then Return (fold f (map (\<lambda>i. (ns_cpu ns ! i, ns_memory ns ! i, ns_tx ns ! i, ns_rx ns ! i)) is) s)
      else Panic ''index out of range'')"
  by (induction "is" arbitrary: s) (auto simp: row_def index_def readable_def)

lemma stats_wf_readable: "stats_wf ns \<Longrightarrow> i < length (ns_timestamps ns) \<Longrightarrow> readable ns i"
  by (simp add: stats_wf_def readable_def Let_def)

lemma for_rows_wf:
  "stats_wf ns \<Longrightarrow> for_rows f ns [0..<length (ns_timestamps ns)] s = Return (fold f (rows_of ns) s)"
  by (simp add: for_rows_result stats_wf_readable rows_of_def)

lemma rows_of_columns:
  assumes "stats_wf ns"
  shows "map fst (rows_of ns) = ns_cpu ns" "map (fst \<circ> snd) (rows_of ns) = ns_memory ns"
    "map (fst \<circ> snd \<circ> snd) (rows_of ns) = ns_tx ns" "map (snd \<circ> snd \<circ> snd) (rows_of ns) = ns_rx ns"
  using assms by (auto simp: rows_of_def stats_wf_def Let_def intro!: nth_equalityI)

lemma fold_max_step:
  "fold max_step rs (c, m, t, r) =
     (fold max (map fst rs) c, fold max (map (fst \<circ> snd) rs) m,
      fold max (map (fst \<circ> snd \<circ> snd) rs) t, fold max (map (snd \<circ> snd \<circ> snd) rs) r)"
proof (induction rs arbitrary: c m t r)
  case (Cons x rs)
  have "(if b < a then a else b) = max a b" for a b :: uint64
    by (cases "b < a") (auto simp: max.absorb3 max.absorb2 not_less dest: leD)
  then show ?case using Cons.IH by (cases x) simp
qed simp

lemma fold_sum_step:
  "fold sum_step rs (c, m, t, r) =
     (c + sum_list (map fst rs), m + sum_list (map (fst \<circ> snd) rs),
      t + sum_list (map (fst \<circ> snd \<circ> snd) rs), r + sum_list (map (snd \<circ> snd \<circ> snd) rs))"
  by (induction rs arbitrary: c m t r) (auto simp: algebra_simps)

lemma fold_float_step:
  "fold float_step rs (c, m, t, r) =
     (c @ map f64_of_uint64 (map fst rs), m @ map f64_of_uint64 (map (fst \<circ> snd) rs),
      t @ map f64_of_uint64 (map (fst \<circ> snd \<circ> snd) rs), r @ map f64_of_uint64 (map (snd \<circ> snd \<circ> snd) rs))"
  by (induction rs arbitrary: c m t r) auto

lemma stats_max_wf:
  "stats_wf ns \<Longrightarrow> stats_max ns =
     Return (fold max (ns_cpu ns) 0, fold max (ns_memory ns) 0, fold max (ns_tx ns) 0, fold max (ns_rx ns) 0)"
  using rows_of_columns [of ns] by (simp add: stats_max_def for_rows_wf fold_max_step)

text \<open>The running maximum is an upper bound and is attained, or is the start value.\<close>

lemma fold_max_ge: "x \<in> set xs \<Longrightarrow> x \<le> fold max xs (a :: 'a :: linorder)"
  by (simp flip: Max.set_eq_fold)

lemma fold_max_in: "fold max xs (a :: 'a :: linorder) \<in> insert a (set xs)"
  using Max_in [of "set (a # xs)"] by (simp flip: Max.set_eq_fold)

lemma stats_average_wf:
  "stats_wf ns \<Longrightarrow> stats_average ns =
     (let n = f64_of_int (int (length (ns_timestamps ns)));
          avg = \<lambda>xs. f64_of_uint64 (sum_list xs) div n
      in Return (avg (ns_cpu ns), avg (ns_memory ns), avg (ns_tx ns), avg (ns_rx ns)))"
  using rows_of_columns [of ns] by (simp add: stats_average_def for_rows_wf fold_sum_step Let_def)

lemma stats_stddev_wf:
  "stats_wf ns \<Longrightarrow> stats_stddev sd ns =
     (let dev = \<lambda>xs. sd (map f64_of_uint64 xs)
      in Return (dev (ns_cpu ns), dev (ns_memory ns), dev (ns_tx ns), dev (ns_rx ns)))"
  using rows_of_columns [of ns] by (simp add: stats_stddev_def for_rows_wf fold_float_step Let_def)

text \<open>Without overflow the sum is exact and the average lies between the least and the largest value.\<close>

lemma unat_sum_list:
  "sum_list (map unat xs) < 2 ^ 64 \<Longrightarrow> unat (sum_list xs) = sum_list (map unat xs)" for xs :: "uint64 list"
proof (induction xs)
  case (Cons x xs)
  then have "unat x + unat (sum_list xs) < 2 ^ LENGTH(64)" by simp
  then have "unat (x + sum_list xs) = unat x + unat (sum_list xs)" by (rule unat_add_lem [THEN iffD1])
  then show ?case using Cons by simp
qed simp

definition average_of :: "uint64 list \<Rightarrow> float64" where
  "average_of xs = f64_of_uint64 (sum_list xs) div f64_of_int (int (length xs))"

lemma average_between:
  assumes "xs \<noteq> []" and "length xs \<le> 2 ^ 53" and "sum_list (map unat xs) \<le> 2 ^ 53"
    and "\<forall>x \<in> set xs. lo \<le> unat x \<and> unat x \<le> hi" and "hi \<le> 2 ^ 53"
  obtains q where "average_of xs = Fin q" and "of_nat lo \<le> q" and "q \<le> of_nat hi"
    and "q = rnd_rat (of_nat (sum_list (map unat xs)) / of_nat (length xs))"
proof -
  let ?s = "sum_list (map unat xs)" and ?n = "length xs"
  have "lo * ?n \<le> ?s \<and> ?s \<le> hi * ?n"
    using assms(4) by (induction xs) auto
  then have "(of_nat (lo * ?n) :: rat) \<le> of_nat ?s" "(of_nat ?s :: rat) \<le> of_nat (hi * ?n)"
    by (simp_all only: of_nat_le_iff)
  then have q: "of_nat lo \<le> of_nat ?s / (of_nat ?n :: rat)" "of_nat ?s / (of_nat ?n :: rat) \<le> of_nat hi"
    using assms(1) by (simp_all add: pos_le_divide_eq pos_divide_le_eq)
  have "hd xs \<in> set xs" using assms(1) by simp
  with assms(4,5) have lo: "lo \<le> 2 ^ 53" by (meson order_trans)
  have exact: "rnd_rat (of_nat k) = of_nat k" if "k \<le> 2 ^ 53" for k
  proof -
    have "int k \<le> int (2 ^ 53)" using that by (simp only: of_nat_le_iff)
    then show ?thesis using rnd_rat_int [of "int k"] by simp
  qed
  have "unat (sum_list xs) = ?s" using assms(3) by (intro unat_sum_list) simp
  then have "uint (sum_list xs) = int ?s" by (metis uint_nat)
  moreover have "int ?s \<le> int (2 ^ 53)" "int ?n \<le> int (2 ^ 53)"
    using assms(2,3) by (simp_all only: of_nat_le_iff)
  ultimately have "f64_of_uint64 (sum_list xs) = Fin (of_nat ?s)" "f64_of_int (int ?n) = Fin (of_nat ?n)"
    by (simp_all add: f64_of_uint64_def f64_of_int_exact)
  then have avg: "average_of xs = rnd (of_nat ?s / of_nat ?n)"
    using assms(1) by (simp add: average_of_def)
  have "of_nat hi \<le> (of_nat (2 ^ 53) :: rat)" using assms(5) by (simp only: of_nat_le_iff)
  also have "\<dots> = pow2 53" by simp
  also have "\<dots> \<le> pow2 1000" by (subst pow2_le_iff) simp
  finally have "\<bar>of_nat ?s / of_nat ?n\<bar> \<le> pow2 1000" using q by simp
  then have "average_of xs = Fin (rnd_rat (of_nat ?s / of_nat ?n))"
    unfolding avg by (rule rnd_bounded)
  then show thesis
    using that rnd_rat_ge [OF exact [OF lo] q(1)] rnd_rat_le [OF exact [OF assms(5)] q(2)] by simp
qed

section \<open>Properties\<close>

text \<open>
  C26: The statistics of a node: whatever the input, the five series have the same length, the k-th
  entries come from one line, the timestamps lie in the window, and a line contributes exactly when
  it has at least five numeric fields and its first one, as a signed number, is in the window; reading
  the text of two lists of lines one after the other appends their series.
\<close>

theorem new_node_stats_window:
  "stats_wf (new_node_stats data start end)
   \<and> set (ns_timestamps (new_node_stats data start end)) \<subseteq> {start..end}
   \<and> zip (ns_timestamps (new_node_stats data start end)) (rows_of (new_node_stats data start end))
      = map (\<lambda>r. (sint (r ! 0), r ! 3, r ! 4, r ! 2, r ! 1))
          (filter (\<lambda>r. 5 \<le> length r \<and> start \<le> sint (r ! 0) \<and> sint (r ! 0) \<le> end)
             (map parse_line (scan_lines data)))"
proof -
  have zip: "zip (ns_timestamps (series_of rows)) (rows_of (series_of rows))
      = map (\<lambda>r. (sint (r ! 0), r ! 3, r ! 4, r ! 2, r ! 1)) rows" for rows
    by (rule nth_equalityI) (simp_all add: rows_of_def series_of_def)
  have window: "set (ns_timestamps (series_of (samples data start end))) \<subseteq> {start..end}"
    by (auto simp: series_of_def samples_def in_window_def)
  have rows: "samples data start end
      = filter (\<lambda>r. 5 \<le> length r \<and> start \<le> sint (r ! 0) \<and> sint (r ! 0) \<le> end)
             (map parse_line (scan_lines data))"
    by (simp only: samples_def in_window_def [abs_def] parse_line_eq)
  show ?thesis
    unfolding new_node_stats_samples zip
    by (intro conjI series_wf window) (simp only: rows)
qed

text \<open>What the aggregates of one column promise.\<close>

definition is_maximum :: "uint64 list \<Rightarrow> uint64 \<Rightarrow> bool" where
  "is_maximum xs x \<longleftrightarrow> (\<forall>y \<in> set xs. y \<le> x) \<and> x \<in> insert 0 (set xs)"

definition is_average :: "uint64 list \<Rightarrow> float64 \<Rightarrow> bool" where
  "is_average xs x \<longleftrightarrow>
     (xs \<noteq> [] \<and> length xs \<le> 2 ^ 53 \<and> sum_list (map unat xs) \<le> 2 ^ 53 \<longrightarrow>
      (\<exists>q. x = Fin q \<and> q = rnd_rat (of_nat (sum_list (map unat xs)) / of_nat (length xs))
         \<and> (\<forall>lo hi. hi \<le> 2 ^ 53 \<longrightarrow> (\<forall>y \<in> set xs. lo \<le> unat y \<and> unat y \<le> hi) \<longrightarrow>
                of_nat lo \<le> q \<and> q \<le> of_nat hi)))"

lemma is_maximum_fold: "is_maximum xs (fold max xs 0)"
  using fold_max_in [of xs 0] fold_max_ge by (auto simp: is_maximum_def)

lemma is_average_of: "is_average xs (average_of xs)"
  unfolding is_average_def
proof
  assume xs: "xs \<noteq> [] \<and> length xs \<le> 2 ^ 53 \<and> sum_list (map unat xs) \<le> 2 ^ 53"
  have "\<forall>x \<in> set xs. 0 \<le> unat x \<and> unat x \<le> sum_list (map unat xs)"
    using member_le_sum_list [of "unat x" "map unat xs" for x] by auto
  with xs obtain q where q: "average_of xs = Fin q"
      "q = rnd_rat (of_nat (sum_list (map unat xs)) / of_nat (length xs))"
    using average_between [of xs 0 "sum_list (map unat xs)"] by auto
  have "of_nat lo \<le> q \<and> q \<le> of_nat hi"
    if "hi \<le> 2 ^ 53" "\<forall>y \<in> set xs. lo \<le> unat y \<and> unat y \<le> hi" for lo hi
    using average_between [of xs lo hi] xs that q by auto
  with q show "\<exists>q. average_of xs = Fin q
      \<and> q = rnd_rat (of_nat (sum_list (map unat xs)) / of_nat (length xs))
      \<and> (\<forall>lo hi. hi \<le> 2 ^ 53 \<longrightarrow> (\<forall>y \<in> set xs. lo \<le> unat y \<and> unat y \<le> hi) \<longrightarrow>
             of_nat lo \<le> q \<and> q \<le> of_nat hi)"
    by blast
qed

text \<open>
  C27: On series of equal length \<open>Max\<close> and \<open>Average\<close> do not panic; the maximum of a
  column is an upper bound that is attained, or 0 for an empty column, and as long as the sum of a
  column fits in 53 bits its average is the correctly rounded quotient and lies between every lower
  and every upper bound of the column.
\<close>

theorem stats_aggregates:
  assumes "stats_wf ns"
  shows "(\<exists>c m t r. stats_max ns = Return (c, m, t, r) \<and> is_maximum (ns_cpu ns) c
       \<and> is_maximum (ns_memory ns) m \<and> is_maximum (ns_tx ns) t \<and> is_maximum (ns_rx ns) r)
    \<and> (\<exists>c m t r. stats_average ns = Return (c, m, t, r) \<and> is_average (ns_cpu ns) c
       \<and> is_average (ns_memory ns) m \<and> is_average (ns_tx ns) t \<and> is_average (ns_rx ns) r)"
proof -
  have "stats_average ns = Return (average_of (ns_cpu ns), average_of (ns_memory ns),
      average_of (ns_tx ns), average_of (ns_rx ns))"
    using assms unfolding stats_average_wf [OF assms] average_of_def Let_def
    by (simp add: stats_wf_def Let_def)
  then show ?thesis
    by (simp add: stats_max_wf [OF assms] is_maximum_fold is_average_of)
qed

definition three_samples :: node_stats where
  "three_samples = \<lparr>ns_timestamps = [1, 2, 3], ns_rx = [4, 5, 9], ns_tx = [0, 0, 0], ns_cpu = [7, 3, 5],
     ns_memory = [1, 1, 2]\<rparr>"

lemma three_samples_wf: "stats_wf three_samples"
  by (simp add: stats_wf_def three_samples_def)

theorem stats_aggregates_witness:
  "stats_wf three_samples \<and> stats_max three_samples = Return (7, 2, 0, 9)
   \<and> (\<exists>c m t r. stats_average three_samples = Return (c, m, t, r) \<and> is_average [4, 5, 9] r)"
proof -
  note wf = three_samples_wf
  have "stats_max three_samples = Return (7, 2, 0, 9)" by code_simp
  then show ?thesis
    using wf stats_aggregates [OF wf] by (auto simp: three_samples_def)
qed

text \<open>The sum of a column wraps around: two counters of \<open>2 ^ 63\<close> average to 0.\<close>

lemma average_wraps: "average_of [9223372036854775808, 9223372036854775808] = Fin 0"
  by (simp add: average_of_def f64_of_uint64_def f64_of_int_exact rnd_int [of 0, simplified])

end
