(* ===== verification/Network.thy ===== *)
theory Network
  imports Float64
begin

text \<open>
  The package \<open>network\<close> without the area topology: link properties and rules
  (\<open>network/rule.go\<close>), nodes, links and the simple topology (\<open>network/topology.go\<close>), the
  full topology (\<open>network/full.go\<close>) and the cloud topology (\<open>network/cloud.go\<close>).

  A Go map that is only looked up is a partial function; its zero value for an absent key is
  \<open>get_or\<close>. Durations are nanoseconds. A nil slice and an empty slice are both \<open>[]\<close>.
  The constructors are loops over an explicit state, as in the source; the lemmas below give
  their closed forms.
\<close>

section \<open>rule.go\<close>

record delay =
  delay_value :: int
  delay_leeway :: int

record loss =
  loss_value :: float64

record rule =
  rule_ip :: string
  rule_delay :: delay
  rule_loss :: loss

definition no_delay :: delay where
  "no_delay = \<lparr>delay_value = 0, delay_leeway = 0\<rparr>"

definition no_loss :: loss where
  "no_loss = \<lparr>loss_value = 0\<rparr>"

text \<open>\<open>Duration.Milliseconds\<close> truncates.\<close>

definition milliseconds :: "int \<Rightarrow> int" where
  "milliseconds d = quot d 1000000"

definition delay_string :: "delay \<Rightarrow> string" where
  "delay_string d =
     (if delay_value d \<le> 0 then ''''
      else ''delay '' @ show_int (milliseconds (delay_value d)) @ ''ms'')"

definition loss_string :: "loss \<Rightarrow> string" where
  "loss_string l =
     (if loss_value l \<le> 0 \<or> 1 < loss_value l then ''''
      else ''loss '' @ f64_fmt2 (loss_value l * Fin 100) @ ''%'')"

definition new_delay_rule :: "string \<Rightarrow> int \<Rightarrow> rule" where
  "new_delay_rule ip d =
     \<lparr>rule_ip = ip, rule_delay = no_delay\<lparr>delay_value := d\<rparr>, rule_loss = no_loss\<rparr>"

definition new_loss_rule :: "string \<Rightarrow> float64 \<Rightarrow> rule" where
  "new_loss_rule ip l =
     \<lparr>rule_ip = ip, rule_delay = no_delay, rule_loss = no_loss\<lparr>loss_value := l\<rparr>\<rparr>"

definition match_addr :: "rule \<Rightarrow> string" where
  "match_addr r = rule_ip r @ ''/32''"

lemma match_addr_eq_iff [simp]: "match_addr r = match_addr r' \<longleftrightarrow> rule_ip r = rule_ip r'"
  by (simp add: match_addr_def)

section \<open>topology.go\<close>

definition MaxSize :: int where
  "MaxSize = 5000"

record node =
  node_name :: string
  node_selector :: string

record link =
  link_distant :: node
  link_delay :: delay
  link_loss :: loss

type_synonym mapping = "string \<rightharpoonup> string"

record simple_topology =
  st_nodes :: "node list"
  st_links :: "string \<rightharpoonup> link list"

definition named_node :: "string \<Rightarrow> node" where
  "named_node s = \<lparr>node_name = s, node_selector = ''''\<rparr>"

text \<open>\<open>fmt.Sprintf("node%d", i)\<close>\<close>

definition node_id :: "nat \<Rightarrow> string" where
  "node_id i = ''node'' @ show_nat i"

definition delay_link :: "node \<Rightarrow> delay \<Rightarrow> link" where
  "delay_link n d = \<lparr>link_distant = n, link_delay = d, link_loss = no_loss\<rparr>"

text \<open>\<open>int(math.Min(MaxSize, math.Max(0, float64(n))))\<close>\<close>

definition clamp_size :: "(float64 \<Rightarrow> int) \<Rightarrow> int \<Rightarrow> int" where
  "clamp_size ood n = f64_to_int ood (f64_min (Fin (of_int MaxSize)) (f64_max 0 (f64_of_int n)))"

text \<open>The body of the loop over \<open>t.nodes\<close>.\<close>

definition simple_step :: "int \<Rightarrow> nat \<Rightarrow> simple_topology \<Rightarrow> simple_topology" where
  "simple_step d i t =
     (let key = named_node (node_id i);
          t = t\<lparr>st_nodes := (st_nodes t)[i := key]\<rparr>;
          t = t\<lparr>st_links := (st_links t)(node_name key \<mapsto> [])\<rparr>
      in if i \<noteq> 0
         then t\<lparr>st_links := (st_links t)(node_name key \<mapsto>
                  [delay_link (st_nodes t ! 0) (no_delay\<lparr>delay_value := d\<rparr>)])\<rparr>
         else t)"

definition new_simple_topology :: "(float64 \<Rightarrow> int) \<Rightarrow> int \<Rightarrow> int \<Rightarrow> simple_topology" where
  "new_simple_topology ood n d =
     (let k = nat (clamp_size ood n)
      in fold (simple_step d) [0..<k]
           \<lparr>st_nodes = replicate k (named_node ''''), st_links = Map.empty\<rparr>)"

definition simple_len :: "simple_topology \<Rightarrow> nat" where
  "simple_len t = length (st_nodes t)"

definition simple_get_nodes :: "simple_topology \<Rightarrow> node list" where
  "simple_get_nodes t = st_nodes t"

definition link_rule :: "mapping \<Rightarrow> link \<Rightarrow> rule" where
  "link_rule m l =
     \<lparr>rule_ip = get_or m (node_name (link_distant l)) '''', rule_delay = link_delay l,
      rule_loss = link_loss l\<rparr>"

fun append_rules :: "mapping \<Rightarrow> rule list \<Rightarrow> link list \<Rightarrow> rule list" where
  "append_rules m rules [] = rules"
| "append_rules m rules (l # ls) = append_rules m (rules @ [link_rule m l]) ls"

definition simple_rules :: "simple_topology \<Rightarrow> string \<Rightarrow> mapping \<Rightarrow> rule list" where
  "simple_rules t n m = append_rules m [] (get_or (st_links t) n [])"

section \<open>full.go\<close>

record full_input =
  fi_from :: string
  fi_to :: string
  fi_latency :: int

text \<open>The two tests \<open>if !ok\<close> of the loop: a name is added on its first occurrence.\<close>

definition add_name :: "string \<Rightarrow> simple_topology \<Rightarrow> simple_topology" where
  "add_name s t =
     (if st_links t s = None
      then t\<lparr>st_nodes := st_nodes t @ [named_node s], st_links := (st_links t)(s \<mapsto> [])\<rparr>
      else t)"

definition full_step :: "full_input \<Rightarrow> simple_topology \<Rightarrow> simple_topology" where
  "full_step inp t =
     (let t = add_name (fi_to inp) (add_name (fi_from inp) t)
      in t\<lparr>st_links := (st_links t)(fi_from inp \<mapsto>
             get_or (st_links t) (fi_from inp) []
             @ [delay_link (named_node (fi_to inp)) (no_delay\<lparr>delay_value := fi_latency inp\<rparr>)])\<rparr>)"

definition new_full_topology :: "full_input list \<Rightarrow> simple_topology" where
  "new_full_topology inputs = fold full_step inputs \<lparr>st_nodes = [], st_links = Map.empty\<rparr>"

section \<open>cloud.go\<close>

record cloud_topology =
  ct_key :: string
  ct_nodes :: "node list"

definition new_cloud_topology :: "string \<Rightarrow> string list \<Rightarrow> cloud_topology" where
  "new_cloud_topology key regions =
     \<lparr>ct_key = key,
      ct_nodes = map (\<lambda>(i, r). \<lparr>node_name = node_id i, node_selector = r\<rparr>) (enumerate 0 regions)\<rparr>"

definition cloud_len :: "cloud_topology \<Rightarrow> nat" where
  "cloud_len t = length (ct_nodes t)"

definition cloud_get_nodes :: "cloud_topology \<Rightarrow> node list" where
  "cloud_get_nodes t = ct_nodes t"

definition cloud_rules :: "cloud_topology \<Rightarrow> string \<Rightarrow> mapping \<Rightarrow> rule list" where
  "cloud_rules t n m = []"

section \<open>Names\<close>

lemma node_id_eq_iff [simp]: "node_id i = node_id j \<longleftrightarrow> i = j"
  by (simp add: node_id_def)

lemma node_name_named [simp]: "node_name (named_node s) = s"
  by (simp add: named_node_def)

lemma named_node_eq_iff [simp]: "named_node s = named_node t \<longleftrightarrow> s = t"
  by (simp add: named_node_def)

lemma distinct_node_ids: "distinct (map node_id xs) \<longleftrightarrow> distinct xs"
  by (simp add: distinct_map inj_on_def)

lemma append_rules_map: "append_rules m rules ls = rules @ map (link_rule m) ls"
  by (induction m rules ls rule: append_rules.induct) auto

lemma simple_rules_map: "simple_rules t n m = map (link_rule m) (get_or (st_links t) n [])"
  by (simp add: simple_rules_def append_rules_map)

section \<open>The simple topology\<close>

text \<open>The detour of the size through \<open>float64\<close> is exact: every 64-bit size is clamped right.\<close>

lemma clamp_size_eq:
  assumes "in_int64 n"
  shows "clamp_size ood n = min MaxSize (max 0 n)"
proof -
  have "\<bar>n\<bar> \<le> 2 ^ 64" using assms by (auto simp: in_int64_def)
  then obtain y where y: "f64_of_int n = Fin y" "y = rnd_rat (of_int n)"
    by (rule f64_of_int64)
  have cases: "n \<le> 0 \<and> y \<le> 0 \<or> 0 < n \<and> n < 5000 \<and> y = of_int n \<or> 5000 \<le> n \<and> 5000 \<le> y"
  proof -
    have "y \<le> 0" if "n \<le> 0" using that rnd_rat_le [of 0 "of_int n"] y(2) by simp
    moreover have "y = of_int n" if "0 < n" "n < 5000" using that rnd_rat_int [of n] y(2) by simp
    moreover have "5000 \<le> y" if "5000 \<le> n"
      using that rnd_rat_ge [of "of_int 5000" "of_int n"] rnd_rat_int [of 5000] y(2) by simp
    ultimately show ?thesis by linarith
  qed
  have "(of_int n :: rat) < 5000 \<longleftrightarrow> n < 5000" "(0 :: rat) < of_int n \<longleftrightarrow> 0 < n" by simp_all
  with cases show ?thesis
    by (auto simp: clamp_size_def y(1) f64_max_def f64_min_def zero_float64_def MaxSize_def
        trunc_rat_def in_int64_def)
qed

definition simple_nodes :: "nat \<Rightarrow> node list" where
  "simple_nodes k = map (\<lambda>i. named_node (node_id i)) [0..<k]"

lemma simple_loop:
  assumes "k \<le> n"
  shows "fold (simple_step d) [0..<k]
           \<lparr>st_nodes = replicate n (named_node ''''), st_links = Map.empty\<rparr>
         = \<lparr>st_nodes = simple_nodes k @ replicate (n - k) (named_node ''''),
            st_links = (\<lambda>s. if \<exists>i<k. s = node_id i
              then Some (if s = node_id 0 then []
                         else [delay_link (named_node (node_id 0)) (no_delay\<lparr>delay_value := d\<rparr>)])
              else None)\<rparr>"
  using assms
proof (induction k)
  case 0
  then show ?case by (simp add: simple_nodes_def)
next
  case (Suc k)
  let ?r = "replicate (n - Suc k) (named_node '''')"
  have len: "length (simple_nodes k) = k" by (simp add: simple_nodes_def)
  have rep: "replicate (n - k) (named_node '''') = named_node '''' # ?r"
    using Suc.prems by (cases "n - k") auto
  have upd: "(simple_nodes k @ replicate (n - k) (named_node ''''))[k := named_node (node_id k)]
      = simple_nodes (Suc k) @ ?r"
    unfolding rep by (simp add: list_update_append simple_nodes_def)
  have hd0: "(simple_nodes (Suc k) @ ?r) ! 0 = named_node (node_id 0)"
    by (simp add: simple_nodes_def nth_append del: upt_Suc)
  have upd0: "(replicate n (named_node ''''))[0 := named_node (node_id 0)]
      = simple_nodes (Suc 0) @ replicate (n - Suc 0) (named_node '''')" if "k = 0"
    using upd that by (simp add: simple_nodes_def)
  from Suc show ?case
    by (auto simp: simple_step_def Let_def upd upd0 hd0 fun_eq_iff less_Suc_eq)
qed

lemma new_simple_topology_nodes:
  "st_nodes (new_simple_topology ood n d) = simple_nodes (nat (clamp_size ood n))"
  by (simp add: new_simple_topology_def simple_loop Let_def)

lemma new_simple_topology_links:
  "st_links (new_simple_topology ood n d) s =
     (if \<exists>i < nat (clamp_size ood n). s = node_id i
      then Some (if s = node_id 0 then []
                 else [delay_link (named_node (node_id 0)) (no_delay\<lparr>delay_value := d\<rparr>)])
      else None)"
  by (simp add: new_simple_topology_def simple_loop Let_def)

section \<open>The full topology\<close>

text \<open>First occurrences, in order: what the nodes of a full topology are.\<close>

fun firsts :: "'a list \<Rightarrow> 'a list" where
  "firsts [] = []"
| "firsts (x # xs) = x # filter (\<lambda>y. y \<noteq> x) (firsts xs)"

lemma set_firsts [simp]: "set (firsts xs) = set xs"
  by (induction xs) auto

lemma distinct_firsts [simp]: "distinct (firsts xs)"
  by (induction xs) auto

lemma firsts_snoc: "firsts (xs @ [x]) = firsts xs @ (if x \<in> set xs then [] else [x])"
  by (induction xs) auto

text \<open>
  The invariant of the loop: the nodes are the first occurrences of the names read so far, the
  links have exactly these names as keys, and the links of a name are its inputs in order.
\<close>

definition input_names :: "full_input list \<Rightarrow> string list" where
  "input_names inputs = concat (map (\<lambda>x. [fi_from x, fi_to x]) inputs)"

definition input_link :: "full_input \<Rightarrow> link" where
  "input_link x = delay_link (named_node (fi_to x)) (no_delay\<lparr>delay_value := fi_latency x\<rparr>)"

definition outgoing :: "full_input list \<Rightarrow> string \<Rightarrow> link list" where
  "outgoing inputs s = map input_link (filter (\<lambda>x. fi_from x = s) inputs)"

definition full_inv :: "string list \<Rightarrow> full_input list \<Rightarrow> simple_topology \<Rightarrow> bool" where
  "full_inv names inputs t \<longleftrightarrow>
     st_nodes t = map named_node (firsts names) \<and>
     (\<forall>s. st_links t s = (if s \<in> set names then Some (outgoing inputs s) else None))"

lemma add_name_inv:
  assumes "full_inv names inputs t" and "set (map fi_from inputs) \<subseteq> set names"
  shows "full_inv (names @ [s]) inputs (add_name s t)"
proof -
  have "outgoing inputs s = []" if "s \<notin> set names"
    using assms(2) that by (auto simp: outgoing_def filter_empty_conv)
  with assms(1) show ?thesis
    by (auto simp: full_inv_def add_name_def firsts_snoc)
qed

lemma full_step_inv:
  assumes "full_inv names inputs t" and "set (map fi_from inputs) \<subseteq> set names"
  shows "full_inv (names @ [fi_from x, fi_to x]) (inputs @ [x]) (full_step x t)"
proof -
  have "full_inv (names @ [fi_from x]) inputs (add_name (fi_from x) t)"
    using assms by (rule add_name_inv)
  then have "full_inv ((names @ [fi_from x]) @ [fi_to x]) inputs
      (add_name (fi_to x) (add_name (fi_from x) t))"
    by (rule add_name_inv) (use assms(2) in auto)
  then show ?thesis
    by (auto simp: full_inv_def full_step_def Let_def outgoing_def input_link_def get_or_def)
qed

lemma full_fold_inv:
  assumes "full_inv names done t" and "set (map fi_from done) \<subseteq> set names"
  shows "full_inv (names @ input_names inputs) (done @ inputs) (fold full_step inputs t)"
  using assms
proof (induction inputs arbitrary: names "done" t)
  case Nil
  then show ?case by (simp add: input_names_def)
next
  case (Cons x xs)
  have "full_inv ((names @ [fi_from x, fi_to x]) @ input_names xs) ((done @ [x]) @ xs)
      (fold full_step xs (full_step x t))"
    using Cons.prems by (intro Cons.IH full_step_inv) auto
  then show ?case by (simp add: input_names_def)
qed

lemma new_full_topology_inv: "full_inv (input_names inputs) inputs (new_full_topology inputs)"
  using full_fold_inv [of "[]" "[]" "\<lparr>st_nodes = [], st_links = Map.empty\<rparr>" inputs]
  by (simp add: new_full_topology_def full_inv_def)

lemma outgoing_absent: "s \<notin> set (input_names inputs) \<Longrightarrow> outgoing inputs s = []"
  by (auto simp: outgoing_def input_names_def filter_empty_conv)

lemma full_rules:
  "simple_rules (new_full_topology inputs) s m = map (link_rule m) (outgoing inputs s)"
  using new_full_topology_inv [of inputs]
  by (auto simp: simple_rules_map full_inv_def get_or_def outgoing_absent)

lemma full_nodes: "st_nodes (new_full_topology inputs) = map named_node (firsts (input_names inputs))"
  using new_full_topology_inv [of inputs] by (simp add: full_inv_def)

end
