(* ===== verification/Float64_Sqrt.thy ===== *)
theory Float64_Sqrt
  imports Float64
begin

text \<open>
  The square root of an integer below \<open>2 ^ 52\<close>, as the conversion to an integer sees it: the
  rounded root lies between the integer root and the next integer, which it never reaches.
\<close>

lemma square_less_imp_less: "a * a < b * b \<Longrightarrow> a < (b :: nat)"
  by (meson linorder_not_less mult_le_mono)

lemma isqrt_bounds: "isqrt n * isqrt n \<le> n \<and> n < (isqrt n + 1) * (isqrt n + 1)"
proof (induction n rule: isqrt.induct)
  case (1 n)
  define q where "q = isqrt (n div 4)"
  show ?case
  proof (cases "n = 0")
    case True
    then show ?thesis by (simp add: isqrt.simps)
  next
    case False
    with 1 have q: "q * q \<le> n div 4" "n div 4 < (q + 1) * (q + 1)" by (simp_all add: q_def)
    then have b: "4 * (q * q) \<le> n" "n < 4 * ((q + 1) * (q + 1))" by linarith+
    have r: "isqrt n = (if (2 * q + 1) * (2 * q + 1) \<le> n then 2 * q + 1 else 2 * q)"
      using False by (subst isqrt.simps) (simp add: Let_def flip: q_def)
    show ?thesis using b by (auto simp: r algebra_simps)
  qed
qed

text \<open>The scaled root stays one unit of the 27th binary place below the next integer.\<close>

lemma scaled_root_gap:
  fixes S q r w j :: nat
  assumes S: "S < (q + 1) * (q + 1)" and q: "q < 2 ^ 26"
    and r: "r * r \<le> S * (w * 2 ^ 27) ^ 2" and w: "0 < w"
  shows "r + 1 \<le> w * ((q + 1) * 2 ^ 27 - 1)"
proof -
  define c where "c = (q + 1) * 2 ^ 27 - 1"
  have "1 \<le> (q + 1) * 2 ^ 27" by simp
  then have c: "c + 1 = (q + 1) * 2 ^ 27" by (simp add: c_def)
  have "((q + 1) * (q + 1)) * (2 ^ 27) ^ 2 = (c + 1) * (c + 1)"
    unfolding c power2_eq_square by (simp only: ac_simps)
  moreover have "2 * c + 1 < 2 ^ 54" using q c by simp
  moreover have "(S + 1) * (2 ^ 27) ^ 2 \<le> ((q + 1) * (q + 1)) * (2 ^ 27) ^ 2"
    using S by (intro mult_right_mono) auto
  ultimately have "S * (2 ^ 27) ^ 2 < c * c" by (simp add: algebra_simps)
  then have "w * w * (S * (2 ^ 27) ^ 2) < w * w * (c * c)" using w by simp
  moreover have "S * (w * 2 ^ 27) ^ 2 = w * w * (S * (2 ^ 27) ^ 2)"
    unfolding power2_eq_square by (simp only: ac_simps)
  moreover have "w * w * (c * c) = (w * c) * (w * c)" by (simp only: ac_simps)
  ultimately have "r * r < (w * c) * (w * c)" using r by linarith
  then have "r < w * c" by (rule square_less_imp_less)
  then show ?thesis by (simp add: c_def)
qed

lemma rnd_between:
  assumes "of_int q \<le> v" and "v \<le> of_int m * pow2 k"
    and "\<bar>q\<bar> \<le> 2 ^ 53" "\<bar>m\<bar> \<le> 2 ^ 53" "- 1074 \<le> k" "k \<le> 0"
  obtains y where "rnd v = Fin y" "of_int q \<le> y" "y \<le> of_int m * pow2 k"
proof -
  have m: "rnd_rat (of_int m * pow2 k) = of_int m * pow2 k"
    using assms by (intro rnd_rat_exact [of _ m k]) auto
  have b: "of_int \<bar>i\<bar> \<le> pow2 1000" if "\<bar>i\<bar> \<le> 2 ^ 53" for i
  proof -
    have "of_int \<bar>i\<bar> \<le> (of_int (2 ^ 53) :: rat)" using that by (simp only: of_int_le_iff)
    also have "\<dots> = pow2 53" by simp
    also have "\<dots> \<le> pow2 1000" by (subst pow2_le_iff) simp
    finally show ?thesis .
  qed
  have "of_int m * pow2 k \<le> of_int \<bar>m\<bar> * 1"
    using assms(6) pow2_le_iff [of k 0] by (intro mult_mono) auto
  then have "v \<le> pow2 1000" using b [OF assms(4)] assms(2) by simp
  moreover have "- pow2 1000 \<le> v" using b [OF assms(3)] assms(1) by linarith
  ultimately have "rnd v = Fin (rnd_rat v)" by (intro rnd_bounded) auto
  moreover have "of_int q \<le> rnd_rat v" using assms(1,3) by (intro rnd_rat_ge rnd_rat_int)
  moreover have "rnd_rat v \<le> of_int m * pow2 k" using assms(2) m by (intro rnd_rat_le)
  ultimately show thesis using that by blast
qed

lemma sqrt_scale_int:
  assumes "0 < S" and "S < 2 ^ 52"
  obtains j where "sqrt_scale (of_nat S) = int j" and "27 \<le> j"
proof -
  have "pow2 (ilog2 (of_nat S)) \<le> of_nat S" using assms(1) by (intro ilog2_bounds) simp
  also have "(of_nat S :: rat) < of_nat (2 ^ 52)" using assms(2) by (simp only: of_nat_less_iff)
  also have "\<dots> = pow2 52" by simp
  finally have "ilog2 (of_nat S) < 52" by (simp only: pow2_less_iff)
  then have "27 \<le> sqrt_scale (of_nat S)" by (simp add: sqrt_scale_def)
  then show thesis using that [of "nat (sqrt_scale (of_nat S))"] by simp
qed

lemma f64_sqrt_nat:
  assumes S: "0 < S" "S < 2 ^ 52"
  obtains y where "f64_sqrt (Fin (of_nat S)) = Fin y"
    "of_nat (isqrt S) \<le> y" "y < of_nat (isqrt S) + 1"
proof -
  define q where "q = isqrt S"
  obtain j where j: "sqrt_scale (of_nat S) = int j" "27 \<le> j"
    using S by (rule sqrt_scale_int)
  define w where "w = (2::nat) ^ (j - 27)"
  have "(2::nat) ^ j = 2 ^ (j - 27 + 27)" using j(2) by simp
  then have w: "(2::nat) ^ j = w * 2 ^ 27" "0 < w" by (simp_all only: w_def power_add) simp
  define n where "n = S * 4 ^ j"
  have n2: "n = S * (w * 2 ^ 27) ^ 2"
    unfolding n_def w(1) [symmetric] by (simp add: power_mult [symmetric] mult.commute [of j])
      (simp add: power_mult)
  define r where "r = isqrt n"
  have r: "r * r \<le> n" "n < (r + 1) * (r + 1)" using isqrt_bounds [of n] by (auto simp: r_def)
  have q: "q * q \<le> S" "S < (q + 1) * (q + 1)" using isqrt_bounds [of S] by (auto simp: q_def)
  have "q * q < 2 ^ 26 * 2 ^ 26" using q(1) S(2) by simp
  then have q26: "q < 2 ^ 26" by (rule square_less_imp_less)
  have "(q * 2 ^ j) * (q * 2 ^ j) = (q * q) * 4 ^ j"
    by (simp add: power2_eq_square flip: power_mult_distrib)
  also have "\<dots> < (r + 1) * (r + 1)" using q(1) r(2) unfolding n_def by (meson le_less_trans mult_le_mono1)
  finally have "q * 2 ^ j < r + 1" by (rule square_less_imp_less)
  then have lo: "q * 2 ^ j \<le> r" by simp
  have hi: "r + 1 \<le> w * ((q + 1) * 2 ^ 27 - 1)"
    using q(2) q26 r(1) w(2) unfolding n2 by (rule scaled_root_gap)
  define v where "v = (if r * r = n then of_nat r / 2 ^ j else (of_nat r + 1 / 2) / 2 ^ j :: rat)"
  have f: "f64_sqrt (Fin (of_nat S)) = rnd v"
  proof -
    have "(of_nat S :: rat) * 4 ^ j = of_int (int n)" by (simp add: n_def)
    then have fl: "nat \<lfloor>(of_nat S :: rat) * 4 ^ j\<rfloor> = n" by (simp only: floor_of_int nat_int)
    show ?thesis using S(1) by (simp add: j(1) fl Let_def v_def r_def)
  qed
  define m where "m = int ((q + 1) * 2 ^ 27 - 1)"
  have "(of_nat (q * 2 ^ j) :: rat) \<le> of_nat r" using lo by (simp only: of_nat_le_iff)
  then have "of_int (int q) * 2 ^ j \<le> (of_nat r :: rat)" by simp
  then have v_lo: "of_int (int q) \<le> v" by (auto simp: v_def pos_le_divide_eq)
  have "(of_nat (r + 1) :: rat) \<le> of_nat (w * ((q + 1) * 2 ^ 27 - 1))" using hi by (simp only: of_nat_le_iff)
  also have "\<dots> = of_nat w * of_int m" by (simp add: m_def)
  also have "(of_nat w :: rat) = 2 ^ j * pow2 (- 27)"
  proof -
    have "(2::rat) ^ j = of_nat w * 2 ^ 27" using arg_cong [OF w(1), of "of_nat :: nat \<Rightarrow> rat"] by simp
    then show ?thesis by (simp add: power_int_minus)
  qed
  finally have "of_nat r + 1 \<le> (of_int m * pow2 (- 27)) * 2 ^ j" by (simp add: ac_simps)
  then have v_hi: "v \<le> of_int m * pow2 (- 27)" by (auto simp: v_def pos_divide_le_eq)
  have "m + 1 = int ((q + 1) * 2 ^ 27)" by (simp add: m_def)
  then have mq: "m + 1 = (int q + 1) * 2 ^ 27" by simp
  then have m: "\<bar>m\<bar> \<le> 2 ^ 53" using q26 by (auto simp: abs_le_iff)
  obtain y where y: "rnd v = Fin y" "of_int (int q) \<le> y" "y \<le> of_int m * pow2 (- 27)"
    by (rule rnd_between [OF v_lo v_hi]) (use m q26 in simp_all)
  have "of_int m * pow2 (- 27) < of_int (m + 1) * pow2 (- 27)" by simp
  also have "\<dots> = of_nat q + 1" unfolding mq by (simp add: power_int_minus)
  finally show thesis using y f that by (simp add: q_def)
qed

end
