(* ===== verification/Area.thy ===== *)
theory Area
  imports Network Float64_Sqrt "HOL-Library.Multiset"
begin

text \<open>
  The area topology (\<open>network/area.go\<close>). The map \<open>nodes\<close> of an area is an association
  list with distinct keys; a Go \<open>range\<close> over a map visits its entries in an unspecified order
  that can differ at every execution, so each such loop takes the order as a parameter: a function
  that rearranges the entries, of which \<open>range_order\<close> requires only that it loses and
  duplicates none. The areas of one topology are distinct objects.
\<close>

record area =
  area_n :: int
  area_latency :: delay
  area_x :: float64
  area_y :: float64
  area_nodes :: "(node \<times> link list) list"

type_synonym area_topology = "area list"

definition range_order :: "('a list \<Rightarrow> 'a list) \<Rightarrow> bool" where
  "range_order f \<longleftrightarrow> (\<forall>xs. mset (f xs) = mset xs)"

text \<open>
  \<open>math.Pow(x, 2)\<close> is the rounded square: the square of the significand is rounded once and
  scaling by the exponent is exact.
\<close>

definition pow_2 :: "float64 \<Rightarrow> float64" where
  "pow_2 x = x * x"

definition calculate_latency ::
  "(float64 \<Rightarrow> int) \<Rightarrow> float64 \<Rightarrow> float64 \<Rightarrow> float64 \<Rightarrow> float64 \<Rightarrow> delay" where
  "calculate_latency ood x1 y1 x2 y2 =
     (let distance = f64_sqrt (pow_2 (x1 - x2) + pow_2 (y1 - y2))
      in no_delay\<lparr>delay_value := wrap64 (f64_to_int ood distance * 1000000)\<rparr>)"

text \<open>The loop that links every node of one area to its peers.\<close>

definition peer_links :: "delay \<Rightarrow> node list \<Rightarrow> nat \<Rightarrow> link list" where
  "peer_links d nodes i =
     map (\<lambda>(j, peer). delay_link peer d) (filter (\<lambda>(j, peer). i \<noteq> j) (enumerate 0 nodes))"

definition init_area :: "nat \<Rightarrow> area \<Rightarrow> area" where
  "init_area counter a =
     (let nodes = map (\<lambda>i. named_node (node_id (counter + i))) [0..<nat (area_n a)]
      in a\<lparr>area_nodes :=
             map (\<lambda>(i, n). (n, peer_links (area_latency a) nodes i)) (enumerate 0 nodes)\<rparr>)"

fun init_areas :: "nat \<Rightarrow> area list \<Rightarrow> area list outcome" where
  "init_areas counter [] = Return []"
| "init_areas counter (a # as) =
     (if area_n a < 0 then Panic ''makeslice: len out of range''
      else case init_areas (counter + nat (area_n a)) as of
        Return bs \<Rightarrow> Return (init_area counter a # bs)
      | Panic m \<Rightarrow> Panic m
      | Blocked \<Rightarrow> Blocked)"

text \<open>\<open>makeAreaLinks\<close>: \<open>ord n\<close> is the order of the inner loop for the node \<open>n\<close>.\<close>

definition make_area_links ::
  "(float64 \<Rightarrow> int) \<Rightarrow> (node \<Rightarrow> node list \<Rightarrow> node list) \<Rightarrow> area \<Rightarrow> area \<Rightarrow> area" where
  "make_area_links ood ord from to =
     from\<lparr>area_nodes := map (\<lambda>(n, links). (n, links @ map (\<lambda>dst. delay_link dst
            (calculate_latency ood (area_x from) (area_y from) (area_x to) (area_y to)))
            (ord n (map fst (area_nodes to))))) (area_nodes from)\<rparr>"

text \<open>
  The two nested loops over the areas. Only the area \<open>i\<close> is written in the \<open>i\<close>-th round,
  and of the other areas only the keys are read.
\<close>

definition link_step ::
  "(float64 \<Rightarrow> int) \<Rightarrow> (nat \<Rightarrow> nat \<Rightarrow> node \<Rightarrow> node list \<Rightarrow> node list) \<Rightarrow> nat \<Rightarrow> nat
     \<Rightarrow> area list \<Rightarrow> area list" where
  "link_step ood ord i j as =
     (if i \<noteq> j then as[i := make_area_links ood (ord i j) (as ! i) (as ! j)] else as)"

definition link_areas ::
  "(float64 \<Rightarrow> int) \<Rightarrow> (nat \<Rightarrow> nat \<Rightarrow> node \<Rightarrow> node list \<Rightarrow> node list) \<Rightarrow> area list \<Rightarrow> area list" where
  "link_areas ood ord as =
     fold (\<lambda>i. fold (link_step ood ord i) [0..<length as]) [0..<length as] as"

definition new_area_topology ::
  "(float64 \<Rightarrow> int) \<Rightarrow> (nat \<Rightarrow> nat \<Rightarrow> node \<Rightarrow> node list \<Rightarrow> node list) \<Rightarrow> area list
     \<Rightarrow> area_topology outcome" where
  "new_area_topology ood ord as =
     (case init_areas 0 as of
        Return bs \<Rightarrow> Return (link_areas ood ord bs)
      | Panic m \<Rightarrow> Panic m
      | Blocked \<Rightarrow> Blocked)"

definition area_len :: "area_topology \<Rightarrow> nat" where
  "area_len t = fold (\<lambda>a n. n + length (area_nodes a)) t 0"

definition area_get_nodes :: "(nat \<Rightarrow> node list \<Rightarrow> node list) \<Rightarrow> area_topology \<Rightarrow> node list" where
  "area_get_nodes ord t =
     concat (map (\<lambda>(k, a). ord k (map fst (area_nodes a))) (enumerate 0 t))"

fun find_target :: "string \<Rightarrow> (node \<times> link list) list \<Rightarrow> link list option" where
  "find_target s [] = None"
| "find_target s ((n, links) # es) = (if node_name n = s then Some links else find_target s es)"

text \<open>A nil result is the empty list.\<close>

fun area_rules_from ::
  "(nat \<Rightarrow> (node \<times> link list) list \<Rightarrow> (node \<times> link list) list) \<Rightarrow> nat \<Rightarrow> area_topology
     \<Rightarrow> string \<Rightarrow> mapping \<Rightarrow> rule list" where
  "area_rules_from ord k [] s m = []"
| "area_rules_from ord k (a # as) s m =
     (case find_target s (ord k (area_nodes a)) of
        Some links \<Rightarrow> append_rules m [] links
      | None \<Rightarrow> area_rules_from ord (Suc k) as s m)"

definition area_rules ::
  "(nat \<Rightarrow> (node \<times> link list) list \<Rightarrow> (node \<times> link list) list) \<Rightarrow> area_topology
     \<Rightarrow> string \<Rightarrow> mapping \<Rightarrow> rule list" where
  "area_rules ord t s m = area_rules_from ord 0 t s m"

section \<open>The nodes\<close>

lemma range_order_mset: "range_order f \<Longrightarrow> mset (f xs) = mset xs"
  by (simp add: range_order_def)

lemma range_order_set [simp]: "range_order f \<Longrightarrow> set (f xs) = set xs"
  by (metis range_order_mset set_mset_mset)

lemma range_order_length [simp]: "range_order f \<Longrightarrow> length (f xs) = length xs"
  by (metis range_order_mset size_mset)

lemma range_order_distinct [simp]: "range_order f \<Longrightarrow> distinct (f xs) \<longleftrightarrow> distinct xs"
  by (metis range_order_mset mset_eq_imp_distinct_iff)

lemma range_order_id: "range_order (\<lambda>xs. xs)" "range_order rev"
  by (simp_all add: range_order_def)

abbreviation keys :: "area \<Rightarrow> node list" where
  "keys a \<equiv> map fst (area_nodes a)"

definition block :: "nat \<Rightarrow> nat \<Rightarrow> node list" where
  "block c n = map (\<lambda>i. named_node (node_id i)) [c..<c + n]"

lemma keys_init_area [simp]: "keys (init_area c a) = block c (nat (area_n a))"
proof -
  have "map fst (map (\<lambda>(i, n). (n, f i)) (enumerate k xs)) = xs" for f :: "nat \<Rightarrow> link list" and k xs
    by (rule nth_equalityI) (simp_all add: nth_enumerate_eq split: prod.splits)
  moreover have "map (\<lambda>i. named_node (node_id (c + i))) [0..<n] = block c n" for n
    by (rule nth_equalityI) (simp_all add: block_def)
  ultimately show ?thesis by (simp add: init_area_def Let_def)
qed

lemma keys_make_area_links [simp]: "keys (make_area_links ood ord a b) = keys a"
  by (simp add: make_area_links_def split_def)

section \<open>The links between the areas\<close>

text \<open>What the loops read of an area besides the links they extend.\<close>

definition shape :: "area \<Rightarrow> node list \<times> float64 \<times> float64" where
  "shape a = (keys a, area_x a, area_y a)"

lemma shape_make_area_links [simp]: "shape (make_area_links ood ord a b) = shape a"
  by (simp add: shape_def) (simp add: make_area_links_def)

definition cross_block ::
  "(float64 \<Rightarrow> int) \<Rightarrow> (nat \<Rightarrow> nat \<Rightarrow> node \<Rightarrow> node list \<Rightarrow> node list) \<Rightarrow> area list \<Rightarrow> nat \<Rightarrow> nat
     \<Rightarrow> node \<Rightarrow> link list" where
  "cross_block ood ord as i j n =
     map (\<lambda>dst. delay_link dst (calculate_latency ood (area_x (as ! i)) (area_y (as ! i))
            (area_x (as ! j)) (area_y (as ! j)))) (ord i j n (keys (as ! j)))"

definition cross_links ::
  "(float64 \<Rightarrow> int) \<Rightarrow> (nat \<Rightarrow> nat \<Rightarrow> node \<Rightarrow> node list \<Rightarrow> node list) \<Rightarrow> area list \<Rightarrow> nat \<Rightarrow> nat list
     \<Rightarrow> node \<Rightarrow> link list" where
  "cross_links ood ord as i js n =
     concat (map (\<lambda>j. cross_block ood ord as i j n) (filter (\<lambda>j. j \<noteq> i) js))"

definition extend_area :: "(node \<Rightarrow> link list) \<Rightarrow> area \<Rightarrow> area" where
  "extend_area f a = a\<lparr>area_nodes := map (\<lambda>(n, ls). (n, ls @ f n)) (area_nodes a)\<rparr>"

lemma shape_extend_area [simp]: "shape (extend_area f a) = shape a"
  by (simp add: shape_def extend_area_def split_def)

lemma extend_area_twice: "extend_area f (extend_area g a) = extend_area (\<lambda>n. g n @ f n) a"
  by (simp add: extend_area_def split_def)

lemma extend_area_nothing [simp]: "extend_area (\<lambda>n. []) a = a"
  by (simp add: extend_area_def split_def)

lemma cross_links_shape:
  assumes "map shape as = map shape bs" and "i < length as" and "set js \<subseteq> {..<length as}"
  shows "cross_links ood ord as i js = cross_links ood ord bs i js"
proof -
  have "length as = length bs" using assms(1) by (rule map_eq_imp_length_eq)
  then have s: "shape (as ! k) = shape (bs ! k)" if "k < length as" for k
    using assms(1) that by (metis nth_map)
  have "cross_block ood ord as i j = cross_block ood ord bs i j" if "j \<in> set js" for j
    using s [of i] s [of j] assms(2,3) that by (auto simp: shape_def cross_block_def fun_eq_iff)
  then show ?thesis by (auto simp: cross_links_def fun_eq_iff intro!: arg_cong [of _ _ concat])
qed

lemma link_step_extend:
  assumes "i < length as" and "j < length as"
  shows "link_step ood ord i j as = as[i := extend_area (cross_links ood ord as i [j]) (as ! i)]"
  using assms
  by (auto simp: link_step_def cross_links_def cross_block_def make_area_links_def extend_area_def)

lemma inner_loop:
  assumes "i < length as" and "set js \<subseteq> {..<length as}"
  shows "fold (link_step ood ord i) js as
       = as[i := extend_area (cross_links ood ord as i js) (as ! i)]"
  using assms
proof (induction js arbitrary: as)
  case Nil
  then show ?case by (simp add: cross_links_def)
next
  case (Cons j js)
  let ?bs = "as[i := extend_area (cross_links ood ord as i [j]) (as ! i)]"
  have "map shape as = map shape ?bs" 
    using Cons.prems(1) by (intro nth_equalityI) (simp_all add: nth_list_update)
  then have c: "cross_links ood ord ?bs i js = cross_links ood ord as i js"
    using Cons.prems by (intro cross_links_shape [symmetric]) auto
  have "fold (link_step ood ord i) (j # js) as = fold (link_step ood ord i) js ?bs"
    using Cons.prems by (simp add: link_step_extend)
  also have "\<dots> = ?bs[i := extend_area (cross_links ood ord ?bs i js) (?bs ! i)]"
    using Cons.prems by (intro Cons.IH) auto
  finally show ?case
    using Cons.prems by (simp add: c extend_area_twice) (simp add: cross_links_def)
qed

lemma outer_loop:
  assumes "k \<le> length as"
  shows "fold (\<lambda>i. fold (link_step ood ord i) [0..<length as]) [0..<k] as
       = map (\<lambda>i. if i < k then extend_area (cross_links ood ord as i [0..<length as]) (as ! i)
                  else as ! i) [0..<length as]"
  using assms
proof (induction k)
  case 0
  then show ?case by (simp add: map_nth)
next
  case (Suc k)
  define bs where "bs = map (\<lambda>i. if i < k
    then extend_area (cross_links ood ord as i [0..<length as]) (as ! i) else as ! i) [0..<length as]"
  have len: "length bs = length as" by (simp add: bs_def)
  have "map shape as = map shape bs" by (rule nth_equalityI) (simp_all add: bs_def)
  then have c: "cross_links ood ord bs k [0..<length as] = cross_links ood ord as k [0..<length as]"
    using Suc.prems by (intro cross_links_shape [symmetric]) auto
  have "fold (\<lambda>i. fold (link_step ood ord i) [0..<length as]) [0..<Suc k] as
      = fold (link_step ood ord k) [0..<length as] bs"
    using Suc by (simp add: bs_def)
  also have "\<dots> = bs[k := extend_area (cross_links ood ord as k [0..<length as]) (bs ! k)]"
    using Suc.prems c by (subst inner_loop) (auto simp: len)
  finally show ?case
    using Suc.prems by (auto intro!: nth_equalityI simp: bs_def nth_list_update)
qed

lemma link_areas_eq:
  "link_areas ood ord as
     = map (\<lambda>i. extend_area (cross_links ood ord as i [0..<length as]) (as ! i)) [0..<length as]"
  using outer_loop [of "length as" as ood ord] by (simp add: link_areas_def)

section \<open>Every node is linked to every other node\<close>

definition offset :: "area list \<Rightarrow> nat \<Rightarrow> nat" where
  "offset as i = (\<Sum>a \<leftarrow> take i as. nat (area_n a))"

lemma init_areas_panic_iff: "(\<exists>bs. init_areas c as = Return bs) \<longleftrightarrow> (\<forall>a \<in> set as. 0 \<le> area_n a)"
proof (induction as arbitrary: c)
  case (Cons a as)
  show ?case
    using Cons.IH [of "c + nat (area_n a)"] by (auto split: outcome.splits)
qed simp

lemma init_areas_Return:
  assumes "init_areas c as = Return bs"
  shows "bs = map (\<lambda>i. init_area (c + offset as i) (as ! i)) [0..<length as]"
  using assms
proof (induction as arbitrary: c bs)
  case Nil
  then show ?case by simp
next
  case (Cons a as)
  then obtain bs' where bs': "init_areas (c + nat (area_n a)) as = Return bs'"
    and bs: "bs = init_area c a # bs'"
    by (auto split: if_splits outcome.splits)
  have "bs' = map (\<lambda>i. init_area (c + nat (area_n a) + offset as i) (as ! i)) [0..<length as]"
    using bs' by (rule Cons.IH)
  then show ?case
    by (simp add: bs offset_def upt_conv_Cons map_Suc_upt [symmetric] add.assoc del: upt_Suc map_Suc_upt)
qed

lemma concat_keys_init:
  "init_areas c as = Return bs \<Longrightarrow> concat (map keys bs) = block c (offset as (length as))"
proof (induction as arbitrary: c bs)
  case Nil
  then show ?case by (simp add: block_def offset_def)
next
  case (Cons a as)
  then obtain bs' where bs': "init_areas (c + nat (area_n a)) as = Return bs'"
    and bs: "bs = init_area c a # bs'"
    by (auto split: if_splits outcome.splits)
  have "block c (m + n) = block c m @ block (c + m) n" for m n
    using upt_add_eq_append [of c "c + m" n] by (simp add: block_def add.assoc)
  with Cons.IH [OF bs'] show ?case by (simp add: bs offset_def)
qed

lemma distinct_block: "distinct (map node_name (block c n))"
  by (simp add: block_def distinct_map inj_on_def)

lemma filter_enumerate_others:
  assumes "i < length xs"
  shows "map snd (filter (\<lambda>(j, x). k + i \<noteq> j) (enumerate k xs)) = take i xs @ drop (Suc i) xs"
  using assms
proof (induction xs arbitrary: k i)
  case (Cons x xs)
  have all: "filter (\<lambda>(j, x). k \<noteq> j) (enumerate (Suc k) xs) = enumerate (Suc k) xs"
    by (auto simp: filter_id_conv in_set_enumerate_eq)
  show ?case
  proof (cases i)
    case 0
    with all show ?thesis by simp
  next
    case (Suc i')
    then show ?thesis using Cons.IH [of i' "Suc k"] Cons.prems by simp
  qed
qed simp

lemma peer_links_distant:
  assumes "i < length nodes"
  shows "mset (map link_distant (peer_links d nodes i)) = mset nodes - {#nodes ! i#}"
proof -
  have "map link_distant (peer_links d nodes i)
      = map snd (filter (\<lambda>(j, peer). 0 + i \<noteq> j) (enumerate 0 nodes))"
    by (simp add: peer_links_def delay_link_def split_def)
  also have "\<dots> = take i nodes @ drop (Suc i) nodes"
    using assms by (rule filter_enumerate_others)
  finally have m: "mset (map link_distant (peer_links d nodes i))
      = mset (take i nodes @ drop (Suc i) nodes)" by simp
  have "mset nodes = mset (take i nodes @ nodes ! i # drop (Suc i) nodes)"
    using assms by (simp add: id_take_nth_drop [symmetric])
  then have "mset (take i nodes @ drop (Suc i) nodes) = mset nodes - {#nodes ! i#}" by simp
  then show ?thesis by (simp only: m)
qed

lemma cross_links_distant:
  assumes "\<And>j n. range_order (ord i j n)"
  shows "mset (map link_distant (cross_links ood ord as i js n))
       = (\<Sum>j \<leftarrow> filter (\<lambda>j. j \<noteq> i) js. mset (keys (as ! j)))"
proof (induction js)
  case (Cons j js)
  have "mset (map link_distant (cross_block ood ord as i j n)) = mset (keys (as ! j))"
    using range_order_mset [OF assms, of j n "keys (as ! j)"]
    by (simp add: cross_block_def delay_link_def comp_def)
  with Cons show ?case by (simp add: cross_links_def)
qed (simp add: cross_links_def)

lemma sum_list_others:
  fixes f :: "nat \<Rightarrow> 'a multiset"
  assumes "i < n"
  shows "(\<Sum>j \<leftarrow> [0..<n]. f j) = f i + (\<Sum>j \<leftarrow> filter (\<lambda>j. j \<noteq> i) [0..<n]. f j)"
proof -
  have "remove1 i [0..<n] = filter (\<lambda>j. j \<noteq> i) [0..<n]"
    by (simp add: distinct_remove1_removeAll removeAll_filter_not_eq neq_commute)
  then show ?thesis
    using assms sum_list_map_remove1 [of i "[0..<n]" f] by simp
qed

lemma mset_concat_keys:
  "mset (concat (map keys as)) = (\<Sum>j \<leftarrow> [0..<length as]. mset (keys (as ! j)))"
proof -
  have "(\<Sum>j \<leftarrow> [0..<length as]. mset (keys (as ! j))) = (\<Sum>a \<leftarrow> map ((!) as) [0..<length as]. mset (keys a))"
    by (simp add: comp_def)
  also have "\<dots> = (\<Sum>a \<leftarrow> as. mset (keys a))" by (simp only: map_nth)
  finally show ?thesis by (simp add: mset_concat comp_def)
qed

lemma init_area_entry:
  assumes "(n, ls) \<in> set (area_nodes (init_area c a))"
  obtains k where "k < nat (area_n a)" "n = block c (nat (area_n a)) ! k"
    "ls = peer_links (area_latency a) (block c (nat (area_n a))) k"
proof -
  have b: "map (\<lambda>i. named_node (node_id (c + i))) [0..<nat (area_n a)] = block c (nat (area_n a))"
    by (rule nth_equalityI) (simp_all add: block_def)
  have "length (block c (nat (area_n a))) = nat (area_n a)" by (simp add: block_def)
  with assms that show thesis
    by (auto simp: init_area_def Let_def b in_set_enumerate_eq)
qed

lemma init_area_fields [simp]: "area_n (init_area c a) = area_n a"
  "area_latency (init_area c a) = area_latency a" "area_x (init_area c a) = area_x a"
  "area_y (init_area c a) = area_y a"
  by (simp_all add: init_area_def Let_def)

lemma new_area_topology_Return:
  assumes "new_area_topology ood ord as = Return t"
  obtains bs where "init_areas 0 as = Return bs" "length bs = length as"
    "t = map (\<lambda>i. extend_area (cross_links ood ord bs i [0..<length bs]) (bs ! i)) [0..<length bs]"
proof -
  obtain bs where "init_areas 0 as = Return bs" and "t = link_areas ood ord bs"
    using assms by (auto simp: new_area_topology_def split: outcome.splits)
  moreover from init_areas_Return [OF this(1)] have "length bs = length as" by simp
  ultimately show thesis using that by (simp add: link_areas_eq)
qed

lemma keys_extend_area [simp]: "keys (extend_area f a) = keys a"
  by (simp add: extend_area_def split_def)

lemma new_area_topology_keys:
  assumes "new_area_topology ood ord as = Return t"
  shows "concat (map keys t) = block 0 (offset as (length as))"
proof -
  obtain bs where bs: "init_areas 0 as = Return bs"
    and t: "t = map (\<lambda>i. extend_area (cross_links ood ord bs i [0..<length bs]) (bs ! i)) [0..<length bs]"
    using assms by (rule new_area_topology_Return)
  have "map keys t = map keys (map ((!) bs) [0..<length bs])" by (simp add: t comp_def)
  then have "map keys t = map keys bs" by (simp only: map_nth)
  with concat_keys_init [OF bs] show ?thesis by simp
qed

text \<open>The links of an entry: first the peers of its area, then the areas in order.\<close>

lemma area_entry_links:
  assumes t: "new_area_topology ood ord as = Return t"
    and ord: "\<And>i j n. range_order (ord i j n)"
    and e: "a \<in> set t" "(n, ls) \<in> set (area_nodes a)"
  shows "mset (map link_distant ls) = mset (concat (map keys t)) - {#n#}"
proof -
  obtain bs where bs: "init_areas 0 as = Return bs" "length bs = length as"
    and te: "t = map (\<lambda>i. extend_area (cross_links ood ord bs i [0..<length bs]) (bs ! i)) [0..<length bs]"
    using t by (rule new_area_topology_Return)
  obtain i where i: "i < length bs"
    and a: "a = extend_area (cross_links ood ord bs i [0..<length bs]) (bs ! i)"
    using e(1) te by auto
  obtain ps where ps: "(n, ps) \<in> set (area_nodes (bs ! i))"
    and ls: "ls = ps @ cross_links ood ord bs i [0..<length bs] n"
    using e(2) by (auto simp: a extend_area_def)
  have bi: "bs ! i = init_area (offset as i) (as ! i)"
    using init_areas_Return [OF bs(1)] i bs(2) by simp
  let ?b = "block (offset as i) (nat (area_n (as ! i)))"
  obtain k where k: "k < nat (area_n (as ! i))" "n = ?b ! k"
    "ps = peer_links (area_latency (as ! i)) ?b k"
    using ps unfolding bi by (rule init_area_entry)
  have kb: "keys (bs ! i) = ?b" by (simp add: bi)
  have nb: "n \<in># mset ?b" using k by (simp add: block_def)
  have "mset (map link_distant ps) = mset ?b - {#n#}"
    unfolding k(3) using k(1,2) by (subst peer_links_distant) (simp_all add: block_def)
  then have "mset (map link_distant ls) = (mset ?b - {#n#})
      + (\<Sum>j \<leftarrow> filter (\<lambda>j. j \<noteq> i) [0..<length bs]. mset (keys (bs ! j)))"
    unfolding ls map_append mset_append by (simp only: cross_links_distant [OF ord])
  also have "\<dots> = (mset ?b
      + (\<Sum>j \<leftarrow> filter (\<lambda>j. j \<noteq> i) [0..<length bs]. mset (keys (bs ! j)))) - {#n#}"
    using nb by (simp add: multiset_diff_union_assoc)
  also have "\<dots> = mset (concat (map keys bs)) - {#n#}"
    unfolding mset_concat_keys sum_list_others [OF i] by (simp only: kb)
  finally show ?thesis
    using new_area_topology_keys [OF t] concat_keys_init [OF bs(1)] by simp
qed

section \<open>Rules\<close>

definition area_entries :: "area_topology \<Rightarrow> (node \<times> link list) list" where
  "area_entries t = concat (map area_nodes t)"

lemma map_fst_entries: "map fst (area_entries t) = concat (map keys t)"
  by (simp add: area_entries_def map_concat comp_def)

definition area_wf :: "area_topology \<Rightarrow> bool" where
  "area_wf t \<longleftrightarrow> distinct (map node_name (concat (map keys t)))"

lemma new_area_topology_wf: "new_area_topology ood ord as = Return t \<Longrightarrow> area_wf t"
  by (simp add: area_wf_def new_area_topology_keys distinct_block)

lemma find_target_None: "find_target s es = None \<longleftrightarrow> s \<notin> node_name ` fst ` set es"
  by (induction s es rule: find_target.induct) auto

lemma find_target_Some:
  "distinct (map (node_name \<circ> fst) es) \<Longrightarrow>
   find_target s es = Some ls \<longleftrightarrow> (\<exists>n. (n, ls) \<in> set es \<and> node_name n = s)"
  by (induction s es rule: find_target.induct) (force simp: image_iff)+

lemma find_target_order:
  assumes "range_order f" and "distinct (map (node_name \<circ> fst) es)"
  shows "find_target s (f es) = find_target s es"
proof (cases "find_target s es")
  case None
  then have "find_target s (f es) = None" using assms(1) by (simp add: find_target_None)
  with None show ?thesis by (simp only:)
next
  case (Some ls)
  have "distinct (map (node_name \<circ> fst) (f es))"
    using assms by (metis mset_map mset_eq_imp_distinct_iff range_order_mset)
  with Some assms have "find_target s (f es) = Some ls" by (simp add: find_target_Some)
  with Some show ?thesis by (simp only:)
qed

lemma find_target_append:
  "find_target s (xs @ ys) = (case find_target s xs of None \<Rightarrow> find_target s ys | Some l \<Rightarrow> Some l)"
  by (induction s xs rule: find_target.induct) auto

definition area_targets :: "area_topology \<Rightarrow> string \<Rightarrow> link list" where
  "area_targets t s = (case find_target s (area_entries t) of None \<Rightarrow> [] | Some l \<Rightarrow> l)"

text \<open>The result does not depend on the order of the loops over the maps.\<close>

lemma area_rules_from_eq:
  assumes "\<And>k. range_order (ord k)" and "area_wf t"
  shows "area_rules_from ord k t s m = map (link_rule m) (area_targets t s)"
  using assms(2)
proof (induction t arbitrary: k)
  case Nil
  then show ?case by (simp add: area_targets_def area_entries_def)
next
  case (Cons a t)
  have d: "distinct (map (node_name \<circ> fst) (area_nodes a))" and wf: "area_wf t"
    using Cons.prems by (auto simp: area_wf_def)
  show ?case
    using Cons.IH [OF wf] find_target_order [OF assms(1) d]
    by (auto simp: area_targets_def area_entries_def find_target_append append_rules_map
        split: option.splits)
qed

lemma area_rules_eq:
  assumes "\<And>k. range_order (ord k)" and "area_wf t"
  shows "area_rules ord t s m = map (link_rule m) (area_targets t s)"
  unfolding area_rules_def using assms by (rule area_rules_from_eq)

lemma area_targets_entry:
  assumes "area_wf t" and "n \<in> set (concat (map keys t))"
  obtains a where "a \<in> set t" "(n, area_targets t (node_name n)) \<in> set (area_nodes a)"
proof -
  obtain a ls where a: "a \<in> set t" "(n, ls) \<in> set (area_nodes a)" using assms(2) by auto
  have "distinct (map (node_name \<circ> fst) (area_entries t))"
    using assms(1) by (simp add: area_wf_def flip: map_fst_entries)
  moreover have "(n, ls) \<in> set (area_entries t)" using a by (auto simp: area_entries_def)
  ultimately have "find_target (node_name n) (area_entries t) = Some ls"
    by (auto simp: find_target_Some)
  with a that show thesis by (simp add: area_targets_def)
qed

lemma area_len_eq: "area_len t = length (concat (map keys t))"
proof -
  have "fold (\<lambda>a n. n + length (area_nodes a)) t k = k + length (concat (map keys t))" for k
    by (induction t arbitrary: k) auto
  then show ?thesis by (simp add: area_len_def)
qed

lemma area_get_nodes_mset:
  assumes "\<And>k. range_order (ord k)"
  shows "mset (area_get_nodes ord t) = mset (concat (map keys t))"
proof -
  have "mset (concat (map (\<lambda>(k, a). ord k (keys a)) (enumerate j t))) = mset (concat (map keys t))" for j
    using range_order_mset [OF assms] by (induction t arbitrary: j) auto
  then show ?thesis by (simp add: area_get_nodes_def)
qed

section \<open>Latencies\<close>

lemma rnd_uminus: "rnd (- x) = - rnd x"
  by (auto simp: rnd_def Let_def rnd_rat_uminus)

lemma pow_2_uminus [simp]: "pow_2 (- a) = pow_2 a"
  by (cases a) (auto simp: pow_2_def)

lemma pow_2_minus_swap: "pow_2 (a - b) = pow_2 (b - a)"
proof (cases "\<exists>x y. a = Fin x \<and> b = Fin y")
  case True
  then obtain x y where ab: "a = Fin x" "b = Fin y" by blast
  then have "a - b = - (b - a)" using rnd_uminus [of "y - x"] by (simp add: minus_float64_def)
  then show ?thesis by (simp only: pow_2_uminus)
next
  case False
  then show ?thesis by (cases a; cases b) (simp_all add: minus_float64_def pow_2_def)
qed

lemma calculate_latency_sym:
  "calculate_latency ood x1 y1 x2 y2 = calculate_latency ood x2 y2 x1 y1"
  unfolding calculate_latency_def pow_2_minus_swap [of x1 x2] pow_2_minus_swap [of y1 y2] ..

lemma minus_exact: "\<bar>i - j\<bar> \<le> 2 ^ 53 \<Longrightarrow> Fin (of_int i) - Fin (of_int j) = Fin (of_int (i - j))"
  using rnd_int [of "i - j"] by (simp add: minus_float64_def)

lemma pow_2_exact: "i * i \<le> 2 ^ 53 \<Longrightarrow> pow_2 (Fin (of_int i)) = Fin (of_int (i * i))"
  using rnd_int [of "i * i"] by (simp add: pow_2_def)

lemma plus_exact: "\<bar>i + j\<bar> \<le> 2 ^ 53 \<Longrightarrow> Fin (of_int i) + Fin (of_int j) = Fin (of_int (i + j))"
  using rnd_int [of "i + j"] by simp

lemma isqrt_small: "S < 2 ^ 52 \<Longrightarrow> isqrt S < 2 ^ 26"
  by (rule square_less_imp_less) (use isqrt_bounds [of S] in simp)

lemma trunc_between:
  "of_int q \<le> y \<Longrightarrow> y < of_int q + 1 \<Longrightarrow> 0 \<le> q \<Longrightarrow> trunc_rat y = q"
  unfolding trunc_rat_def by (simp add: floor_eq_iff order_trans [of 0 "of_int q" y])

lemma calculate_latency_int:
  assumes D: "(x1 - x2) ^ 2 + (y1 - y2) ^ 2 < 2 ^ 52"
  shows "delay_value (calculate_latency ood (Fin (of_int x1)) (Fin (of_int y1))
           (Fin (of_int x2)) (Fin (of_int y2)))
       = int (isqrt (nat ((x1 - x2) ^ 2 + (y1 - y2) ^ 2))) * 1000000"
proof -
  define D where "D = (x1 - x2) ^ 2 + (y1 - y2) ^ 2"
  have D2: "D < 2 ^ 52" "0 \<le> D" using assms by (simp_all add: D_def)
  define i where "i = x1 - x2"
  define j where "j = y1 - y2"
  have Dij: "D = i * i + j * j" by (simp add: D_def i_def j_def power2_eq_square)
  have sq: "i * i \<le> D" "j * j \<le> D" by (simp_all add: Dij)
  then have sq53: "i * i \<le> 2 ^ 53" "j * j \<le> 2 ^ 53" "\<bar>i * i + j * j\<bar> \<le> 2 ^ 53"
    using D2 by (simp_all add: order_trans [of _ D] flip: Dij)
  have small: "\<bar>k\<bar> \<le> 2 ^ 53" if "k * k \<le> 2 ^ 53" for k :: int
  proof (cases "k = 0")
    case False
    then have "1 \<le> \<bar>k\<bar>" by linarith
    then have "\<bar>k\<bar> \<le> k * k" using mult_right_mono [of 1 "\<bar>k\<bar>" "\<bar>k\<bar>"] by simp
    with that show ?thesis by linarith
  qed simp
  have "\<bar>x1 - x2\<bar> \<le> 2 ^ 53" "\<bar>y1 - y2\<bar> \<le> 2 ^ 53"
    using small sq53 by (simp_all only: i_def j_def)
  then have s: "pow_2 (Fin (of_int x1) - Fin (of_int x2)) + pow_2 (Fin (of_int y1) - Fin (of_int y2))
      = Fin (of_int D)"
    using sq53 by (simp only: minus_exact pow_2_exact plus_exact Dij flip: i_def j_def)
  define q where "q = isqrt (nat D)"
  have "nat D < 2 ^ 52" using D2 by (simp add: nat_less_iff)
  then have q26: "q < 2 ^ 26" unfolding q_def by (rule isqrt_small)
  have t: "f64_to_int ood (f64_sqrt (Fin (of_int D))) = int q"
  proof (cases "D = 0")
    case True
    then show ?thesis by (simp add: q_def isqrt.simps trunc_rat_def in_int64_def)
  next
    case False
    then have S: "0 < nat D" "nat D < 2 ^ 52" using D2 by (simp_all add: nat_less_iff)
    obtain y where y: "f64_sqrt (Fin (of_nat (nat D))) = Fin y"
      "of_nat (isqrt (nat D)) \<le> y" "y < of_nat (isqrt (nat D)) + 1"
      using S by (rule f64_sqrt_nat)
    have "trunc_rat y = int q" using y(2,3) by (intro trunc_between) (simp_all add: q_def)
    moreover have "of_nat (nat D) = (of_int D :: rat)" using D2 by simp
    ultimately show ?thesis using y(1) q26 by (simp add: in_int64_def)
  qed
  have "in_int64 (int q * 1000000)" using q26 by (simp add: in_int64_def)
  then show ?thesis
    unfolding calculate_latency_def Let_def s t by (simp add: wrap64_id flip: D_def q_def)
qed

end
