(* ===== verification/Topology.thy ===== *)
theory Topology
  imports Area
begin

text \<open>
  The interface \<open>network.Topology\<close>: its three methods over the four implementations of the
  package, and the contract its clients rely on as the locale \<open>topology_ops\<close>, interpreted on
  each implementation. The orders of the loops over the maps of an area topology are the parameters
  of the locale \<open>go_map_order\<close>.
\<close>

section \<open>The interface\<close>

datatype topology =
    Simple simple_topology
  | Full simple_topology
  | Cloud cloud_topology
  | Areas area_topology

type_synonym node_order = "nat \<Rightarrow> node list \<Rightarrow> node list"
type_synonym entry_order = "nat \<Rightarrow> (node \<times> link list) list \<Rightarrow> (node \<times> link list) list"

fun topo_len :: "topology \<Rightarrow> nat" where
  "topo_len (Simple t) = simple_len t"
| "topo_len (Full t) = simple_len t"
| "topo_len (Cloud t) = cloud_len t"
| "topo_len (Areas t) = area_len t"

fun topo_nodes :: "node_order \<Rightarrow> topology \<Rightarrow> node list" where
  "topo_nodes o1 (Simple t) = simple_get_nodes t"
| "topo_nodes o1 (Full t) = simple_get_nodes t"
| "topo_nodes o1 (Cloud t) = cloud_get_nodes t"
| "topo_nodes o1 (Areas t) = area_get_nodes o1 t"

fun topo_rules :: "entry_order \<Rightarrow> topology \<Rightarrow> string \<Rightarrow> mapping \<Rightarrow> rule list" where
  "topo_rules o2 (Simple t) s m = simple_rules t s m"
| "topo_rules o2 (Full t) s m = simple_rules t s m"
| "topo_rules o2 (Cloud t) s m = cloud_rules t s m"
| "topo_rules o2 (Areas t) s m = area_rules o2 t s m"

section \<open>The contract\<close>

locale topology_ops =
  fixes len :: "'t \<Rightarrow> nat" and get_nodes :: "'t \<Rightarrow> node list"
    and rules :: "'t \<Rightarrow> string \<Rightarrow> mapping \<Rightarrow> rule list"
    and targets :: "'t \<Rightarrow> string \<Rightarrow> link list" and wf :: "'t \<Rightarrow> bool"
  assumes len_nodes: "wf t \<Longrightarrow> len t = length (get_nodes t)"
    and names_distinct: "wf t \<Longrightarrow> distinct (map node_name (get_nodes t))"
    and rules_targets: "wf t \<Longrightarrow> rules t s m = map (link_rule m) (targets t s)"
    and targets_known: "wf t \<Longrightarrow> l \<in> set (targets t s) \<Longrightarrow> link_distant l \<in> set (get_nodes t)"
begin

text \<open>Rules are addressed to nodes of the topology, with the address the mapping gives them.\<close>

lemma rule_ip_known:
  assumes "wf t" and "r \<in> set (rules t s m)"
  shows "\<exists>d \<in> set (get_nodes t). rule_ip r = get_or m (node_name d) ''''"
  using assms targets_known by (force simp: rules_targets link_rule_def)

text \<open>If every node has an address, no rule is left without one.\<close>

lemma rule_ip_mapped:
  assumes "wf t" and "r \<in> set (rules t s m)"
    and "\<forall>d \<in> set (get_nodes t). m (node_name d) \<noteq> None"
  shows "\<exists>d \<in> set (get_nodes t). m (node_name d) = Some (rule_ip r)"
  using rule_ip_known [OF assms(1,2)] assms(3) by (force simp: get_or_def)

lemma rules_length: "wf t \<Longrightarrow> length (rules t s m) = length (targets t s)"
  by (simp add: rules_targets)

text \<open>The mapping only decides the addresses.\<close>

lemma rules_mapping_irrelevant:
  "wf t \<Longrightarrow> map (\<lambda>r. (rule_delay r, rule_loss r)) (rules t s m)
          = map (\<lambda>r. (rule_delay r, rule_loss r)) (rules t s m')"
  by (simp add: rules_targets link_rule_def)

lemma len_card: "wf t \<Longrightarrow> len t = card (node_name ` set (get_nodes t))"
  using names_distinct [of t] by (simp add: len_nodes card_image distinct_map distinct_card)

end

section \<open>Simple and full topologies\<close>

definition simple_targets :: "simple_topology \<Rightarrow> string \<Rightarrow> link list" where
  "simple_targets t s = get_or (st_links t) s []"

definition simple_wf :: "simple_topology \<Rightarrow> bool" where
  "simple_wf t \<longleftrightarrow> distinct (map node_name (st_nodes t)) \<and>
     (\<forall>s ls l. st_links t s = Some ls \<longrightarrow> l \<in> set ls \<longrightarrow> link_distant l \<in> set (st_nodes t))"

interpretation simple: topology_ops simple_len simple_get_nodes simple_rules simple_targets simple_wf
proof
  fix t s m l
  assume wf: "simple_wf t"
  show "simple_len t = length (simple_get_nodes t)" by (simp add: simple_len_def simple_get_nodes_def)
  show "distinct (map node_name (simple_get_nodes t))"
    using wf by (simp add: simple_wf_def simple_get_nodes_def)
  show "simple_rules t s m = map (link_rule m) (simple_targets t s)" for m
    by (simp add: simple_rules_map simple_targets_def)
  show "l \<in> set (simple_targets t s) \<Longrightarrow> link_distant l \<in> set (simple_get_nodes t)"
    using wf by (cases "st_links t s") (auto simp: simple_wf_def simple_targets_def simple_get_nodes_def get_or_def)
qed

lemma node_names_simple [simp]: "map node_name (simple_nodes k) = map node_id [0..<k]"
  by (simp add: simple_nodes_def)

lemma new_simple_topology_wf: "simple_wf (new_simple_topology ood n d)"
proof -
  have "named_node (node_id 0) \<in> set (simple_nodes k)" if "i < k" for i k
    using that by (auto simp: simple_nodes_def)
  then show ?thesis
    by (auto simp: simple_wf_def new_simple_topology_nodes new_simple_topology_links
        distinct_node_ids delay_link_def split: if_splits)
qed

lemma new_full_topology_wf: "simple_wf (new_full_topology inputs)"
proof -
  have "distinct (map node_name (map named_node (firsts xs)))" for xs
    by (simp add: comp_def)
  then show ?thesis
    using new_full_topology_inv [of inputs]
    by (auto simp: simple_wf_def full_inv_def outgoing_def input_link_def delay_link_def
        input_names_def split: if_splits)
qed

section \<open>Cloud topologies\<close>

definition cloud_wf :: "cloud_topology \<Rightarrow> bool" where
  "cloud_wf t \<longleftrightarrow> distinct (map node_name (ct_nodes t))"

interpretation cloud: topology_ops cloud_len cloud_get_nodes cloud_rules "\<lambda>t s. []" cloud_wf
  by unfold_locales (auto simp: cloud_len_def cloud_get_nodes_def cloud_rules_def cloud_wf_def)

lemma new_cloud_topology_wf: "cloud_wf (new_cloud_topology key regions)"
proof -
  have "map (node_name \<circ> (\<lambda>(i, r). \<lparr>node_name = node_id i, node_selector = r\<rparr>)) (enumerate 0 regions)
      = map (node_id \<circ> fst) (enumerate 0 regions)" by auto
  also have "\<dots> = map node_id [0..<length regions]" by (simp flip: map_map)
  finally show ?thesis by (simp add: cloud_wf_def new_cloud_topology_def distinct_node_ids)
qed

section \<open>Area topologies\<close>

definition area_full_wf :: "area_topology \<Rightarrow> bool" where
  "area_full_wf t \<longleftrightarrow> area_wf t \<and>
     (\<forall>s. \<forall>l \<in> set (area_targets t s). link_distant l \<in> set (concat (map keys t)))"

lemma new_area_topology_full_wf:
  assumes "new_area_topology ood ord as = Return t" and "\<And>i j n. range_order (ord i j n)"
  shows "area_full_wf t"
proof -
  have wf: "area_wf t" using assms(1) by (rule new_area_topology_wf)
  have "link_distant l \<in> set (concat (map keys t))" if l: "l \<in> set (area_targets t s)" for l s
  proof -
    obtain ls where "find_target s (area_entries t) = Some ls" "l \<in> set ls"
      using l by (cases "find_target s (area_entries t)") (auto simp: area_targets_def)
    moreover have "distinct (map (node_name \<circ> fst) (area_entries t))"
      using wf by (simp add: area_wf_def flip: map_fst_entries)
    ultimately obtain a n where "a \<in> set t" "(n, ls) \<in> set (area_nodes a)"
      by (auto simp: find_target_Some area_entries_def)
    then have "mset (map link_distant ls) = mset (concat (map keys t)) - {#n#}"
      by (rule area_entry_links [OF assms])
    then have "link_distant l \<in># mset (concat (map keys t)) - {#n#}"
      using \<open>l \<in> set ls\<close> by (metis image_eqI set_map set_mset_mset)
    then show ?thesis by (metis in_diffD set_mset_mset)
  qed
  with wf show ?thesis by (simp add: area_full_wf_def)
qed

locale go_map_order =
  fixes o1 :: node_order and o2 :: entry_order
  assumes nodes_order: "range_order (o1 k)" and entries_order: "range_order (o2 k)"
begin

sublocale area: topology_ops area_len "area_get_nodes o1" "area_rules o2" area_targets area_full_wf
proof
  fix t s m l
  assume wf: "area_full_wf t"
  have m: "mset (area_get_nodes o1 t) = mset (concat (map keys t))"
    by (rule area_get_nodes_mset) (rule nodes_order)
  then show "area_len t = length (area_get_nodes o1 t)"
    unfolding area_len_eq by (rule mset_eq_length [symmetric])
  show "distinct (map node_name (area_get_nodes o1 t))"
  proof -
    have "mset (map node_name (area_get_nodes o1 t)) = mset (map node_name (concat (map keys t)))"
      by (simp only: mset_map m)
    then show ?thesis
      using wf mset_eq_imp_distinct_iff unfolding area_full_wf_def area_wf_def by blast
  qed
  show "area_rules o2 t s m = map (link_rule m) (area_targets t s)" for m
    using wf entries_order by (intro area_rules_eq) (auto simp: area_full_wf_def)
  show "l \<in> set (area_targets t s) \<Longrightarrow> link_distant l \<in> set (area_get_nodes o1 t)"
    using wf arg_cong [OF m, of set_mset] unfolding area_full_wf_def by (simp only: set_mset_mset)
qed

end

interpretation insertion_order: go_map_order "\<lambda>k xs. xs" "\<lambda>k xs. xs"
  by unfold_locales (rule range_order_id)+

section \<open>Any topology of the package\<close>

fun topo_targets :: "topology \<Rightarrow> string \<Rightarrow> link list" where
  "topo_targets (Simple t) s = simple_targets t s"
| "topo_targets (Full t) s = simple_targets t s"
| "topo_targets (Cloud t) s = []"
| "topo_targets (Areas t) s = area_targets t s"

fun topo_wf :: "topology \<Rightarrow> bool" where
  "topo_wf (Simple t) = simple_wf t"
| "topo_wf (Full t) = simple_wf t"
| "topo_wf (Cloud t) = cloud_wf t"
| "topo_wf (Areas t) = area_full_wf t"

context go_map_order
begin

sublocale topo: topology_ops topo_len "topo_nodes o1" "topo_rules o2" topo_targets topo_wf
proof
  fix t s m l
  assume "topo_wf t"
  then show "topo_len t = length (topo_nodes o1 t)"
    by (cases t) (simp_all add: simple.len_nodes cloud.len_nodes area.len_nodes)
  show "distinct (map node_name (topo_nodes o1 t))" using \<open>topo_wf t\<close>
    by (cases t) (simp_all add: simple.names_distinct cloud.names_distinct area.names_distinct)
  show "topo_rules o2 t s m = map (link_rule m) (topo_targets t s)" for m using \<open>topo_wf t\<close>
    by (cases t) (simp_all add: simple.rules_targets cloud.rules_targets area.rules_targets)
  show "l \<in> set (topo_targets t s) \<Longrightarrow> link_distant l \<in> set (topo_nodes o1 t)" using \<open>topo_wf t\<close>
    by (cases t) (auto simp: simple.targets_known area.targets_known)
qed

lemmas rule_ip_mapped = topo.rule_ip_mapped
lemmas rules_mapping_irrelevant = topo.rules_mapping_irrelevant
lemmas rules_of_targets = topo.rules_targets
lemmas targets_in_nodes = topo.targets_known

end

section \<open>Properties\<close>

lemma link_rule_delay_link:
  "link_rule m (delay_link (named_node s) (no_delay\<lparr>delay_value := d\<rparr>))
     = new_delay_rule (get_or m s '''') d"
  by (simp add: link_rule_def delay_link_def new_delay_rule_def)

text \<open>
  C33: For every 64-bit size the simple topology has exactly the clamped number of nodes, named
  node0, node1, and so on, although the size is clamped through a conversion to float64; every node
  but node0 has exactly one rule, the delay towards the address of node0, and no other name has
  rules.
\<close>

theorem new_simple_topology_spec:
  assumes "in_int64 n"
  defines "k \<equiv> nat (min MaxSize (max 0 n))"
  shows "simple_len (new_simple_topology ood n d) = k
    \<and> simple_get_nodes (new_simple_topology ood n d) = map (\<lambda>i. named_node (node_id i)) [0..<k]
    \<and> (\<forall>i < k. simple_rules (new_simple_topology ood n d) (node_id i) m
           = (if i = 0 then [] else [new_delay_rule (get_or m (node_id 0) '''') d]))
    \<and> (\<forall>s. s \<notin> node_id ` {..<k} \<longrightarrow> simple_rules (new_simple_topology ood n d) s m = [])"
proof -
  have k: "nat (clamp_size ood n) = k" using assms by (simp add: clamp_size_eq)
  then show ?thesis
    by (auto simp: simple_len_def simple_get_nodes_def new_simple_topology_nodes simple_nodes_def
        simple_rules_map new_simple_topology_links get_or_def link_rule_delay_link)
qed

theorem new_simple_topology_spec_witness:
  "in_int64 2 \<and> simple_rules (new_simple_topology (\<lambda>_. 0) 2 25) ''node1'' [''node0'' \<mapsto> ''10.0.0.1'']
     = [new_delay_rule ''10.0.0.1'' 25]"
proof -
  have h: "in_int64 2" by (simp add: in_int64_def)
  have n: "node_id 1 = ''node1''" "node_id 0 = ''node0''"
    by (simp_all add: node_id_def show_nat.simps)
  let ?t = "new_simple_topology (\<lambda>_. 0) 2 25"
  have "\<forall>i < 2. simple_rules ?t (node_id i) [''node0'' \<mapsto> ''10.0.0.1'']
      = (if i = 0 then [] else [new_delay_rule (get_or [''node0'' \<mapsto> ''10.0.0.1''] (node_id 0) '''') 25])"
    using new_simple_topology_spec [OF h, of "\<lambda>_. 0" 25 "[''node0'' \<mapsto> ''10.0.0.1'']"]
    by (simp add: MaxSize_def)
  from this [rule_format, of 1] show ?thesis using h n by (simp flip: One_nat_def)
qed

text \<open>
  The full topology has the names of its inputs as nodes, each once and in the order of their
  first occurrence, and the rules of a node are its inputs in order, each towards the address of
  its destination with its latency.
\<close>

theorem new_full_topology_spec:
  "simple_get_nodes (new_full_topology inputs) = map named_node (firsts (input_names inputs))
   \<and> simple_len (new_full_topology inputs) = card (fi_from ` set inputs \<union> fi_to ` set inputs)
   \<and> simple_rules (new_full_topology inputs) s m
      = map (\<lambda>x. new_delay_rule (get_or m (fi_to x) '''') (fi_latency x))
            (filter (\<lambda>x. fi_from x = s) inputs)"
proof -
  have "set (input_names inputs) = fi_from ` set inputs \<union> fi_to ` set inputs"
    by (auto simp: input_names_def)
  then have "length (firsts (input_names inputs)) = card (fi_from ` set inputs \<union> fi_to ` set inputs)"
    by (metis distinct_card distinct_firsts set_firsts)
  then show ?thesis
    by (simp add: simple_get_nodes_def simple_len_def full_nodes full_rules outgoing_def input_link_def
        link_rule_delay_link comp_def)
qed

text \<open>
  C14: Whatever order Go visits its maps in, at construction and at every query, the rules of a node
  of an area topology address every other node of the topology exactly once and never the node
  itself.
\<close>

theorem area_rules_complete:
  assumes "new_area_topology ood ord as = Return t"
    and "\<forall>i j n. range_order (ord i j n)" and "\<forall>k. range_order (o1 k)" and "\<forall>k. range_order (o2 k)"
    and "n \<in> set (area_get_nodes o1 t)"
  shows "mset (map rule_ip (area_rules o2 t (node_name n) m))
       = image_mset (\<lambda>d. get_or m (node_name d) '''') (mset (area_get_nodes o1 t) - {#n#})"
proof -
  have g: "mset (area_get_nodes o1 t) = mset (concat (map keys t))"
    using assms(3) by (intro area_get_nodes_mset) auto
  have wf: "area_wf t" using assms(1) by (rule new_area_topology_wf)
  have "n \<in> set (concat (map keys t))" using assms(5) g by (metis set_mset_mset)
  with wf obtain a where "a \<in> set t" "(n, area_targets t (node_name n)) \<in> set (area_nodes a)"
    by (rule area_targets_entry)
  then have "mset (map link_distant (area_targets t (node_name n)))
      = mset (concat (map keys t)) - {#n#}"
    using assms(1,2) by (intro area_entry_links) auto
  moreover have "map rule_ip (area_rules o2 t (node_name n) m)
      = map (\<lambda>d. get_or m (node_name d) '''') (map link_distant (area_targets t (node_name n)))"
    using assms(4) wf by (subst area_rules_eq) (auto simp: link_rule_def)
  ultimately show ?thesis using g by (metis mset_map)
qed

definition two_areas :: "area list" where
  "two_areas =
     [\<lparr>area_n = 1, area_latency = no_delay, area_x = 0, area_y = 0, area_nodes = []\<rparr>,
      \<lparr>area_n = 1, area_latency = no_delay, area_x = Fin 3, area_y = Fin 4, area_nodes = []\<rparr>]"

theorem area_rules_complete_witness:
  "\<exists>t. new_area_topology (\<lambda>_. 0) (\<lambda>i j n. rev) two_areas = Return t
     \<and> mset (map rule_ip (area_rules (\<lambda>k. rev) t ''node0'' [''node1'' \<mapsto> ''b''])) = {#''b''#}"
proof -
  obtain bs where "init_areas 0 two_areas = Return bs"
    using init_areas_panic_iff [of 0 two_areas] by (auto simp: two_areas_def)
  then obtain t where t: "new_area_topology (\<lambda>_. 0) (\<lambda>i j n. rev) two_areas = Return t"
    by (simp add: new_area_topology_def)
  have ids: "node_id 0 = ''node0''" "node_id 1 = ''node1''"
    by (simp_all add: node_id_def show_nat.simps)
  have g: "mset (area_get_nodes (\<lambda>k. rev) t) = {#named_node ''node0'', named_node ''node1''#}"
    unfolding area_get_nodes_mset [of "\<lambda>k. rev", OF range_order_id(2)] new_area_topology_keys [OF t]
    using ids by (simp add: offset_def two_areas_def block_def numeral_2_eq_2)
  then have "set (area_get_nodes (\<lambda>k. rev) t) = {named_node ''node0'', named_node ''node1''}"
    by (metis set_mset_mset set_mset_add_mset_insert set_mset_empty)
  then have n: "named_node ''node0'' \<in> set (area_get_nodes (\<lambda>k. rev) t)" by simp
  show ?thesis
    using t area_rules_complete [OF t _ _ _ n, of "\<lambda>k. rev" "[''node1'' \<mapsto> ''b'']"]
    by (simp add: range_order_id g)
qed

text \<open>
  C34: The latency between two areas is symmetric, and for integer coordinates at a distance below
  \<open>2 ^ 26\<close> the float computation is exact: it is the integer part of the Euclidean distance, in
  milliseconds.
\<close>

theorem calculate_latency_spec:
  assumes "(x1 - x2) ^ 2 + (y1 - y2) ^ 2 < 2 ^ 52"
  shows "\<exists>q. delay_value (calculate_latency ood (Fin (of_int x1)) (Fin (of_int y1))
                       (Fin (of_int x2)) (Fin (of_int y2))) = q * 1000000
      \<and> 0 \<le> q \<and> q ^ 2 \<le> (x1 - x2) ^ 2 + (y1 - y2) ^ 2 \<and> (x1 - x2) ^ 2 + (y1 - y2) ^ 2 < (q + 1) ^ 2
      \<and> (\<forall>a b c d. calculate_latency ood a b c d = calculate_latency ood c d a b)"
proof -
  define D where "D = (x1 - x2) ^ 2 + (y1 - y2) ^ 2"
  define q where "q = int (isqrt (nat D))"
  have "0 \<le> D" by (simp add: D_def)
  moreover have "int (isqrt (nat D) * isqrt (nat D)) \<le> int (nat D)
      \<and> int (nat D) < int ((isqrt (nat D) + 1) * (isqrt (nat D) + 1))"
    using isqrt_bounds [of "nat D"] by (simp only: of_nat_le_iff of_nat_less_iff)
  ultimately have "q ^ 2 \<le> D" "D < (q + 1) ^ 2" by (simp_all add: q_def power2_eq_square algebra_simps)
  moreover have "0 \<le> q" by (simp add: q_def)
  moreover have "delay_value (calculate_latency ood (Fin (of_int x1)) (Fin (of_int y1))
      (Fin (of_int x2)) (Fin (of_int y2))) = q * 1000000"
    using calculate_latency_int [OF assms, of ood] by (simp add: q_def D_def)
  moreover note calculate_latency_sym
  ultimately show ?thesis unfolding D_def by blast
qed

theorem calculate_latency_spec_witness:
  "(0 - 3 :: int) ^ 2 + (0 - 4) ^ 2 < 2 ^ 52
   \<and> (\<exists>q. delay_value (calculate_latency (\<lambda>_. 0) (Fin (of_int 0)) (Fin (of_int 0))
                       (Fin (of_int 3)) (Fin (of_int 4))) = q * 1000000
      \<and> 0 \<le> q \<and> q ^ 2 \<le> 25 \<and> 25 < (q + 1) ^ 2)"
proof -
  have h: "(0 - 3 :: int) ^ 2 + (0 - 4) ^ 2 < 2 ^ 52" by simp
  show ?thesis using h calculate_latency_spec [OF h, of "\<lambda>_. 0"] by auto
qed

text \<open>
  In every well-formed topology of the package, each rule given to a node carries the address of
  a node of the topology, whenever the mapping has the address of every node; the delays and losses
  do not depend on the mapping.
\<close>

theorem topology_rules_addressed:
  assumes "topo_wf t" and "\<forall>k. range_order (o1 k)" and "\<forall>k. range_order (o2 k)"
    and "\<forall>d \<in> set (topo_nodes o1 t). m (node_name d) \<noteq> None"
  shows "(\<forall>r \<in> set (topo_rules o2 t s m). \<exists>d \<in> set (topo_nodes o1 t). m (node_name d) = Some (rule_ip r))
    \<and> map (\<lambda>r. (rule_delay r, rule_loss r)) (topo_rules o2 t s m)
       = map (\<lambda>r. (rule_delay r, rule_loss r)) (topo_rules o2 t s m')"
proof -
  have ord: "go_map_order o1 o2" using assms(2,3) by (simp add: go_map_order_def)
  show ?thesis
    using go_map_order.rule_ip_mapped [OF ord assms(1)] assms(4)
      go_map_order.rules_mapping_irrelevant [OF ord assms(1)] by blast
qed

theorem topology_rules_addressed_witness:
  "topo_rules (\<lambda>k. rev) (Full (new_full_topology [\<lparr>fi_from = ''a'', fi_to = ''b'', fi_latency = 7\<rparr>])) ''a''
     [''a'' \<mapsto> ''1'', ''b'' \<mapsto> ''2''] = [new_delay_rule ''2'' 7]
   \<and> (\<exists>d \<in> set (topo_nodes (\<lambda>k. rev)
            (Full (new_full_topology [\<lparr>fi_from = ''a'', fi_to = ''b'', fi_latency = 7\<rparr>]))).
          [''a'' \<mapsto> ''1'', ''b'' \<mapsto> ''2''] (node_name d) = Some ''2'')"
proof -
  let ?i = "[\<lparr>fi_from = ''a'', fi_to = ''b'', fi_latency = 7\<rparr>]"
  let ?m = "[''a'' \<mapsto> ''1'', ''b'' \<mapsto> ''2'']"
  have wf: "topo_wf (Full (new_full_topology ?i))" by (simp add: new_full_topology_wf)
  have ns: "topo_nodes (\<lambda>k. rev) (Full (new_full_topology ?i)) = [named_node ''a'', named_node ''b'']"
    by (simp add: simple_get_nodes_def full_nodes input_names_def)
  have r: "topo_rules (\<lambda>k. rev) (Full (new_full_topology ?i)) ''a'' ?m = [new_delay_rule ''2'' 7]"
    by (simp add: full_rules outgoing_def input_link_def link_rule_delay_link)
  have "\<forall>r \<in> set (topo_rules (\<lambda>k. rev) (Full (new_full_topology ?i)) ''a'' ?m).
      \<exists>d \<in> set (topo_nodes (\<lambda>k. rev) (Full (new_full_topology ?i))). ?m (node_name d) = Some (rule_ip r)"
    by (rule topology_rules_addressed [OF wf, THEN conjunct1]) (simp_all add: range_order_id simple_get_nodes_def full_nodes input_names_def)
  then have "\<exists>d \<in> set (topo_nodes (\<lambda>k. rev) (Full (new_full_topology ?i))).
      ?m (node_name d) = Some (rule_ip (new_delay_rule ''2'' 7))"
    unfolding r by (simp only: list.set ball_simps)
  moreover have "rule_ip (new_delay_rule ''2'' 7) = ''2''" by (simp add: new_delay_rule_def)
  ultimately show ?thesis using r by (simp only:)
qed

end
