(* ===== verification/Options.thy ===== *)
theory Options
  imports Topology
begin

text \<open>
  The options of a simulation (\<open>sim/option.go\<close>). An option is a function on the options; the
  home directory and the creation of the output directory are parameters of \<open>new_options\<close>. The
  values of the map \<open>Data\<close> are opaque.
\<close>

section \<open>Paths\<close>

text \<open>\<open>path/filepath\<close>: \<open>Clean\<close> and \<open>Join\<close> on Unix.\<close>

abbreviation slash :: char where "slash \<equiv> CHR ''/''"

fun clean_parts :: "bool \<Rightarrow> string list \<Rightarrow> string list \<Rightarrow> string list" where
  "clean_parts rooted [] out = rev out"
| "clean_parts rooted (p # ps) out =
     (if p = '''' \<or> p = ''.'' then clean_parts rooted ps out
      else if p = ''..'' then
        (if out \<noteq> [] \<and> hd out \<noteq> ''..'' then clean_parts rooted ps (tl out)
         else if rooted then clean_parts rooted ps out
         else clean_parts rooted ps (p # out))
      else clean_parts rooted ps (p # out))"

definition path_clean :: "string \<Rightarrow> string" where
  "path_clean p =
     (let rooted = has_prefix p ''/''; parts = clean_parts rooted (split_on slash p) []
      in if rooted then ''/'' @ join ''/'' parts
         else if parts = [] then ''.'' else join ''/'' parts)"

definition path_join :: "string list \<Rightarrow> string" where
  "path_join elems =
     (let es = dropWhile (\<lambda>e. e = '''') elems
      in if es = [] then '''' else path_clean (join ''/'' es))"

section \<open>Options\<close>

definition KB :: int where "KB = push_bit 10 1"
definition MB :: int where "MB = push_bit 10 KB"
definition GB :: int where "GB = push_bit 10 MB"
definition TB :: int where "TB = push_bit 10 GB"
definition PB :: int where "PB = push_bit 10 TB"

record tmp_volume =
  tmp_destination :: string
  tmp_size :: int

datatype port = TCPPort int | UDPPort int

definition new_tcp :: "int \<Rightarrow> port" where "new_tcp p = TCPPort p"
definition new_udp :: "int \<Rightarrow> port" where "new_udp p = UDPPort p"

fun port_protocol :: "port \<Rightarrow> string" where
  "port_protocol (TCPPort _) = ''TCP''"
| "port_protocol (UDPPort _) = ''UDP''"

fun port_value :: "port \<Rightarrow> int" where
  "port_value (TCPPort p) = p"
| "port_value (UDPPort p) = p"

definition protocol_string :: "string \<Rightarrow> string" where
  "protocol_string p = to_lower p"

record options =
  output_dir :: string
  opt_topology :: "topology option"
  opt_image :: string
  opt_cmd :: "string list"
  opt_args :: "string list"
  opt_ports :: "port list"
  opt_tmpfs :: "tmp_volume list"
  vpn_executable :: string
  opt_data :: "string \<rightharpoonup> string"

type_synonym option_fun = "options \<Rightarrow> options"

definition with_vpn :: "string \<Rightarrow> option_fun" where
  "with_vpn exec o1 = o1\<lparr>vpn_executable := exec\<rparr>"

definition with_output :: "string \<Rightarrow> option_fun" where
  "with_output dir o1 = o1\<lparr>output_dir := dir\<rparr>"

definition with_topology :: "topology \<Rightarrow> option_fun" where
  "with_topology t o1 = o1\<lparr>opt_topology := Some t\<rparr>"

definition with_image :: "string \<Rightarrow> string list \<Rightarrow> string list \<Rightarrow> port list \<Rightarrow> option_fun" where
  "with_image img cmd args ports =
     (let img = (if \<not> str_contains img ''/'' then ''library/'' @ img else img)
      in (\<lambda>x. x\<lparr>opt_image := img, opt_cmd := cmd, opt_args := args, opt_ports := ports\<rparr>))"

definition with_tmpfs :: "string \<Rightarrow> int \<Rightarrow> option_fun" where
  "with_tmpfs dest bytes o1 = o1\<lparr>opt_tmpfs := opt_tmpfs o1 @ [\<lparr>tmp_destination = dest, tmp_size = bytes\<rparr>]\<rparr>"

definition initial_options :: options where
  "initial_options = \<lparr>output_dir = '''', opt_topology = None, opt_image = '''', opt_cmd = [], opt_args = [],
     opt_ports = [], opt_tmpfs = [], vpn_executable = ''openvpn'', opt_data = Map.empty\<rparr>"

text \<open>The options after the list and the defaults, before the directory is made.\<close>

definition default_options :: "gerror + string \<Rightarrow> options \<Rightarrow> options" where
  "default_options home o1 =
     (let o1 = (if opt_topology o1 = None
                then o1\<lparr>opt_topology := Some (Simple (new_simple_topology (\<lambda>_. 0) 3 0))\<rparr> else o1)
      in if output_dir o1 = ''''
         then let home_dir = (case home of Inl _ \<Rightarrow> '''' | Inr h \<Rightarrow> h)
              in o1\<lparr>output_dir := path_join [home_dir, ''.config'', ''simnet'']\<rparr>
         else o1)"

definition new_options :: "gerror + string \<Rightarrow> (string \<Rightarrow> gerror option) \<Rightarrow> option_fun list \<Rightarrow> options outcome" where
  "new_options home mkdir opts =
     (let o1 = default_options home (fold (\<lambda>f. f) opts initial_options)
      in case mkdir (output_dir o1) of
           None \<Rightarrow> Return o1
         | Some (ErrExist m) \<Rightarrow> Return o1
         | Some err \<Rightarrow> Panic (error_text err))"

section \<open>Lemmas\<close>

lemma fold_keeps: "(\<And>f x. f \<in> set fs \<Longrightarrow> P x \<Longrightarrow> P (f x)) \<Longrightarrow> P x \<Longrightarrow> P (fold (\<lambda>f. f) fs x)"
  by (induction fs arbitrary: x) auto

lemma default_topology: "\<exists>t. opt_topology (default_options home o1) = Some t"
  by (simp add: default_options_def Let_def)

lemma clean_parts_nonempty: "\<forall>p \<in> set out. p \<noteq> '''' \<Longrightarrow> \<forall>p \<in> set (clean_parts r ps out). p \<noteq> ''''"
proof (induction ps arbitrary: out)
  case (Cons p ps)
  have "\<forall>q \<in> set (tl out). q \<noteq> ''''" using Cons.prems by (cases out) simp_all
  define out' where "out' = (if p = '''' \<or> p = ''.'' then out else if p = ''..'' then
      (if out \<noteq> [] \<and> hd out \<noteq> ''..'' then tl out else if r then out else p # out) else p # out)"
  have "clean_parts r (p # ps) out = clean_parts r ps out'"
    unfolding clean_parts.simps out'_def by (simp only: if_distrib [where f = "clean_parts r ps"])
  moreover have "\<forall>q \<in> set out'. q \<noteq> ''''"
    using Cons.prems \<open>\<forall>q \<in> set (tl out). q \<noteq> ''''\<close> unfolding out'_def by (simp split: if_split)
  ultimately show ?case using Cons.IH [of out'] by simp
qed simp

lemma join_nonempty: "ps \<noteq> [] \<Longrightarrow> \<forall>p \<in> set ps. p \<noteq> '''' \<Longrightarrow> join c ps \<noteq> ''''"
  by (cases ps rule: remdups_adj.cases) simp_all

lemma path_clean_nonempty: "path_clean p \<noteq> ''''"
  using clean_parts_nonempty [of "[]" "has_prefix p ''/''" "split_on slash p"]
    join_nonempty [of "clean_parts (has_prefix p ''/'') (split_on slash p) []" "''/''"]
  by (cases "has_prefix p ''/''") (simp_all add: path_clean_def Let_def)

text \<open>A joined path ends with its last name, so different names give different paths.\<close>

lemma split_on_snoc: "c \<notin> set w \<Longrightarrow> split_on c (s @ c # w) = split_on c s @ [w]"
  by (induction s) (auto simp: split_on_absent split: list.splits)

lemma clean_parts_snoc:
  assumes "n \<noteq> ''''" and "n \<noteq> ''.''" and "n \<noteq> ''..''"
  shows "clean_parts r (ps @ [n]) out = clean_parts r ps out @ [n]"
proof (induction ps arbitrary: out)
  case (Cons p ps)
  define out' where "out' = (if p = '''' \<or> p = ''.'' then out else if p = ''..'' then
      (if out \<noteq> [] \<and> hd out \<noteq> ''..'' then tl out else if r then out else p # out) else p # out)"
  have "clean_parts r (p # qs) out = clean_parts r qs out'" for qs
    unfolding clean_parts.simps out'_def by (simp only: if_distrib [where f = "clean_parts r qs"])
  then show ?case using Cons.IH by simp
qed (use assms in simp)

lemma join_snoc: "join c (ps @ [n]) = (if ps = [] then n else join c ps @ c @ n)"
  by (induction ps rule: induct_list012) simp_all

definition plain_name :: "string \<Rightarrow> bool" where
  "plain_name n \<longleftrightarrow> n \<noteq> '''' \<and> n \<noteq> ''.'' \<and> n \<noteq> ''..'' \<and> slash \<notin> set n"

lemma path_join_last:
  assumes "plain_name n"
  obtains pre where "path_join [out, n] = pre @ n" and "pre = '''' \<or> last pre = slash"
proof -
  have ends: "\<exists>pre. path_clean p = pre @ n \<and> (pre = '''' \<or> last pre = slash)" if "split_on slash p = ps @ [n]" for p ps
  proof -
    define r xs where "r = has_prefix p ''/''" and "xs = clean_parts r ps []"
    have "clean_parts r (split_on slash p) [] = xs @ [n]"
      using assms unfolding that xs_def by (intro clean_parts_snoc) (simp_all add: plain_name_def)
    then have "path_clean p = (if r then ''/'' @ join ''/'' (xs @ [n]) else join ''/'' (xs @ [n]))"
      unfolding path_clean_def Let_def r_def by (simp only: snoc_eq_iff_butlast if_False simp_thms)
    then have "path_clean p = ((if r then ''/'' else '''') @ (if xs = [] then '''' else join ''/'' xs @ ''/'')) @ n"
      by (simp add: join_snoc)
    moreover have "last ((if r then ''/'' else '''') @ (if xs = [] then '''' else join ''/'' xs @ ''/'')) = slash" if "r \<or> xs \<noteq> []"
      using that by (cases r; cases "xs = []") simp_all
    ultimately show ?thesis by (cases "r \<or> xs \<noteq> []") auto
  qed
  have n: "n \<noteq> ''''" "slash \<notin> set n" using assms by (simp_all add: plain_name_def)
  show thesis
  proof (cases "out = ''''")
    case True
    then have "path_join [out, n] = path_clean n" using n by (simp add: path_join_def)
    then show thesis using that ends [of n "[]"] n(2) by (auto simp: split_on_absent)
  next
    case False
    then have "path_join [out, n] = path_clean (out @ slash # n)" by (simp add: path_join_def)
    then show thesis using that ends [OF split_on_snoc [OF n(2), of out]] by auto
  qed
qed

lemma path_join_inj:
  assumes "plain_name m" and "plain_name n" and "path_join [out, m] = path_join [out', n]"
  shows "m = n"
proof -
  obtain pre pre' where eq: "pre @ m = pre' @ n" and pre: "pre = '''' \<or> last pre = slash" "pre' = '''' \<or> last pre' = slash"
    using assms by (metis path_join_last)
  have "slash \<notin> set m" "slash \<notin> set n" using assms(1,2) by (simp_all add: plain_name_def)
  consider us where "pre = pre' @ us" "us @ m = n" | us where "pre @ us = pre'" "m = us @ n"
    using eq by (auto simp: append_eq_append_conv2)
  then show ?thesis
  proof cases
    case 1
    then have "us = ''''" using pre \<open>slash \<notin> set n\<close> by (cases us rule: rev_cases) auto
    then show ?thesis using 1 by simp
  next
    case 2
    then have "us = ''''" using pre \<open>slash \<notin> set m\<close> by (cases us rule: rev_cases) auto
    then show ?thesis using 2 by simp
  qed
qed

lemma default_output_dir: "output_dir (default_options home o1) \<noteq> ''''"
  by (simp add: default_options_def Let_def path_join_def path_clean_nonempty)

text \<open>
  New options: the options are applied in order to the defaults, a topology and an output
  directory are always set, given ones are kept, the directory that is created is the output
  directory, and the only way to fail is a creation that fails although the directory does not exist.
\<close>

theorem new_options_spec:
  "(case new_options home mkdir opts of
      Return o1 \<Rightarrow>
        let given = fold (\<lambda>f. f) opts initial_options in
        opt_topology o1 \<noteq> None \<and> output_dir o1 \<noteq> ''''
        \<and> (opt_topology given = None \<or> opt_topology o1 = opt_topology given)
        \<and> (output_dir given = '''' \<or> output_dir o1 = output_dir given)
        \<and> o1\<lparr>opt_topology := None, output_dir := ''''\<rparr> = given\<lparr>opt_topology := None, output_dir := ''''\<rparr>
        \<and> mkdir (output_dir o1) \<in> insert None (range (Some \<circ> ErrExist))
    | Panic m \<Rightarrow> \<exists>dir err. mkdir dir = Some err \<and> err \<notin> range ErrExist \<and> m = error_text err
    | Blocked \<Rightarrow> False)"
proof -
  let ?g = "fold (\<lambda>f. f) opts initial_options"
  let ?o = "default_options home ?g"
  have keep: "(opt_topology ?g = None \<or> opt_topology ?o = opt_topology ?g)"
    "(output_dir ?g = '''' \<or> output_dir ?o = output_dir ?g)"
    "?o\<lparr>opt_topology := None, output_dir := ''''\<rparr> = ?g\<lparr>opt_topology := None, output_dir := ''''\<rparr>"
    by (auto simp: default_options_def Let_def)
  note ok = default_topology [of home ?g] default_output_dir [of home ?g] keep
  show ?thesis
  proof (cases "mkdir (output_dir ?o)")
    case None
    then show ?thesis using ok by (simp add: new_options_def Let_def)
  next
    case (Some err)
    then show ?thesis
      using ok by (cases err) (auto simp: new_options_def Let_def image_iff intro!: exI [of _ "output_dir ?o"])
  qed
qed

text \<open>
  Options compose as a deployment expects: the last image wins and always names a repository,
  tmpfs volumes accumulate in order and survive every other option, and the default directory is the
  home directory's \<open>.config/simnet\<close>.
\<close>

theorem option_composition:
  "opt_image (with_image img cmd args ports o1) = (if str_contains img ''/'' then img else ''library/'' @ img)
   \<and> str_contains (opt_image (with_image img cmd args ports o1)) ''/''
   \<and> with_image img cmd args ports (with_image img' cmd' args' ports' o1) = with_image img cmd args ports o1
   \<and> opt_tmpfs (fold (\<lambda>(d, n). with_tmpfs d n) vs o1)
      = opt_tmpfs o1 @ map (\<lambda>(d, n). \<lparr>tmp_destination = d, tmp_size = n\<rparr>) vs
   \<and> opt_tmpfs (with_image img cmd args ports (with_vpn e (with_output dir (with_topology t o1)))) = opt_tmpfs o1
   \<and> output_dir (default_options (Inr ''/home/user'') initial_options) = ''/home/user/.config/simnet''"
proof -
  have "opt_tmpfs (fold (\<lambda>(d, n). with_tmpfs d n) vs o1)
      = opt_tmpfs o1 @ map (\<lambda>(d, n). \<lparr>tmp_destination = d, tmp_size = n\<rparr>) vs"
    by (induction vs arbitrary: o1) (auto simp: with_tmpfs_def)
  moreover have "str_contains (''library/'' @ img) ''/''"
    by (simp add: str_contains_iff) (metis append_Cons append_Nil)
  moreover have "output_dir (default_options (Inr ''/home/user'') initial_options) = ''/home/user/.config/simnet''"
    by (simp add: default_options_def initial_options_def path_join_def path_clean_def has_prefix_def Let_def)
  ultimately show ?thesis
    by (auto simp: with_image_def with_vpn_def with_output_def with_topology_def Let_def)
qed

end
