(* ===== verification/Simplot.thy ===== *)
theory Simplot
  imports Metrics Area Options
begin

text \<open>
  The command \<open>simplot\<close> (\<open>metrics/simplot\<close>): the printed maxima and averages
  (\<open>mod.go\<close>) and the plots of the resource usage (\<open>usageplot.go\<close>). The contents of the
  input file, the plotting library and the standard deviation are parameters, and so is the order of
  every loop over a map. The loop of \<open>int2human\<close> takes fuel: \<open>Blocked\<close> means that it is still
  running when the fuel is used up.
\<close>

section \<open>mod.go\<close>

definition HumanSuffixes :: "string list" where
  "HumanSuffixes = [''B'', ''KiB'', ''MiB'', ''GiB'']"

fun human_loop :: "nat \<Rightarrow> float64 \<Rightarrow> int \<Rightarrow> (float64 \<times> int) outcome" where
  "human_loop fuel value suffix =
     (if Fin 1024 < value \<or> int (length HumanSuffixes) \<le> suffix
      then case fuel of 0 \<Rightarrow> Blocked
         | Suc fuel \<Rightarrow> human_loop fuel (value div Fin 1024) (wrap64 (suffix + 1))
      else Return (value, suffix))"

declare human_loop.simps [simp del]

definition int2human :: "nat \<Rightarrow> float64 \<Rightarrow> string outcome" where
  "int2human fuel value =
     obind (human_loop fuel value 0) (\<lambda>(value, suffix).
       if 0 \<le> suffix \<and> nat suffix < length HumanSuffixes
       then Return (pad_left 6 (f64_fmt2 value) @ '' '' @ HumanSuffixes ! nat suffix)
       else Panic ''index out of range'')"

text \<open>What was printed, and how the call ended.\<close>

type_synonym 'a printing = "string list \<times> 'a outcome"

fun for_each :: "(string \<Rightarrow> node_stats \<Rightarrow> string outcome) \<Rightarrow> (string \<times> node_stats) list
    \<Rightarrow> string list \<Rightarrow> string list \<Rightarrow> unit printing" where
  "for_each fn nodes [] out = (out, Return ())"
| "for_each fn nodes (k # ks) out =
     (case fn k (get_or (map_of nodes) k empty_node_stats) of
        Return line \<Rightarrow> for_each fn nodes ks (out @ [line])
      | Panic m \<Rightarrow> (out, Panic m)
      | Blocked \<Rightarrow> (out, Blocked))"

definition for_each_ordered :: "(string list \<Rightarrow> string list) \<Rightarrow> stats
    \<Rightarrow> (string \<Rightarrow> node_stats \<Rightarrow> string outcome) \<Rightarrow> string list \<Rightarrow> unit printing" where
  "for_each_ordered ord st fn out =
     for_each fn (stats_nodes st) (sort (ord (map fst (stats_nodes st)))) out"

text \<open>The file: an error when it is opened or read, or its decoded contents.\<close>

definition read_stats :: "gerror + (gerror + stats) \<Rightarrow> gerror + stats" where
  "read_stats input =
     (case input of
        Inl _ \<Rightarrow> Inl (Msg ''couldn't open the input file'')
      | Inr (Inl _) \<Rightarrow> Inl (Msg ''couldn't read the statistics'')
      | Inr (Inr st) \<Rightarrow> Inr st)"

definition max_line :: "nat \<Rightarrow> string \<Rightarrow> node_stats \<Rightarrow> string outcome" where
  "max_line fuel node ns =
     obind (stats_max ns) (\<lambda>(cpu, mem, tx, rx).
     obind (int2human fuel (f64_of_uint64 mem)) (\<lambda>hmem.
     obind (int2human fuel (f64_of_uint64 rx)) (\<lambda>hrx.
     obind (int2human fuel (f64_of_uint64 tx)) (\<lambda>htx.
       Return (''Node <'' @ node @ ''>'' @ [CHR 0x09] @ '': ''
         @ pad_left 8 (f64_fmt2 (f64_of_uint64 cpu div Fin 100)) @ ''%''
         @ [CHR 0x09] @ hmem @ [CHR 0x09] @ hrx @ [CHR 0x09] @ htx)))))"

definition average_line ::
  "(float64 list \<Rightarrow> float64) \<Rightarrow> nat \<Rightarrow> string \<Rightarrow> node_stats \<Rightarrow> string outcome" where
  "average_line stddev fuel node ns =
     obind (stats_average ns) (\<lambda>(cpu, mem, tx, rx).
     obind (stats_stddev stddev ns) (\<lambda>(dcpu, dmem, dtx, drx).
     obind (int2human fuel mem) (\<lambda>hmem. obind (int2human fuel dmem) (\<lambda>hdmem.
     obind (int2human fuel rx) (\<lambda>hrx. obind (int2human fuel drx) (\<lambda>hdrx.
     obind (int2human fuel tx) (\<lambda>htx. obind (int2human fuel dtx) (\<lambda>hdtx.
       Return (''Node <'' @ node @ ''>'' @ [CHR 0x09] @ '': ''
         @ pad_left 8 (f64_fmt2 (cpu div Fin 100)) @ ''% ('' @ f64_fmt2 (dcpu div Fin 100) @ ''%)''
         @ [CHR 0x09] @ hmem @ '' ('' @ hdmem @ '')'' @ [CHR 0x09] @ hrx @ '' ('' @ hdrx @ '')''
         @ [CHR 0x09] @ htx @ '' ('' @ hdtx @ '')'')))))))))"

definition print_nodes :: "string \<Rightarrow> (string \<Rightarrow> node_stats \<Rightarrow> string outcome)
    \<Rightarrow> (string list \<Rightarrow> string list) \<Rightarrow> gerror + (gerror + stats) \<Rightarrow> (gerror + unit) printing" where
  "print_nodes header line ord input =
     (case read_stats input of
        Inl err \<Rightarrow> ([], Return (Inl err))
      | Inr st \<Rightarrow>
          (case for_each_ordered ord st line [header] of (out, r) \<Rightarrow> (out, obind r (\<lambda>_. Return (Inr ())))))"

definition print_max :: "nat \<Rightarrow> (string list \<Rightarrow> string list) \<Rightarrow> gerror + (gerror + stats)
    \<Rightarrow> (gerror + unit) printing" where
  "print_max fuel = print_nodes ''Maximum of [CPU Memory Rx Tx]:'' (max_line fuel)"

definition print_average :: "(float64 list \<Rightarrow> float64) \<Rightarrow> nat \<Rightarrow> (string list \<Rightarrow> string list)
    \<Rightarrow> gerror + (gerror + stats) \<Rightarrow> (gerror + unit) printing" where
  "print_average stddev fuel =
     print_nodes ''Average of [CPU Memory Rx Tx] (Standard deviation):'' (average_line stddev fuel)"

section \<open>usageplot.go\<close>

type_synonym mapper = "nat \<Rightarrow> node_stats \<Rightarrow> float64 outcome"

definition column :: "(node_stats \<Rightarrow> uint64 list) \<Rightarrow> mapper" where
  "column field i ns = index (field ns) i (\<lambda>w. Return (f64_of_uint64 w))"

definition new_usage_plot :: "bool \<Rightarrow> bool \<Rightarrow> bool \<Rightarrow> bool \<Rightarrow> (string \<times> mapper) list" where
  "new_usage_plot tx rx cpu mem =
     (if tx then [(''-tx'', column ns_tx)] else []) @ (if rx then [(''-rx'', column ns_rx)] else [])
     @ (if cpu then [(''-cpu'', column ns_cpu)] else []) @ (if mem then [(''-mem'', column ns_memory)] else [])"

type_synonym point = "float64 \<times> float64"

fun make_points_from :: "nat \<Rightarrow> int list \<Rightarrow> node_stats \<Rightarrow> mapper \<Rightarrow> point list outcome" where
  "make_points_from i [] ns m = Return []"
| "make_points_from i (ts # tss) ns m =
     obind (m i ns) (\<lambda>y. obind (make_points_from (Suc i) tss ns m) (\<lambda>ps.
       Return ((f64_of_int ts, y) # ps)))"

definition make_points :: "node_stats \<Rightarrow> mapper \<Rightarrow> point list outcome" where
  "make_points ns m = make_points_from 0 (ns_timestamps ns) ns m"

type_synonym plot_line = "string \<times> point list"

fun node_lines :: "string \<Rightarrow> node_stats \<Rightarrow> (string \<times> mapper) list \<Rightarrow> plot_line list outcome" where
  "node_lines node ns [] = Return []"
| "node_lines node ns ((prefix, m) # ms) =
     obind (make_points ns m) (\<lambda>points. obind (node_lines node ns ms) (\<lambda>ls.
       Return ((node @ prefix, points) # ls)))"

text \<open>\<open>morder node\<close> is the order of the loop over the mappers for that node.\<close>

fun plot_lines :: "(string \<Rightarrow> (string \<times> mapper) list \<Rightarrow> (string \<times> mapper) list)
    \<Rightarrow> (string \<times> mapper) list \<Rightarrow> (string \<times> node_stats) list \<Rightarrow> string list \<Rightarrow> plot_line list outcome" where
  "plot_lines morder mappers nodes [] = Return []"
| "plot_lines morder mappers nodes (k # ks) =
     obind (node_lines k (get_or (map_of nodes) k empty_node_stats) (morder k mappers)) (\<lambda>ls.
     obind (plot_lines morder mappers nodes ks) (\<lambda>rest. Return (ls @ rest)))"

text \<open>Nanoseconds to seconds; tags of the same second are joined in the order of the loop.\<close>

definition tag_step :: "int \<times> string \<Rightarrow> (int \<rightharpoonup> string) \<Rightarrow> (int \<rightharpoonup> string)" where
  "tag_step e tags =
     (let (ts, tag) = e; key = quot ts (1000 * 1000 * 1000)
      in case tags key of
           Some label \<Rightarrow> tags(key \<mapsto> label @ '', '' @ tag)
         | None \<Rightarrow> tags(key \<mapsto> tag))"

definition process_tags :: "((int \<times> string) list \<Rightarrow> (int \<times> string) list) \<Rightarrow> (int \<times> string) list
    \<Rightarrow> (int \<rightharpoonup> string)" where
  "process_tags ord raw = fold tag_step (ord raw) Map.empty"

record plot_data =
  plot_content :: "plot_line list"
  plot_tags :: "int \<rightharpoonup> string"

text \<open>The plot factory and the processor of the library may fail.\<close>

definition plot_process :: "(string \<Rightarrow> (string \<times> mapper) list \<Rightarrow> (string \<times> mapper) list)
    \<Rightarrow> (string list \<Rightarrow> string list) \<Rightarrow> ((int \<times> string) list \<Rightarrow> (int \<times> string) list)
    \<Rightarrow> gerror option \<Rightarrow> (plot_line list \<Rightarrow> gerror option) \<Rightarrow> (string \<times> mapper) list \<Rightarrow> stats
    \<Rightarrow> (gerror + plot_data) outcome" where
  "plot_process morder ord tord factory processor mappers st =
     obind (plot_lines morder mappers (stats_nodes st) (sort (ord (map fst (stats_nodes st))))) (\<lambda>lines.
       case factory of Some err \<Rightarrow> Return (Inl err)
       | None \<Rightarrow>
          let tags = process_tags tord (stats_tags st) in
          (case processor lines of Some err \<Rightarrow> Return (Inl err)
           | None \<Rightarrow> Return (Inr \<lparr>plot_content = lines, plot_tags = tags\<rparr>)))"

text \<open>\<open>generateGraph\<close>: the image is removed again when it cannot be saved. The second component
  is the file that is left at the output path.\<close>

definition generate_graph :: "((string \<times> mapper) list \<Rightarrow> stats \<Rightarrow> (gerror + plot_data) outcome)
    \<Rightarrow> (plot_data \<Rightarrow> gerror option) \<Rightarrow> gerror + (gerror + stats) \<Rightarrow> bool \<Rightarrow> bool \<Rightarrow> bool \<Rightarrow> bool
    \<Rightarrow> plot_data option \<Rightarrow> ((gerror + unit) \<times> plot_data option) outcome" where
  "generate_graph process save input tx rx cpu mem old =
     (case read_stats input of
        Inl err \<Rightarrow> Return (Inl err, old)
      | Inr st \<Rightarrow>
          obind (process (new_usage_plot tx rx cpu mem) st) (\<lambda>r. case r of
            Inl err \<Rightarrow> Return (Inl (Msg ''couldn't create the plot''), old)
          | Inr plot \<Rightarrow>
             (case save plot of
                Some err \<Rightarrow> Return (Inl (Msg ''couldn't save the plot image''), None)
              | None \<Rightarrow> Return (Inr (), Some plot))))"

text \<open>
  The table of commands of \<open>main\<close>: the names that select an action, and the action on the input and
  the output path. The command-line library, which chooses the action and parses the paths, is \<open>cli\<close>.
\<close>

definition simplot_commands :: "(string \<Rightarrow> string \<Rightarrow> bool \<Rightarrow> bool \<Rightarrow> bool \<Rightarrow> bool \<Rightarrow> 'r) \<Rightarrow> (string \<Rightarrow> 'r)
    \<Rightarrow> (string \<Rightarrow> 'r) \<Rightarrow> (string list \<times> (string \<Rightarrow> string \<Rightarrow> 'r)) list" where
  "simplot_commands graph maxima averages =
     [([''graph'', ''cpu''], \<lambda>input output. graph input output False False True False),
      ([''graph'', ''mem''], \<lambda>input output. graph input output False False False True),
      ([''graph'', ''tx''], \<lambda>input output. graph input output True False False False),
      ([''graph'', ''rx''], \<lambda>input output. graph input output False True False False),
      ([''max''], \<lambda>input output. maxima input),
      ([''average''], \<lambda>input output. averages input)]"

definition simplot_main :: "gerror + string \<Rightarrow> (string \<Rightarrow> string \<Rightarrow> gerror option) \<Rightarrow> unit outcome" where
  "simplot_main home cli =
     (case home of
        Inl err \<Rightarrow> Panic (error_text (errorf ''couldn't find home directory'' err))
      | Inr dir \<Rightarrow>
          (case cli (path_join [dir, ''.config'', ''simnet'', ''result.json'']) ''example.png'' of
             Some err \<Rightarrow> Panic (error_text err)
           | None \<Rightarrow> Return ()))"

record tick =
  tick_value :: float64
  tick_label :: string

definition label_step :: "int \<Rightarrow> int \<times> string \<Rightarrow> tick list \<Rightarrow> tick list" where
  "label_step start e tks =
     (let (key, tag) = e; i = wrap64 (key - start)
      in if 0 \<le> i \<and> i < int (length tks) then tks[nat i := (tks ! nat i)\<lparr>tick_label := tag\<rparr>] else tks)"

text \<open>The tags of a \<open>tagTicks\<close> are iterated over: the entries of the map, in some order.\<close>

definition ticks :: "(float64 \<Rightarrow> int) \<Rightarrow> (int \<times> string) list \<Rightarrow> float64 \<Rightarrow> float64 \<Rightarrow> tick list outcome" where
  "ticks ood entries mn mx =
     (let n = f64_to_int ood (mx - mn + Fin 1) in
      if n < 0 then Panic ''makeslice: len out of range''
      else Return (fold (label_step (f64_to_int ood mn)) entries
             (map (\<lambda>i. \<lparr>tick_value = f64_of_int (wrap64 (f64_to_int ood mn + int i)),
                        tick_label = ''+'' @ show_nat i @ ''s''\<rparr>) [0..<nat n])))"

section \<open>Human-readable sizes\<close>

text \<open>Dividing a float that is not tiny by 1024 is exact.\<close>

lemma div_1024:
  assumes "rnd_rat v = v" and "1 \<le> v" and "v \<le> pow2 1000"
  shows "Fin v div Fin 1024 = Fin (v / 1024)" and "rnd_rat (v / 1024) = v / 1024"
proof -
  obtain m where m: "v = of_int m * pow2 (ulp_exp v)" "\<bar>m\<bar> \<le> 2 ^ 53"
    using rnd_rat_format [of v] assms(1) by metis
  have "ilog2 1 = 0" by (rule ilog2_eqI) simp_all
  then have "0 \<le> ilog2 \<bar>v\<bar>" using ilog2_mono [of 1 v] assms(2) by simp
  then have u: "- 52 \<le> ulp_exp v" by (simp add: ulp_exp_def)
  have "pow2 (ulp_exp v) / 1024 = pow2 (ulp_exp v - 10)" by (simp add: pow2_diff)
  then have "v / 1024 = of_int m * pow2 (ulp_exp v - 10)"
    by (subst m(1)) (metis times_divide_eq_right)
  then show exact: "rnd_rat (v / 1024) = v / 1024"
    using m(2) u by (intro rnd_rat_exact [of _ m "ulp_exp v - 10"]) simp_all
  have "\<bar>v / 1024\<bar> \<le> pow2 1000" using assms(2,3) by (simp del: pow2_pos)
  then show "Fin v div Fin 1024 = Fin (v / 1024)" using rnd_bounded exact by simp
qed

definition human_scale :: "rat \<Rightarrow> nat" where
  "human_scale v = (if v \<le> 1024 then 0 else if v \<le> 1024 ^ 2 then 1 else if v \<le> 1024 ^ 3 then 2 else 3)"

lemma human_loop_stop: "v \<le> 1024 \<Longrightarrow> s < 4 \<Longrightarrow> human_loop fuel (Fin v) s = Return (Fin v, s)"
  by (subst human_loop.simps) (simp add: HumanSuffixes_def)

lemma human_loop_next:
  assumes "rnd_rat v = v" and "1024 < v" and "v \<le> pow2 1000" and "0 \<le> s" and "s < 4"
  shows "human_loop (Suc fuel) (Fin v) s = human_loop fuel (Fin (v / 1024)) (s + 1)"
  using assms div_1024(1) [of v]
  by (subst human_loop.simps) (simp add: wrap64_id in_int64_def)

lemma human_loop_result:
  assumes "rnd_rat v = v" and "v \<le> 2 ^ 40" and "3 \<le> fuel"
  shows "human_loop fuel (Fin v) 0 = Return (Fin (v / 1024 ^ human_scale v), int (human_scale v))"
proof -
  obtain f where f: "fuel = Suc (Suc (Suc f))"
    using assms(3) by (metis Suc_le_D numeral_3_eq_3 Suc_le_mono)
  have big: "x \<le> 2 ^ 40 \<Longrightarrow> x \<le> pow2 1000" for x
    using pow2_le_iff [of 40 1000] by (simp del: pow2_le_iff)
  have next1: "human_loop (Suc n) (Fin x) s = human_loop n (Fin (x / 1024)) (s + 1)
      \<and> rnd_rat (x / 1024) = x / 1024 \<and> x / 1024 \<le> 2 ^ 40"
    if "rnd_rat x = x" "1024 < x" "x \<le> 2 ^ 40" "0 \<le> s" "s < 4" for n x s
    using that human_loop_next div_1024(2) big by auto
  consider "v \<le> 1024" | "1024 < v" "v \<le> 1024 ^ 2" | "1024 ^ 2 < v" "v \<le> 1024 ^ 3" | "1024 ^ 3 < v"
    by linarith
  then show ?thesis
  proof cases
    case 1
    then show ?thesis by (simp add: human_scale_def human_loop_stop)
  next
    case 2
    then show ?thesis
      using assms f next1 [of v 0] by (simp add: human_scale_def human_loop_stop)
  next
    case 3
    then show ?thesis
      using assms f next1 [of v 0] next1 [of "v / 1024" 1] by (simp add: human_scale_def human_loop_stop)
  next
    case 4
    then show ?thesis
      using assms f next1 [of v 0] next1 [of "v / 1024" 1] next1 [of "v / 1024 / 1024" 2]
      by (simp add: human_scale_def human_loop_stop)
  qed
qed

lemma human_loop_late:
  "4 \<le> s \<Longrightarrow> s + int fuel < 2 ^ 63 \<Longrightarrow> human_loop fuel v s = Blocked"
proof (induction fuel arbitrary: v s)
  case 0
  then show ?case by (subst human_loop.simps) (simp add: HumanSuffixes_def)
next
  case (Suc fuel)
  then show ?case
    by (subst human_loop.simps) (simp add: HumanSuffixes_def wrap64_id in_int64_def)
qed

lemma human_loop_blocked:
  assumes "rnd_rat v = v" and "1024 ^ nat (4 - s) < v" and "v \<le> pow2 1000" and "0 \<le> s"
    and "s \<le> 4" and "s + int fuel < 2 ^ 63"
  shows "human_loop fuel (Fin v) s = Blocked"
  using assms
proof (induction fuel arbitrary: v s)
  case 0
  show ?case
  proof (cases "s = 4")
    case False
    then have "1 \<le> nat (4 - s)" using 0 by simp
    then have "(1024 :: rat) ^ 1 \<le> 1024 ^ nat (4 - s)" by (intro power_increasing) simp_all
    then have "1024 < v" using 0 by simp
    then show ?thesis by (subst human_loop.simps) simp
  qed (use 0 human_loop_late in simp)
next
  case (Suc fuel)
  show ?case
  proof (cases "s = 4")
    case False
    then have n: "nat (4 - s) = Suc (nat (4 - (s + 1)))" using Suc.prems by simp
    have one: "(1 :: rat) \<le> 1024 ^ nat (4 - (s + 1))" by simp
    have v: "1024 * 1024 ^ nat (4 - (s + 1)) < v" using Suc.prems(2) unfolding n by simp
    then have v': "1024 ^ nat (4 - (s + 1)) < v / 1024" by (simp add: pos_less_divide_eq mult.commute)
    have big: "1024 < v" using v one by linarith
    then have le: "v / 1024 \<le> pow2 1000" using Suc.prems(3) by (simp del: pow2_pos)
    have "human_loop fuel (Fin (v / 1024)) (s + 1) = Blocked"
      using Suc.prems v' le big False div_1024(2) [of v] by (intro Suc.IH) simp_all
    then show ?thesis using Suc.prems big False by (subst human_loop_next) simp_all
  qed (use Suc.prems human_loop_late in simp)
qed

text \<open>Counters as floats: finite, and on the same side of \<open>2 ^ 40\<close>.\<close>

definition human_limit :: nat where
  "human_limit = 2 ^ 40"

lemma f64_of_counter:
  obtains y where "f64_of_uint64 w = Fin y" and "rnd_rat y = y" and "0 \<le> y" and "y \<le> pow2 1000"
    and "y \<le> 2 ^ 40 \<longleftrightarrow> unat w \<le> human_limit"
proof -
  obtain i where i: "f64_of_uint64 w = Fin (of_int i)" "0 \<le> i" "i \<le> 2 ^ 64"
    by (rule f64_of_uint64_Fin)
  have "\<bar>uint w\<bar> \<le> 2 ^ 64" by (simp add: less_imp_le)
  then obtain y where y: "f64_of_int (uint w) = Fin y" "y = rnd_rat (of_int (uint w))"
    by (rule f64_of_int64)
  then have yi: "y = of_int i" using i(1) by (simp add: f64_of_uint64_def)
  have "(of_int i :: rat) \<le> of_int (2 ^ 64)" using i(3) by (simp only: of_int_le_iff)
  also have "\<dots> = pow2 64" by simp
  also have "\<dots> \<le> pow2 1000" by (subst pow2_le_iff) simp
  finally have "y \<le> pow2 1000" by (simp add: yi)
  moreover have "y \<le> 2 ^ 40 \<longleftrightarrow> uint w \<le> 2 ^ 40"
  proof
    assume "uint w \<le> 2 ^ 40"
    then have "(of_int (uint w) :: rat) \<le> of_int (2 ^ 40)" by (simp only: of_int_le_iff)
    then have "rnd_rat (of_int (uint w)) \<le> of_int (2 ^ 40)"
      by (intro rnd_rat_le rnd_rat_int) simp_all
    then show "y \<le> 2 ^ 40" by (simp add: y(2))
  next
    assume le: "y \<le> 2 ^ 40"
    show "uint w \<le> 2 ^ 40"
    proof (rule ccontr)
      assume "\<not> uint w \<le> 2 ^ 40"
      then have "2 ^ 40 + 1 \<le> uint w" by simp
      then have "(of_int (2 ^ 40 + 1) :: rat) \<le> of_int (uint w)" by (simp only: of_int_le_iff)
      then have "of_int (2 ^ 40 + 1) \<le> rnd_rat (of_int (uint w))"
        by (intro rnd_rat_ge rnd_rat_int) simp_all
      then show False using le by (simp add: y(2))
    qed
  qed
  moreover have "uint w \<le> 2 ^ 40 \<longleftrightarrow> unat w \<le> human_limit"
    unfolding human_limit_def uint_nat by (metis of_nat_le_iff of_nat_numeral of_nat_power)
  moreover have "rnd_rat y = y" by (simp add: y(2))
  ultimately show thesis using that i yi y by (simp add: f64_of_uint64_def)
qed

definition human_text :: "rat \<Rightarrow> string" where
  "human_text v = pad_left 6 (f64_fmt2 (Fin (v / 1024 ^ human_scale v))) @ '' '' @ HumanSuffixes ! human_scale v"

definition human_word :: "uint64 \<Rightarrow> string" where
  "human_word w = (case f64_of_uint64 w of Fin v \<Rightarrow> human_text v | _ \<Rightarrow> '''')"

lemma human_scale_4: "human_scale v < 4"
  by (simp add: human_scale_def)

lemma int2human_text:
  "rnd_rat v = v \<Longrightarrow> v \<le> 2 ^ 40 \<Longrightarrow> 3 \<le> fuel \<Longrightarrow> int2human fuel (Fin v) = Return (human_text v)"
  using human_scale_4 [of v]
  by (simp add: int2human_def human_loop_result human_text_def HumanSuffixes_def)

lemma int2human_blocked:
  "rnd_rat v = v \<Longrightarrow> 2 ^ 40 < v \<Longrightarrow> v \<le> pow2 1000 \<Longrightarrow> fuel < 2 ^ 63 \<Longrightarrow> int2human fuel (Fin v) = Blocked"
  using human_loop_blocked [of v 0 fuel] by (simp add: int2human_def)

lemma int2human_word:
  assumes "3 \<le> fuel" and "fuel < 2 ^ 63"
  shows "int2human fuel (f64_of_uint64 w) = (if unat w \<le> human_limit then Return (human_word w) else Blocked)"
proof -
  obtain y where "f64_of_uint64 w = Fin y" "rnd_rat y = y" "y \<le> pow2 1000" "y \<le> 2 ^ 40 \<longleftrightarrow> unat w \<le> human_limit"
    by (rule f64_of_counter)
  then show ?thesis
    using int2human_text [of y fuel] int2human_blocked [of y fuel] assms by (auto simp: human_word_def)
qed

section \<open>Printing\<close>

definition readable_sizes :: "node_stats \<Rightarrow> bool" where
  "readable_sizes ns \<longleftrightarrow> (\<forall>w \<in> set (ns_memory ns) \<union> set (ns_rx ns) \<union> set (ns_tx ns). unat w \<le> human_limit)"

definition column_max :: "uint64 list \<Rightarrow> uint64" where
  "column_max xs = fold max xs 0"

definition max_text :: "string \<Rightarrow> node_stats \<Rightarrow> string" where
  "max_text node ns =
     ''Node <'' @ node @ ''>'' @ [CHR 0x09] @ '': ''
     @ pad_left 8 (f64_fmt2 (f64_of_uint64 (column_max (ns_cpu ns)) div Fin 100)) @ ''%''
     @ [CHR 0x09] @ human_word (column_max (ns_memory ns)) @ [CHR 0x09] @ human_word (column_max (ns_rx ns))
     @ [CHR 0x09] @ human_word (column_max (ns_tx ns))"

lemma column_max_limit: "unat (column_max xs) \<le> human_limit \<longleftrightarrow> (\<forall>w \<in> set xs. unat w \<le> human_limit)"
proof
  assume "unat (column_max xs) \<le> human_limit"
  then show "\<forall>w \<in> set xs. unat w \<le> human_limit"
    using fold_max_ge [of _ xs 0] by (fastforce simp: column_max_def word_le_nat_alt intro: order_trans)
next
  assume "\<forall>w \<in> set xs. unat w \<le> human_limit"
  then show "unat (column_max xs) \<le> human_limit"
    using fold_max_in [of xs 0] by (auto simp: column_max_def)
qed

lemma max_line_wf:
  assumes "stats_wf ns" and "3 \<le> fuel" and "fuel < 2 ^ 63"
  shows "max_line fuel node ns = (if readable_sizes ns then Return (max_text node ns) else Blocked)"
proof -
  have max: "stats_max ns = Return (column_max (ns_cpu ns), column_max (ns_memory ns),
      column_max (ns_tx ns), column_max (ns_rx ns))"
    using assms(1) by (simp add: stats_max_wf column_max_def)
  have "readable_sizes ns \<longleftrightarrow> unat (column_max (ns_memory ns)) \<le> human_limit
      \<and> unat (column_max (ns_rx ns)) \<le> human_limit \<and> unat (column_max (ns_tx ns)) \<le> human_limit"
    unfolding column_max_limit readable_sizes_def by auto
  then show ?thesis
    using assms(2,3) by (simp add: max_line_def max int2human_word max_text_def)
qed

lemma for_each_result:
  assumes "\<forall>k \<in> set ks. fn k (get_or (map_of nodes) k empty_node_stats) = (if P k then Return (g k) else Blocked)"
  shows "for_each fn nodes ks out =
    (out @ map g (takeWhile P ks), if \<forall>k \<in> set ks. P k then Return () else Blocked)"
  using assms by (induction ks arbitrary: out) auto

lemma sort_range_order: "range_order ord \<Longrightarrow> sort (ord xs) = sort xs" for xs :: "'a :: linorder list"
  by (rule properties_for_sort) (simp_all add: range_order_mset)

section \<open>Tags and ticks\<close>

definition tag_second :: "int \<Rightarrow> int" where
  "tag_second ts = quot ts 1000000000"

lemma fold_tag_step:
  "fold tag_step es tags k =
     (let new = map snd (filter (\<lambda>(ts, _). tag_second ts = k) es)
      in case tags k of
           Some label \<Rightarrow> Some (join '', '' (label # new))
         | None \<Rightarrow> if new = [] then None else Some (join '', '' new))"
proof (induction es arbitrary: tags)
  case (Cons e es)
  obtain ts tag where e: "e = (ts, tag)" by (cases e)
  have join2: "join '', '' ((a @ '', '' @ b) # xs) = join '', '' (a # b # xs)" for a b xs
    by (cases xs) simp_all
  have "tag_step e tags = tags(tag_second ts \<mapsto>
      (case tags (tag_second ts) of Some label \<Rightarrow> label @ '', '' @ tag | None \<Rightarrow> tag))"
    by (simp add: tag_step_def e tag_second_def Let_def split: option.splits)
  then show ?case
    using join2 by (simp add: Cons.IH e Let_def split: option.splits)
qed (simp split: option.splits)

lemma fold_label_step_length [simp]: "length (fold (label_step start) es tks) = length tks"
  by (induction es arbitrary: tks) (auto simp: label_step_def Let_def)

lemma fold_label_step_nth:
  assumes "i < length tks" and "distinct (map fst es)" and "\<forall>k \<in> fst ` set es. in_int64 (k - start)"
  shows "fold (label_step start) es tks ! i =
    (case map_of es (start + int i) of
       Some tag \<Rightarrow> (tks ! i)\<lparr>tick_label := tag\<rparr> | None \<Rightarrow> tks ! i)"
  using assms
proof (induction es arbitrary: tks)
  case (Cons e es)
  obtain k tag where e: "e = (k, tag)" by (cases e)
  have w: "wrap64 (k - start) = k - start" using Cons.prems(3) by (simp add: e wrap64_id)
  have len: "length (label_step start (k, tag) tks) = length tks" by (simp add: label_step_def e Let_def)
  have "label_step start (k, tag) tks ! i = (if k = start + int i then (tks ! i)\<lparr>tick_label := tag\<rparr> else tks ! i)"
  proof (cases "k = start + int i")
    case True
    with w have "wrap64 (int i) = int i" by simp
    with True show ?thesis using Cons.prems(1) by (simp add: label_step_def e Let_def)
  next
    case False
    then show ?thesis by (auto simp: label_step_def e w Let_def nth_list_update)
  qed
  moreover have "map_of es (start + int i) = None" if "k = start + int i"
    using Cons.prems(2) that by (simp add: e map_of_eq_None_iff)
  ultimately show ?case
    using Cons.IH [of "label_step start (k, tag) tks"] Cons.prems len
    by (auto simp: e split: option.splits)
qed simp

section \<open>Plots\<close>

definition usage_fields :: "bool \<Rightarrow> bool \<Rightarrow> bool \<Rightarrow> bool \<Rightarrow> (string \<times> (node_stats \<Rightarrow> uint64 list)) list" where
  "usage_fields tx rx cpu mem =
     (if tx then [(''-tx'', ns_tx)] else []) @ (if rx then [(''-rx'', ns_rx)] else [])
     @ (if cpu then [(''-cpu'', ns_cpu)] else []) @ (if mem then [(''-mem'', ns_memory)] else [])"

lemma new_usage_plot_fields:
  "new_usage_plot tx rx cpu mem = map (\<lambda>(p, f). (p, column f)) (usage_fields tx rx cpu mem)"
  by (simp add: new_usage_plot_def usage_fields_def)

definition field_points :: "node_stats \<Rightarrow> (node_stats \<Rightarrow> uint64 list) \<Rightarrow> point list" where
  "field_points ns f = zip (map f64_of_int (ns_timestamps ns)) (map f64_of_uint64 (f ns))"

lemma make_points_from_column:
  "length (f ns) = i + length tss \<Longrightarrow>
   make_points_from i tss ns (column f) = Return (zip (map f64_of_int tss) (map f64_of_uint64 (drop i (f ns))))"
proof (induction tss arbitrary: i)
  case (Cons ts tss)
  then have "i < length (f ns)" by simp
  then have "drop i (f ns) = f ns ! i # drop (Suc i) (f ns)" by (rule Cons_nth_drop_Suc [symmetric])
  with Cons \<open>i < length (f ns)\<close> show ?case by (simp add: column_def index_def)
qed simp

text \<open>The lines of a node, for any order of the mappers.\<close>

definition unit_lines :: "bool \<Rightarrow> bool \<Rightarrow> bool \<Rightarrow> bool \<Rightarrow> string \<Rightarrow> node_stats \<Rightarrow> plot_line list" where
  "unit_lines tx rx cpu mem k ns =
     map (\<lambda>(p, f). (k @ p, field_points ns f)) (usage_fields tx rx cpu mem)"

lemma node_lines_wf:
  assumes "stats_wf ns" and "mset fs = mset (usage_fields tx rx cpu mem)"
  shows "node_lines k ns (map (\<lambda>(p, f). (p, column f)) fs) = Return (map (\<lambda>(p, f). (k @ p, field_points ns f)) fs)"
proof -
  have pts: "\<forall>(p, f) \<in> set fs. make_points ns (column f) = Return (field_points ns f)"
  proof (clarify)
    fix p f assume "(p, f) \<in> set fs"
    then have "(p, f) \<in> set (usage_fields tx rx cpu mem)" using assms(2) by (metis set_mset_mset)
    then have "length (f ns) = length (ns_timestamps ns)"
      using assms(1) by (auto simp: usage_fields_def stats_wf_def Let_def split: if_splits)
    then show "make_points ns (column f) = Return (field_points ns f)"
      using make_points_from_column [of f ns 0 "ns_timestamps ns"] by (simp add: make_points_def field_points_def)
  qed
  then show ?thesis by (induction fs) auto
qed

lemma permuted_map:
  assumes "mset ys = mset (map g xs)"
  shows "\<exists>xs'. ys = map g xs' \<and> mset xs' = mset xs"
  using assms
proof (induction ys arbitrary: xs)
  case (Cons y ys)
  then have "y \<in> set (map g xs)" by (metis list.set_intros(1) set_mset_mset)
  then obtain x a b where x: "xs = a @ x # b" "y = g x" by (auto dest: split_list)
  then have "mset ys = mset (map g (a @ b))" using Cons.prems by simp
  from Cons.IH [OF this] obtain xs' where "ys = map g xs'" "mset xs' = mset (a @ b)" by blast
  with x show ?case by (intro exI [of _ "x # xs'"]) simp
qed simp

lemma mset_eq_pairD:
  assumes "mset xs = {#a, b#}"
  shows "length xs = 2 \<and> (xs = [a, b] \<or> xs = [b, a])"
proof -
  have "size (mset xs) = 2" unfolding assms by simp
  then obtain u v where "xs = [u, v]" by (auto simp: length_Suc_conv numeral_2_eq_2)
  then show ?thesis using assms by (auto simp: add_eq_conv_diff split: if_splits)
qed

lemma plot_lines_wf:
  assumes "\<forall>k \<in> set ks. stats_wf (get_or (map_of nodes) k empty_node_stats)" and "\<forall>k. range_order (morder k)"
  shows "\<exists>groups. plot_lines morder (new_usage_plot tx rx cpu mem) nodes ks = Return (concat groups)
     \<and> list_all2 (\<lambda>k group. mset group = mset (unit_lines tx rx cpu mem k (get_or (map_of nodes) k empty_node_stats)))
         ks groups"
  using assms(1)
proof (induction ks)
  case (Cons k ks)
  let ?ns = "get_or (map_of nodes) k empty_node_stats"
  have "mset (morder k (new_usage_plot tx rx cpu mem)) = mset (map (\<lambda>(p, f). (p, column f)) (usage_fields tx rx cpu mem))"
    using assms(2) by (simp add: range_order_mset new_usage_plot_fields)
  then obtain fs where fs: "morder k (new_usage_plot tx rx cpu mem) = map (\<lambda>(p, f). (p, column f)) fs"
      "mset fs = mset (usage_fields tx rx cpu mem)"
    using permuted_map by blast
  let ?group = "map (\<lambda>(p, f). (k @ p, field_points ?ns f)) fs"
  have "stats_wf ?ns" using Cons.prems by simp
  moreover have "mset ?group = mset (unit_lines tx rx cpu mem k ?ns)"
    using fs(2) by (simp add: unit_lines_def)
  moreover obtain groups where "plot_lines morder (new_usage_plot tx rx cpu mem) nodes ks = Return (concat groups)"
      "list_all2 (\<lambda>k group. mset group = mset (unit_lines tx rx cpu mem k (get_or (map_of nodes) k empty_node_stats))) ks groups"
    using Cons by auto
  ultimately show ?case
    using fs by (intro exI [of _ "?group # groups"]) (simp add: node_lines_wf)
qed (intro exI [of _ "[]"], simp)

section \<open>Properties\<close>

text \<open>
  C31: Sizes up to \<open>2 ^ 40\<close> bytes are printed with the right unit: three rounds are enough, the
  scaled value is exact and lies below 1024 with the least such unit. For a larger value the loop
  goes on past the last unit: it is still running after any number of rounds below \<open>2 ^ 63\<close>.
\<close>

theorem int2human_spec:
  assumes "rnd_rat v = v" and "0 \<le> v" and "v \<le> 2 ^ 1000"
  shows "(v \<le> 2 ^ 40 \<and> 3 \<le> fuel \<longrightarrow>
            (\<exists>k < 4. int2human fuel (Fin v)
                 = Return (pad_left 6 (f64_fmt2 (Fin (v / 1024 ^ k))) @ '' '' @ [''B'', ''KiB'', ''MiB'', ''GiB''] ! k)
               \<and> v / 1024 ^ k \<le> 1024 \<and> (\<forall>j < k. 1024 < v / 1024 ^ j)))
    \<and> (2 ^ 40 < v \<and> fuel < 2 ^ 63 \<longrightarrow> int2human fuel (Fin v) = Blocked)"
proof -
  have "v / 1024 ^ human_scale v \<le> 1024 \<and> (\<forall>j < human_scale v. 1024 < v / 1024 ^ j)" if "v \<le> 2 ^ 40"
    using that by (auto simp: human_scale_def less_Suc_eq numeral_2_eq_2 numeral_3_eq_3)
  moreover have "int2human fuel (Fin v) = Blocked" if "2 ^ 40 < v" "fuel < 2 ^ 63"
    using int2human_blocked [of v fuel] assms that by simp
  ultimately show ?thesis
    using int2human_text [of v fuel] human_scale_4 [of v] assms
    by (auto simp: human_text_def HumanSuffixes_def intro!: exI [of _ "human_scale v"])
qed

theorem int2human_spec_witness:
  "int2human 100 (Fin 1099511627776) = Return ''1024.00 GiB'' \<and> int2human 1000000 (Fin 2199023255552) = Blocked"
proof -
  have f: "rnd_rat 1099511627776 = 1099511627776" "rnd_rat 2199023255552 = 2199023255552"
    using rnd_rat_int [of 1099511627776] rnd_rat_int [of 2199023255552] by simp_all
  have p: "(0 :: rat) \<le> 1099511627776" "(1099511627776 :: rat) \<le> 2 ^ 1000"
    "(1099511627776 :: rat) \<le> 2 ^ 40 \<and> (3 :: nat) \<le> 100" by simp_all
  obtain k where k: "k < 4" "(1099511627776 :: rat) / 1024 ^ k \<le> 1024"
    "int2human 100 (Fin 1099511627776) = Return (pad_left 6 (f64_fmt2 (Fin (1099511627776 / 1024 ^ k))) @ '' ''
       @ [''B'', ''KiB'', ''MiB'', ''GiB''] ! k)"
    using int2human_spec [OF f(1) p(1,2), THEN conjunct1, THEN mp, OF p(3)] by (elim exE conjE)
  consider "k = 0" | "k = 1" | "k = 2" | "k = 3" using k(1) by linarith
  then have "k = 3" using k(2) by cases simp_all
  moreover have "f64_fmt2 (Fin 1024) = ''1024.00''"
    using rne_of_int [of 102400] by (simp add: show_cents_def show_nat.simps)
  then have "pad_left 6 (f64_fmt2 (Fin 1024)) = ''1024.00''" by (simp add: pad_left_def)
  ultimately have "int2human 100 (Fin 1099511627776) = Return ''1024.00 GiB''" using k(3) by simp
  moreover have "int2human 1000000 (Fin 2199023255552) = Blocked"
    using int2human_spec [OF f(2), of 1000000] by simp
  ultimately show ?thesis by (rule conjI)
qed

text \<open>
  C32: Whatever the order of the map of nodes, \<open>simplot max\<close> prints one line per node in the
  order of the names. It returns exactly when no node has a counter above \<open>2 ^ 40\<close> bytes;
  otherwise it prints the lines before the first such node and never returns.
\<close>

theorem print_max_spec:
  assumes "range_order ord" and "\<forall>(k, ns) \<in> set (stats_nodes st). stats_wf ns"
    and "distinct (map fst (stats_nodes st))" and "3 \<le> fuel" and "fuel < 2 ^ 63"
  shows "print_max fuel ord (Inr (Inr st)) =
     (''Maximum of [CPU Memory Rx Tx]:''
        # map (\<lambda>k. max_text k (the (map_of (stats_nodes st) k)))
            (takeWhile (\<lambda>k. readable_sizes (the (map_of (stats_nodes st) k))) (sort (map fst (stats_nodes st)))),
      if \<forall>(k, ns) \<in> set (stats_nodes st). readable_sizes ns then Return (Inr ()) else Blocked)"
proof -
  let ?ns = "\<lambda>k. the (map_of (stats_nodes st) k)" and ?ks = "sort (map fst (stats_nodes st))"
  have in_map: "map_of (stats_nodes st) k = Some ns \<longleftrightarrow> (k, ns) \<in> set (stats_nodes st)" for k ns
    using assms(3) by (rule map_of_eq_Some_iff)
  have known: "\<exists>ns. map_of (stats_nodes st) k = Some ns \<and> (k, ns) \<in> set (stats_nodes st)" if "k \<in> set ?ks" for k
    using that in_map by auto
  have "max_line fuel k (get_or (map_of (stats_nodes st)) k empty_node_stats)
      = (if readable_sizes (?ns k) then Return (max_text k (?ns k)) else Blocked)" if "k \<in> set ?ks" for k
    using known [OF that] assms(2,4,5) max_line_wf by (auto simp: get_or_def)
  then have "for_each (max_line fuel) (stats_nodes st) ?ks [''Maximum of [CPU Memory Rx Tx]:''] =
      ([''Maximum of [CPU Memory Rx Tx]:'']
         @ map (\<lambda>k. max_text k (?ns k)) (takeWhile (\<lambda>k. readable_sizes (?ns k)) ?ks),
       if \<forall>k \<in> set ?ks. readable_sizes (?ns k) then Return () else Blocked)"
    by (intro for_each_result) blast
  moreover have "(\<forall>k \<in> set ?ks. readable_sizes (?ns k)) \<longleftrightarrow> (\<forall>(k, ns) \<in> set (stats_nodes st). readable_sizes ns)"
    using known in_map by force
  ultimately show ?thesis
    using sort_range_order [OF assms(1), of "map fst (stats_nodes st)"]
    by (simp add: print_max_def print_nodes_def read_stats_def for_each_ordered_def)
qed

definition two_nodes :: stats where
  "two_nodes = new_stats\<lparr>stats_nodes := [(''node1'', series_of []), (''node0'', three_samples)]\<rparr>"

theorem print_max_spec_witness:
  "length (fst (print_max 3 rev (Inr (Inr two_nodes)))) = 3 \<and> snd (print_max 3 rev (Inr (Inr two_nodes))) = Return (Inr ())"
proof -
  have "range_order rev" by (rule range_order_id)
  moreover have "\<forall>(k, ns) \<in> set (stats_nodes two_nodes). stats_wf ns"
    by (simp add: two_nodes_def three_samples_wf)
  moreover have "distinct (map fst (stats_nodes two_nodes))" by (simp add: two_nodes_def)
  ultimately have "print_max 3 rev (Inr (Inr two_nodes)) =
     (''Maximum of [CPU Memory Rx Tx]:''
        # map (\<lambda>k. max_text k (the (map_of (stats_nodes two_nodes) k)))
            (takeWhile (\<lambda>k. readable_sizes (the (map_of (stats_nodes two_nodes) k))) (sort (map fst (stats_nodes two_nodes)))),
      if \<forall>(k, ns) \<in> set (stats_nodes two_nodes). readable_sizes ns then Return (Inr ()) else Blocked)"
    by (rule print_max_spec) simp_all
  moreover have "readable_sizes (series_of [])" "readable_sizes three_samples"
    by (simp_all add: readable_sizes_def series_of_def three_samples_def human_limit_def)
  ultimately show ?thesis by (simp add: two_nodes_def)
qed

text \<open>
  C30: The plot: the lines of a node stand together, the nodes in the order of their names, one line
  per requested unit, named after the node and the unit, that pairs each timestamp with the value of
  the same index. The orders of the maps only permute the lines of a node. Tags of the same second
  are joined in one label, in some order.
\<close>

theorem plot_process_spec:
  assumes "range_order ord" and "range_order tord" and "\<forall>k. range_order (morder k)"
    and "\<forall>(k, ns) \<in> set (stats_nodes st). stats_wf ns" and "distinct (map fst (stats_nodes st))"
  shows "\<exists>groups tags es.
     plot_process morder ord tord None (\<lambda>_. None) (new_usage_plot tx rx cpu mem) st
       = Return (Inr \<lparr>plot_content = concat groups, plot_tags = tags\<rparr>)
     \<and> list_all2 (\<lambda>k group. mset group = mset (unit_lines tx rx cpu mem k (the (map_of (stats_nodes st) k))))
         (sort (map fst (stats_nodes st))) groups
     \<and> mset es = mset (stats_tags st)
     \<and> (\<forall>k. tags k = (let labels = map snd (filter (\<lambda>(ts, _). quot ts 1000000000 = k) es)
                      in if labels = [] then None else Some (join '', '' labels)))"
proof -
  let ?ks = "sort (map fst (stats_nodes st))"
  have known: "get_or (map_of (stats_nodes st)) k empty_node_stats = the (map_of (stats_nodes st) k)
      \<and> stats_wf (the (map_of (stats_nodes st) k))" if "k \<in> set ?ks" for k
    using that assms(4,5) by (auto simp: get_or_def)
  from plot_lines_wf [of ?ks "stats_nodes st" morder tx rx cpu mem] known assms(3) obtain groups
    where "plot_lines morder (new_usage_plot tx rx cpu mem) (stats_nodes st) ?ks = Return (concat groups)"
      and groups: "list_all2 (\<lambda>k group. mset group = mset (unit_lines tx rx cpu mem k
             (get_or (map_of (stats_nodes st)) k empty_node_stats))) ?ks groups"
    by auto
  then have "plot_process morder ord tord None (\<lambda>_. None) (new_usage_plot tx rx cpu mem) st
      = Return (Inr \<lparr>plot_content = concat groups, plot_tags = process_tags tord (stats_tags st)\<rparr>)"
    by (simp add: plot_process_def sort_range_order [OF assms(1)])
  moreover have "list_all2 (\<lambda>k group. mset group = mset (unit_lines tx rx cpu mem k (the (map_of (stats_nodes st) k)))) ?ks groups"
    using groups by (rule list.rel_mono_strong) (use known in simp)
  moreover have "mset (tord (stats_tags st)) = mset (stats_tags st)"
    using assms(2) by (rule range_order_mset)
  moreover have "process_tags tord (stats_tags st) k =
      (let labels = map snd (filter (\<lambda>(ts, _). quot ts 1000000000 = k) (tord (stats_tags st)))
       in if labels = [] then None else Some (join '', '' labels))" for k
    by (simp add: process_tags_def fold_tag_step tag_second_def Let_def)
  ultimately show ?thesis by blast
qed

theorem plot_process_spec_witness:
  "\<exists>lines tags. plot_process (\<lambda>_. rev) rev rev None (\<lambda>_. None) (new_usage_plot True False True False) two_nodes
     = Return (Inr \<lparr>plot_content = lines, plot_tags = tags\<rparr>)
     \<and> map fst (take 2 lines) \<in> {[''node0-tx'', ''node0-cpu''], [''node0-cpu'', ''node0-tx'']} \<and> length lines = 4"
proof -
  have "range_order rev" "range_order rev" "\<forall>k. range_order ((\<lambda>_. rev) k)"
    by (simp_all add: range_order_def)
  moreover have "\<forall>(k, ns) \<in> set (stats_nodes two_nodes). stats_wf ns" "distinct (map fst (stats_nodes two_nodes))"
    by (simp_all add: two_nodes_def three_samples_wf)
  ultimately obtain groups tags where "plot_process (\<lambda>_. rev) rev rev None (\<lambda>_. None)
       (new_usage_plot True False True False) two_nodes = Return (Inr \<lparr>plot_content = concat groups, plot_tags = tags\<rparr>)"
    and "list_all2 (\<lambda>k group. mset group = mset (unit_lines True False True False k (the (map_of (stats_nodes two_nodes) k))))
           (sort (map fst (stats_nodes two_nodes))) groups"
    using plot_process_spec [of rev rev "\<lambda>_. rev" two_nodes True False True False] by blast
  moreover from this(2) obtain a b where ab: "groups = [a, b]"
      "mset a = mset (unit_lines True False True False ''node0'' three_samples)"
      "mset b = mset (unit_lines True False True False ''node1'' (series_of []))"
    by (auto simp: two_nodes_def list_all2_Cons1)
  moreover have tags_a: "mset (map fst a) = {#''node0-tx'', ''node0-cpu''#}" and "length b = 2"
    unfolding ab mset_map size_mset [symmetric] by (simp_all add: unit_lines_def usage_fields_def)
  moreover have "map fst a \<in> {[''node0-tx'', ''node0-cpu''], [''node0-cpu'', ''node0-tx'']}" "length a = 2"
    using mset_eq_pairD [OF tags_a] by simp_all
  ultimately show ?thesis
    by (intro exI [of _ "concat groups"] exI [of _ tags] conjI) simp_all
qed

text \<open>
  The ticks of the axis: one per second of the range, labelled with its offset unless a tag
  falls in that second; the order of the tags does not matter.
\<close>

theorem ticks_spec:
  assumes "mx - mn + Fin 1 = Fin (of_int n)" and "0 \<le> n" and "n < 2 ^ 63"
    and "distinct (map fst entries)" and "\<forall>k \<in> fst ` set entries. in_int64 (k - f64_to_int ood mn)"
  shows "\<exists>tks. ticks ood entries mn mx = Return tks \<and> length tks = nat n
    \<and> (\<forall>i < length tks. tick_label (tks ! i) =
         (case map_of entries (f64_to_int ood mn + int i) of
            Some tag \<Rightarrow> tag | None \<Rightarrow> ''+'' @ show_nat i @ ''s''))"
proof -
  have "f64_to_int ood (mx - mn + Fin 1) = n" using assms(1-3) by (simp add: trunc_rat_def in_int64_def)
  then show ?thesis
    using assms(2) fold_label_step_nth [OF _ assms(4,5)]
    by (auto simp: ticks_def split: option.splits)
qed

theorem ticks_spec_witness:
  "\<exists>tks. ticks (\<lambda>_. 0) [(12, ''b''), (11, ''a'')] (Fin 10) (Fin 12) = Return tks \<and> map tick_label tks = [''+0s'', ''a'', ''b'']"
proof -
  have r: "Fin 12 - Fin 10 + Fin 1 = Fin (of_int 3)" and mn: "f64_to_int (\<lambda>_. 0) (Fin 10) = 10"
    using rnd_int [of 2] rnd_int [of 3] by (simp_all add: minus_float64_def trunc_rat_def in_int64_def)
  have e: "distinct (map fst [(12 :: int, ''b''), (11, ''a'')])"
    "\<forall>k \<in> fst ` set [(12, ''b''), (11, ''a'')]. in_int64 (k - f64_to_int (\<lambda>_. 0) (Fin 10))"
    unfolding mn by (simp_all add: in_int64_def)
  obtain tks where "ticks (\<lambda>_. 0) [(12, ''b''), (11, ''a'')] (Fin 10) (Fin 12) = Return tks" "length tks = 3"
    and lab: "\<forall>i < length tks. tick_label (tks ! i) = (case map_of [(12, ''b''), (11, ''a'')] (10 + int i) of
            Some tag \<Rightarrow> tag | None \<Rightarrow> ''+'' @ show_nat i @ ''s'')"
    using ticks_spec [OF r _ _ e] unfolding mn by auto
  moreover obtain a b c where "tks = [a, b, c]"
    using \<open>length tks = 3\<close> by (auto simp: length_Suc_conv numeral_3_eq_3)
  moreover from this have "tick_label a = ''+0s''" "tick_label b = ''a''" "tick_label c = ''b''"
    using lab [rule_format, of 0] lab [rule_format, of 1] lab [rule_format, of 2]
    by (simp_all add: show_nat.simps)
  ultimately show ?thesis by simp
qed

end
