(* ===== verification/Go_Calls.thy ===== *)
theory Go_Calls
  imports Go_Base
begin

text \<open>
  Calls with effects: a call takes the state to an outcome and the state after it, and its outcome is a
  value, an error, a panic or that it never returns. \<open>attempt m w k\<close> is the idiom
  \<open>x, err := m(); if err != nil { return w(err) }; k(x)\<close>. Below are its inversion rules and a small
  logic of invariants and of what holds after a success, which the strategies use.
\<close>

type_synonym ('s, 'a) call = "'s \<Rightarrow> (gerror + 'a) outcome \<times> 's"

definition give :: "'a \<Rightarrow> ('s, 'a) call" where
  "give x s = (Return (Inr x), s)"

definition fail :: "gerror \<Rightarrow> ('s, 'a) call" where
  "fail e s = (Return (Inl e), s)"

definition panic :: "string \<Rightarrow> ('s, 'a) call" where
  "panic p s = (Panic p, s)"

definition update :: "('s \<Rightarrow> 's) \<Rightarrow> ('s, unit) call" where
  "update f s = (Return (Inr ()), f s)"

definition fetch :: "('s \<Rightarrow> 'a) \<Rightarrow> ('s, 'a) call" where
  "fetch f s = (Return (Inr (f s)), s)"

definition attempt :: "('s, 'a) call \<Rightarrow> (gerror \<Rightarrow> gerror) \<Rightarrow> ('a \<Rightarrow> ('s, 'b) call) \<Rightarrow> ('s, 'b) call" where
  "attempt m w k s =
     (case m s of
        (Return (Inl e), t) \<Rightarrow> (Return (Inl (w e)), t)
      | (Return (Inr x), t) \<Rightarrow> k x t
      | (Panic p, t) \<Rightarrow> (Panic p, t)
      | (Blocked, t) \<Rightarrow> (Blocked, t))"

text \<open>A statement whose error is ignored or stored, not returned.\<close>

definition observe :: "('s, 'a) call \<Rightarrow> ((gerror + 'a) \<Rightarrow> ('s, 'b) call) \<Rightarrow> ('s, 'b) call" where
  "observe m k s =
     (case m s of
        (Return r, t) \<Rightarrow> k r t
      | (Panic p, t) \<Rightarrow> (Panic p, t)
      | (Blocked, t) \<Rightarrow> (Blocked, t))"

text \<open>A call on a part of the state.\<close>

definition focus :: "('s \<Rightarrow> 'w) \<Rightarrow> ('w \<Rightarrow> 's \<Rightarrow> 's) \<Rightarrow> ('w, 'a) call \<Rightarrow> ('s, 'a) call" where
  "focus get put m s = (case m (get s) of (r, w) \<Rightarrow> (r, put w s))"

text \<open>\<open>defer\<close>: the cleanup runs after every outcome that returns or panics, and keeps it.\<close>

definition deferring :: "('s, 'a) call \<Rightarrow> ('s, unit) call \<Rightarrow> ('s, 'a) call" where
  "deferring m c s =
     (case m s of
        (Blocked, t) \<Rightarrow> (Blocked, t)
      | (r, t) \<Rightarrow> (case c t of (Panic p, u) \<Rightarrow> (Panic p, u) | (Blocked, u) \<Rightarrow> (Blocked, u) | (_, u) \<Rightarrow> (r, u)))"

fun for_calls :: "('x \<Rightarrow> ('s, unit) call) \<Rightarrow> 'x list \<Rightarrow> ('s, unit) call" where
  "for_calls f [] = give ()"
| "for_calls f (x # xs) = attempt (f x) (\<lambda>e. e) (\<lambda>_. for_calls f xs)"

text \<open>All calls are made, and their errors collected in order.\<close>

fun collect_errors :: "('x \<Rightarrow> ('s, unit) call) \<Rightarrow> 'x list \<Rightarrow> gerror list \<Rightarrow> ('s, gerror list) call" where
  "collect_errors f [] errs = give errs"
| "collect_errors f (x # xs) errs =
     observe (f x) (\<lambda>r. collect_errors f xs (case r of Inl err \<Rightarrow> errs @ [err] | Inr _ \<Rightarrow> errs))"

fun of_outcome :: "'a outcome \<Rightarrow> ('s, 'a) call" where
  "of_outcome (Return x) = give x"
| "of_outcome (Panic p) = panic p"
| "of_outcome Blocked = (\<lambda>s. (Blocked, s))"

fun of_result :: "gerror + 'a \<Rightarrow> ('s, 'a) call" where
  "of_result (Inl e) = fail e"
| "of_result (Inr x) = give x"

lemma give_apply [simp]: "give x s = (Return (Inr x), s)" by (simp add: give_def)
lemma fail_apply [simp]: "fail e s = (Return (Inl e), s)" by (simp add: fail_def)
lemma panic_apply [simp]: "panic p s = (Panic p, s)" by (simp add: panic_def)
lemma update_apply [simp]: "update f s = (Return (Inr ()), f s)" by (simp add: update_def)
lemma fetch_apply [simp]: "fetch f s = (Return (Inr (f s)), s)" by (simp add: fetch_def)

lemma of_result_value [simp]: "of_result x s = (Return (Inr y), t) \<longleftrightarrow> x = Inr y \<and> t = s"
  by (cases x) auto

lemma of_outcome_value [simp]: "of_outcome x s = (Return (Inr y), t) \<longleftrightarrow> x = Return y \<and> t = s"
  by (cases x) auto

lemma attempt_value [simp]: "m s = (Return (Inr x), t) \<Longrightarrow> attempt m w k s = k x t"
  by (simp add: attempt_def)

lemma attempt_error [simp]: "m s = (Return (Inl e), t) \<Longrightarrow> attempt m w k s = (Return (Inl (w e)), t)"
  by (simp add: attempt_def)

lemma attempt_cases:
  assumes "attempt m w k s = (r, t)"
  obtains (success) x u where "m s = (Return (Inr x), u)" and "k x u = (r, t)"
  | (error) e where "m s = (Return (Inl e), t)" and "r = Return (Inl (w e))"
  | (panic) p where "m s = (Panic p, t)" and "r = Panic p"
  | (blocked) "m s = (Blocked, t)" and "r = Blocked"
  using assms by (auto simp: attempt_def split: prod.splits outcome.splits sum.splits)

lemma attempt_valueE:
  assumes "attempt m w k s = (Return (Inr y), t)"
  obtains x u where "m s = (Return (Inr x), u)" and "k x u = (Return (Inr y), t)"
  using assms by (auto elim: attempt_cases)

lemma observe_cases:
  assumes "observe m k s = (r, t)"
  obtains (returns) x u where "m s = (Return x, u)" and "k x u = (r, t)"
  | (panic) p where "m s = (Panic p, t)" and "r = Panic p"
  | (blocked) "m s = (Blocked, t)" and "r = Blocked"
  using assms by (auto simp: observe_def split: prod.splits outcome.splits)

lemma focus_result:
  "focus get put m s = (r, t) \<longleftrightarrow> (\<exists>w. m (get s) = (r, w) \<and> t = put w s)"
  by (auto simp: focus_def split: prod.splits)

section \<open>Invariants\<close>

named_theorems keeps_intros \<open>rules for invariants of calls\<close>

lemma keeps_give [keeps_intros]: "keeps P (give x)" by (rule keepsI) simp
lemma keeps_fail [keeps_intros]: "keeps P (fail e)" by (rule keepsI) simp
lemma keeps_panic [keeps_intros]: "keeps P (panic p)" by (rule keepsI) simp
lemma keeps_fetch [keeps_intros]: "keeps P (fetch f)" by (rule keepsI) simp

lemma keeps_update [keeps_intros]: "(\<And>s. P s \<Longrightarrow> P (f s)) \<Longrightarrow> keeps P (update f)"
  by (rule keepsI) simp

lemma keeps_attempt [keeps_intros]:
  assumes "keeps P m" and "\<And>x. keeps P (k x)"
  shows "keeps P (attempt m w k)"
proof (rule keepsI)
  fix s assume "P s"
  obtain r t where rt: "attempt m w k s = (r, t)" by (cases "attempt m w k s")
  then have "P t"
    using keepsD [OF assms(1) \<open>P s\<close>] keepsD [OF assms(2)] by (cases rule: attempt_cases) auto
  with rt show "P (snd (attempt m w k s))"
    by simp
qed

lemma attempt_inv:
  assumes "P (snd (m s))" and "\<And>x. keeps P (k x)"
  shows "P (snd (attempt m w k s))"
proof -
  obtain r t where rt: "attempt m w k s = (r, t)" by (cases "attempt m w k s")
  then have "P t"
    using assms(1) keepsD [OF assms(2)] by (cases rule: attempt_cases) auto
  with rt show ?thesis by simp
qed

lemma attempt_inv_after:
  assumes "P (snd (m s))" and "\<And>x t. m s = (Return (Inr x), t) \<Longrightarrow> P (snd (k x t))"
  shows "P (snd (attempt m w k s))"
proof -
  obtain r t where rt: "attempt m w k s = (r, t)" by (cases "attempt m w k s")
  then have "P t"
    using assms by (cases rule: attempt_cases) fastforce+
  with rt show ?thesis by simp
qed

lemma keeps_observe [keeps_intros]:
  assumes "keeps P m" and "\<And>x. keeps P (k x)"
  shows "keeps P (observe m k)"
proof (rule keepsI)
  fix s assume "P s"
  obtain r t where rt: "observe m k s = (r, t)" by (cases "observe m k s")
  then have "P t"
    using keepsD [OF assms(1) \<open>P s\<close>] keepsD [OF assms(2)] by (cases rule: observe_cases) auto
  with rt show "P (snd (observe m k s))"
    by simp
qed

lemma keeps_focus [keeps_intros]: "(\<And>s w. P s \<Longrightarrow> P (put w s)) \<Longrightarrow> keeps P (focus get put m)"
  by (rule keepsI) (simp add: focus_def split: prod.splits)

lemma keeps_for_calls [keeps_intros]: "(\<And>x. keeps P (f x)) \<Longrightarrow> keeps P (for_calls f xs)"
  by (induction xs) (auto intro: keeps_intros)

lemma keeps_collect [keeps_intros]: "(\<And>x. keeps P (f x)) \<Longrightarrow> keeps P (collect_errors f xs errs)"
  by (induction xs arbitrary: errs) (auto intro: keeps_intros)

lemma keeps_of_outcome [keeps_intros]: "keeps P (of_outcome x)"
  by (cases x) (auto intro!: keepsI)

lemma keeps_of_result [keeps_intros]: "keeps P (of_result x)"
  by (cases x) (auto intro!: keepsI)

lemma keeps_deferring [keeps_intros]:
  assumes "keeps P m" and "keeps P c"
  shows "keeps P (deferring m c)"
proof (rule keepsI)
  fix s assume "P s"
  obtain r t where m: "m s = (r, t)" by (cases "m s")
  obtain q u where c: "c t = (q, u)" by (cases "c t")
  have "P t" using keepsD [OF assms(1) \<open>P s\<close> m] .
  then have "P u" using keepsD [OF assms(2) _ c] by simp
  then show "P (snd (deferring m c s))"
    using m c \<open>P t\<close> by (auto simp: deferring_def split: outcome.splits)
qed

lemma keeps_if [keeps_intros]: "keeps P m \<Longrightarrow> keeps P n \<Longrightarrow> keeps P (if b then m else n)"
  by simp

text \<open>The same with what the first call establishes when it succeeds.\<close>

lemma keeps_attempt_after:
  assumes "keeps P m" and "\<And>s x t. P s \<Longrightarrow> m s = (Return (Inr x), t) \<Longrightarrow> P (snd (k x t))"
  shows "keeps P (attempt m w k)"
proof (rule keepsI)
  fix s assume "P s"
  obtain r t where rt: "attempt m w k s = (r, t)" by (cases "attempt m w k s")
  then have "P t"
    using keepsD [OF assms(1) \<open>P s\<close>] assms(2) [OF \<open>P s\<close>] by (cases rule: attempt_cases) fastforce+
  with rt show "P (snd (attempt m w k s))" by simp
qed

section \<open>What holds after a success\<close>

definition succeeds :: "('s \<Rightarrow> bool) \<Rightarrow> ('s, 'a) call \<Rightarrow> ('a \<Rightarrow> 's \<Rightarrow> bool) \<Rightarrow> bool" where
  "succeeds P m Q \<longleftrightarrow> (\<forall>s x t. P s \<longrightarrow> m s = (Return (Inr x), t) \<longrightarrow> Q x t)"

lemma succeedsI: "(\<And>s x t. P s \<Longrightarrow> m s = (Return (Inr x), t) \<Longrightarrow> Q x t) \<Longrightarrow> succeeds P m Q"
  unfolding succeeds_def by blast

lemma succeedsD: "succeeds P m Q \<Longrightarrow> P s \<Longrightarrow> m s = (Return (Inr x), t) \<Longrightarrow> Q x t"
  by (simp add: succeeds_def)

lemma succeeds_attempt:
  assumes "succeeds P m R" and "\<And>x. succeeds (R x) (k x) Q"
  shows "succeeds P (attempt m w k) Q"
  using assms unfolding succeeds_def by (blast elim: attempt_valueE)

lemma succeeds_keeps: "keeps P m \<Longrightarrow> succeeds P m (\<lambda>_. P)"
  by (rule succeedsI) (rule keepsD)

lemma succeeds_pre: "succeeds P' m Q \<Longrightarrow> (\<And>s. P s \<Longrightarrow> P' s) \<Longrightarrow> succeeds P m Q"
  unfolding succeeds_def by blast

lemma succeeds_for_calls:
  assumes "\<And>x done. x \<in> set xs \<Longrightarrow> succeeds (I done) (f x) (\<lambda>_. I (done @ [x]))"
  shows "succeeds (I start) (for_calls f xs) (\<lambda>_. I (start @ xs))"
  using assms
proof (induction xs arbitrary: start)
  case Nil
  show ?case by (rule succeedsI) simp
next
  case (Cons x xs)
  have "succeeds (I (start @ [x])) (for_calls f xs) (\<lambda>_. I ((start @ [x]) @ xs))"
    by (rule Cons.IH) (use Cons.prems in simp)
  then show ?case
    using Cons.prems [of x start] by (auto intro!: succeeds_attempt)
qed

lemma collect_no_errors:
  assumes "collect_errors f xs errs s = (Return (Inr []), t)" and "I start s"
    and "\<And>x done. x \<in> set xs \<Longrightarrow> succeeds (I done) (f x) (\<lambda>_. I (done @ [x]))"
  shows "errs = [] \<and> I (start @ xs) t"
  using assms
proof (induction xs arbitrary: errs s start)
  case Nil
  then show ?case by simp
next
  case (Cons x xs)
  from Cons.prems(1)[unfolded collect_errors.simps] show ?case
  proof (cases rule: observe_cases)
    case (returns r u)
    show ?thesis
    proof (cases r)
      case (Inl err)
      then have "collect_errors f xs (errs @ [err]) u = (Return (Inr []), t)" using returns by simp
      moreover have "collect_errors f ys es v = (Return (Inr []), t) \<Longrightarrow> es = []" for ys es v
        by (induction ys arbitrary: es v) (fastforce split: sum.splits elim!: observe_cases)+
      ultimately show ?thesis by blast
    next
      case (Inr y)
      then have "I (start @ [x]) u"
        using Cons.prems(2) succeedsD [OF Cons.prems(3) [of x start]] returns by simp
      then show ?thesis
        using Cons.IH [of errs u "start @ [x]"] Cons.prems(3) returns Inr by simp
    qed
  qed simp_all
qed

end
