(* ===== verification/Simulation.thy ===== *)
theory Simulation
  imports Options Go_Calls
begin

text \<open>
  The command line and the flow of a simulation (\<open>mod.go\<close>) over the interface
  \<open>sim.Strategy\<close> (\<open>sim/mod.go\<close>): a record of calls on the state of the strategy, in which the
  round is fixed. The parsing of the flags follows the package \<open>flag\<close>. The contract of a
  strategy that \<open>Run\<close> relies on is the locale \<open>strategy_contract\<close>; the strategies interpret it.
\<close>

section \<open>Interfaces\<close>

record node_info =
  ni_name :: string
  ni_address :: string

record 's strategy =
  strategy_option :: "option_fun \<Rightarrow> 's \<Rightarrow> 's"
  strategy_deploy :: "('s, unit) call"
  strategy_execute :: "('s, unit) call"
  strategy_write_stats :: "string \<Rightarrow> ('s, unit) call"
  strategy_clean :: "('s, unit) call"

text \<open>What the strategies share: quoting in messages, and the version of the daemon images.\<close>

definition quoted :: "string \<Rightarrow> string" where
  "quoted s = [CHR 0x27] @ s @ [CHR 0x27]"

definition daemon_version :: string where "daemon_version = ''daemon-v0.3.1''"

section \<open>Flags\<close>

record run_flags =
  do_clean :: bool
  do_deploy :: bool
  do_execute :: bool
  do_stats :: bool
  vpn_command :: string

definition default_flags :: "string \<Rightarrow> run_flags" where
  "default_flags vpn = \<lparr>do_clean = False, do_deploy = False, do_execute = False, do_stats = False,
     vpn_command = vpn\<rparr>"

text \<open>The path of the VPN client when no other is given, on the two platforms.\<close>

definition darwin_openvpn_path :: string where
  "darwin_openvpn_path = ''/usr/local/opt/openvpn/sbin/openvpn''"

definition linux_openvpn_path :: string where
  "linux_openvpn_path = ''openvpn''"

text \<open>\<open>strconv.ParseBool\<close>\<close>

definition parse_bool :: "string \<Rightarrow> bool option" where
  "parse_bool s =
     (if s \<in> {''1'', ''t'', ''T'', ''TRUE'', ''true'', ''True''} then Some True
      else if s \<in> {''0'', ''f'', ''F'', ''FALSE'', ''false'', ''False''} then Some False
      else None)"

definition set_bool :: "string \<Rightarrow> bool \<Rightarrow> run_flags \<Rightarrow> run_flags option" where
  "set_bool name b fl =
     (if name = ''do-clean'' then Some (fl\<lparr>do_clean := b\<rparr>)
      else if name = ''do-deploy'' then Some (fl\<lparr>do_deploy := b\<rparr>)
      else if name = ''do-execute'' then Some (fl\<lparr>do_execute := b\<rparr>)
      else if name = ''do-stats'' then Some (fl\<lparr>do_stats := b\<rparr>)
      else None)"

text \<open>\<open>name=value\<close>: the value starts after the first equals sign, but not at position 0.\<close>

definition split_value :: "string \<Rightarrow> string \<times> string option" where
  "split_value s =
     (let rest = dropWhile (\<lambda>c. c \<noteq> CHR ''='') (tl s)
      in if rest = [] then (s, None) else (take (length s - length rest) s, Some (tl rest)))"

text \<open>
  \<open>FlagSet.Parse\<close>: the flags set so far, and the error if parsing stopped at one. An argument
  that is not a flag, or \<open>--\<close>, ends the parsing. A boolean flag with a value that does not parse is
  set to false before the error.
\<close>

fun parse_flags :: "run_flags \<Rightarrow> string list \<Rightarrow> run_flags \<times> gerror option" where
  "parse_flags fl [] = (fl, None)"
| "parse_flags fl (a # as) =
     (if length a < 2 \<or> hd a \<noteq> CHR ''-'' then (fl, None)
      else if a = ''--'' then (fl, None)
      else
        let name = (if a ! 1 = CHR ''-'' then drop 2 a else drop 1 a)
        in if name = '''' \<or> hd name = CHR ''-'' \<or> hd name = CHR ''='' then (fl, Some (Msg (''bad flag syntax: '' @ a)))
        else
          let (key, val) = split_value name
          in if key = ''vpn'' then
               (case val of
                  Some v \<Rightarrow> parse_flags (fl\<lparr>vpn_command := v\<rparr>) as
                | None \<Rightarrow>
                   (case as of
                      [] \<Rightarrow> (fl, Some (Msg (''flag needs an argument: -'' @ key)))
                    | v # as' \<Rightarrow> parse_flags (fl\<lparr>vpn_command := v\<rparr>) as'))
             else
               (case set_bool key True fl of
                  None \<Rightarrow> (fl, Some (Msg (''flag provided but not defined: -'' @ key)))
                | Some fl' \<Rightarrow>
                   (case val of
                      None \<Rightarrow> parse_flags fl' as
                    | Some v \<Rightarrow>
                       (case parse_bool v of
                          None \<Rightarrow> (the (set_bool key False fl), Some (Msg (''invalid boolean value for -'' @ key)))
                        | Some b \<Rightarrow> parse_flags (the (set_bool key b fl)) as))))"

declare parse_flags.simps(2) [simp del]

section \<open>Run\<close>

definition err_missing_args :: gerror where
  "err_missing_args = Msg ''expect at least one argument''"

definition wants_all :: "run_flags \<Rightarrow> bool" where
  "wants_all fl \<longleftrightarrow> \<not> do_clean fl \<and> \<not> do_deploy fl \<and> \<not> do_execute fl \<and> \<not> do_stats fl"

text \<open>The body after the deferred cleaning is registered.\<close>

definition run_steps :: "'s strategy \<Rightarrow> run_flags \<Rightarrow> ('s, unit) call" where
  "run_steps st fl =
     attempt (if do_deploy fl \<or> wants_all fl then strategy_deploy st else give ())
       (errorf ''couldn't deploy experiment'') (\<lambda>_.
     attempt (if do_execute fl \<or> wants_all fl then strategy_execute st else give ())
       (errorf ''couldn't execute experiment'') (\<lambda>_.
     attempt (if do_stats fl \<or> do_execute fl \<or> wants_all fl then strategy_write_stats st ''result.json'' else give ())
       (errorf ''couldn't write statistics'') (\<lambda>_. give ())))"

definition run_flagged :: "'s strategy \<Rightarrow> run_flags \<Rightarrow> ('s, unit) call" where
  "run_flagged st fl =
     attempt (update (strategy_option st (with_vpn (vpn_command fl)))) (\<lambda>e. e) (\<lambda>_.
       if do_clean fl \<or> wants_all fl
       then deferring (run_steps st fl) (observe (strategy_clean st) (\<lambda>_. give ()))
       else run_steps st fl)"

text \<open>The result of the parsing is not checked.\<close>

definition run :: "string \<Rightarrow> 's strategy \<Rightarrow> string list \<Rightarrow> ('s, unit) call" where
  "run default_vpn st args =
     (if args = [] then fail err_missing_args
      else run_flagged st (fst (parse_flags (default_flags default_vpn) (tl args))))"

section \<open>The contract of a strategy\<close>

text \<open>
  A fresh strategy has not run a phase yet; \<open>inv\<close> is what its phases keep, and \<open>released s\<close>
  says that nothing of the simulation is left, which a successful cleaning promises. A deployment is
  only asked for on a fresh strategy, as \<open>Run\<close> starts with it.
\<close>

locale strategy_contract =
  fixes st :: "'s strategy" and fresh inv released :: "'s \<Rightarrow> bool"
  assumes option_fresh: "fresh s \<Longrightarrow> fresh (strategy_option st f s)"
    and fresh_inv: "fresh s \<Longrightarrow> inv s"
    and deploy_inv: "fresh s \<Longrightarrow> inv (snd (strategy_deploy st s))"
    and execute_inv: "keeps inv (strategy_execute st)"
    and stats_inv: "keeps inv (strategy_write_stats st file)"
    and clean_inv: "keeps inv (strategy_clean st)"
    and clean_releases: "inv s \<Longrightarrow> strategy_clean st s = (Return (Inr ()), t) \<Longrightarrow> released t"
begin

lemma steps_inv:
  assumes "fresh s"
  shows "inv (snd (run_steps st fl s))"
proof -
  have "inv (snd ((if do_deploy fl \<or> wants_all fl then strategy_deploy st else give ()) s))"
    using deploy_inv [OF assms] fresh_inv [OF assms] by simp
  then show ?thesis
    unfolding run_steps_def
    by (rule attempt_inv) (intro keeps_attempt keeps_if keeps_give execute_inv stats_inv)
qed

text \<open>
  A run that cleans ends released whenever the cleaning succeeds, whatever became of the phases.
\<close>

lemma run_releases:
  assumes "fresh s" and "do_clean fl \<or> wants_all fl"
    and "run_steps st fl (strategy_option st (with_vpn (vpn_command fl)) s) = (r, t)" and "r \<noteq> Blocked"
    and "strategy_clean st t = (Return (Inr ()), u)"
  shows "run_flagged st fl s = (r, u) \<and> released u"
proof
  have "inv t" using steps_inv [OF option_fresh [OF assms(1)]] assms(3) by (metis snd_conv)
  then show "released u" using assms(5) by (rule clean_releases)
  show "run_flagged st fl s = (r, u)"
    using assms(2-5) by (cases r) (auto simp: run_flagged_def attempt_def deferring_def observe_def)
qed

end

section \<open>Properties\<close>

lemma run_flagged_deferring:
  "run_flagged st fl s =
     (let t = strategy_option st (with_vpn (vpn_command fl)) s in
      if do_clean fl \<or> wants_all fl
      then deferring (run_steps st fl) (observe (strategy_clean st) (\<lambda>_. give ())) t
      else run_steps st fl t)"
  by (simp add: run_flagged_def attempt_def Let_def)

text \<open>
  C20: Cleaning is the last thing a run does, and it decides nothing: whether the phases succeed,
  fail or panic, the strategy is cleaned in the state they leave, and the result is that of the
  phases even when the cleaning fails. Without cleaning requested the strategy is not cleaned.
\<close>

theorem run_cleans_last:
  assumes "run_steps st fl (strategy_option st (with_vpn (vpn_command fl)) s) = (r, t)" and "r \<noteq> Blocked"
    and "strategy_clean st t = (Return c, u)"
  shows "run_flagged st fl s = (r, if do_clean fl \<or> \<not> (do_deploy fl \<or> do_execute fl \<or> do_stats fl) then u else t)"
  using assms by (cases r) (auto simp: run_flagged_deferring wants_all_def deferring_def observe_def Let_def)

text \<open>A strategy that counts its calls, for the witnesses.\<close>

definition logging :: "string list strategy" where
  "logging = \<lparr>strategy_option = \<lambda>_ s. s,
     strategy_deploy = (\<lambda>s. (Return (Inl (Msg ''no nodes'')), s @ [''deploy''])),
     strategy_execute = update (\<lambda>s. s @ [''execute'']),
     strategy_write_stats = (\<lambda>f. update (\<lambda>s. s @ [f])),
     strategy_clean = (\<lambda>s. (Return (Inl (Msg ''busy'')), s @ [''clean'']))\<rparr>"

theorem run_cleans_last_witness:
  "run ''openvpn'' logging [''simnet''] [] =
     (Return (Inl (Msg ''couldn't deploy experiment: no nodes'')), [''deploy'', ''clean''])"
proof -
  let ?fl = "default_flags ''openvpn''"
  have "run_steps logging ?fl (strategy_option logging (with_vpn (vpn_command ?fl)) [])
      = (Return (Inl (Msg ''couldn't deploy experiment: no nodes'')), [''deploy''])"
    by (simp add: run_steps_def logging_def default_flags_def wants_all_def attempt_def)
  moreover have "strategy_clean logging [''deploy''] = (Return (Inl (Msg ''busy'')), [''deploy'', ''clean''])"
    by (simp add: logging_def)
  ultimately have "run_flagged logging ?fl [] =
      (Return (Inl (Msg ''couldn't deploy experiment: no nodes'')), [''deploy'', ''clean''])"
    by (subst run_cleans_last) (simp_all add: default_flags_def)
  then show ?thesis by (simp add: run_def)
qed

text \<open>
  C36: What the arguments select: \<open>-do-clean\<close> alone only cleans, \<open>-do-stats\<close> alone only writes
  the statistics, and a misspelt flag is not refused: the error of the parser is dropped, and the
  run deploys, executes and cleans as if no flag had been given.
\<close>

theorem run_arguments:
  assumes "name \<notin> {'''', ''do-clean'', ''do-deploy'', ''do-execute'', ''do-stats'', ''vpn''}"
    and "CHR ''='' \<notin> set name" and "hd name \<noteq> CHR ''-''"
  shows "run dv st (prog # (''-'' @ name) # rest) s = run dv st [prog] s
    \<and> run dv st [prog, ''-do-clean''] s
       = (case strategy_clean st (strategy_option st (with_vpn dv) s) of
            (Return _, t) \<Rightarrow> (Return (Inr ()), t) | q \<Rightarrow> q)
    \<and> run dv st [prog, ''-do-stats''] s
       = (case strategy_write_stats st ''result.json'' (strategy_option st (with_vpn dv) s) of
            (Return (Inl e), t) \<Rightarrow> (Return (Inl (errorf ''couldn't write statistics'' e)), t) | q \<Rightarrow> q)"
proof -
  have "split_value name = (name, None)"
  proof -
    have "dropWhile (\<lambda>c. c \<noteq> CHR ''='') (tl name) = []"
      using assms(2) by (cases name) (auto simp: dropWhile_eq_Nil_conv)
    then show ?thesis by (simp add: split_value_def)
  qed
  moreover obtain c cs where "name = c # cs" using assms(1) by (cases name) auto
  ultimately have "fst (parse_flags fl ((''-'' @ name) # rest)) = fl" for fl
    using assms by (auto simp: parse_flags.simps set_bool_def Let_def)
  then have "run dv st (prog # (''-'' @ name) # rest) s = run dv st [prog] s"
    by (simp add: run_def)
  moreover have "fst (parse_flags (default_flags dv) [''-do-clean'']) = (default_flags dv)\<lparr>do_clean := True\<rparr>"
    "fst (parse_flags (default_flags dv) [''-do-stats'']) = (default_flags dv)\<lparr>do_stats := True\<rparr>"
    by (simp_all add: parse_flags.simps split_value_def set_bool_def Let_def)
  moreover have "run_flagged st ((default_flags dv)\<lparr>do_clean := True\<rparr>) s
     = (case strategy_clean st (strategy_option st (with_vpn dv) s) of
            (Return _, t) \<Rightarrow> (Return (Inr ()), t) | q \<Rightarrow> q)"
    by (auto simp: run_flagged_deferring run_steps_def attempt_def wants_all_def default_flags_def
        deferring_def observe_def Let_def split: prod.splits outcome.splits)
  moreover have "run_flagged st ((default_flags dv)\<lparr>do_stats := True\<rparr>) s
     = (case strategy_write_stats st ''result.json'' (strategy_option st (with_vpn dv) s) of
            (Return (Inl e), t) \<Rightarrow> (Return (Inl (errorf ''couldn't write statistics'' e)), t) | q \<Rightarrow> q)"
    by (auto simp: run_flagged_deferring run_steps_def attempt_def wants_all_def default_flags_def Let_def
        split: prod.splits outcome.splits sum.splits)
  ultimately show ?thesis by (simp add: run_def)
qed

theorem run_arguments_witness:
  "run ''openvpn'' logging [''simnet'', ''-do-cleen''] [] = run ''openvpn'' logging [''simnet''] []
   \<and> run ''openvpn'' logging [''simnet'', ''-do-clean''] [] = (Return (Inr ()), [''clean''])"
  using run_arguments [of "''do-cleen''" "''openvpn''" logging "''simnet''" "[]" "[]"]
  by (simp add: logging_def)

end
