(* ===== verification/Monitor.thy ===== *)
theory Monitor
  imports Metrics
begin

text \<open>
  The monitor daemon (\<open>daemon/monitor\<close>): the CPU percentage and the lines it writes
  (\<open>main.go\<close>), the network counters read from \<open>ifconfig\<close>, the choice of the container, and the
  two goroutines behind \<open>Start\<close>, \<open>Stop\<close> and the loop of \<open>main\<close> as a step relation
  (\<open>mod.go\<close>). The Docker client, the commands and the clock are parameters or free choices of
  the steps.
\<close>

section \<open>Data of the Docker statistics\<close>

record net_stats =
  rx_bytes :: uint64
  tx_bytes :: uint64

record docker_stats =
  cpu_total :: uint64
  cpu_system :: uint64
  percpu_usage :: "uint64 list"
  pre_cpu_total :: uint64
  pre_cpu_system :: uint64
  memory_usage :: uint64
  networks :: "string \<rightharpoonup> net_stats"

record docker_container =
  container_id :: string
  container_labels :: "string \<rightharpoonup> string"

definition DockerNetworkInterface :: string where
  "DockerNetworkInterface = ''eth0''"

definition DockerSocketPath :: string where
  "DockerSocketPath = ''/var/run/docker.sock''"

section \<open>The percentage and the line\<close>

definition calculate_cpu_percent ::
  "(float64 \<Rightarrow> int) \<Rightarrow> uint64 \<Rightarrow> uint64 \<Rightarrow> docker_stats \<Rightarrow> int" where
  "calculate_cpu_percent ood previous_cpu previous_system v =
     (let cpu_delta = f64_of_uint64 (cpu_total v) - f64_of_uint64 previous_cpu;
          system_delta = f64_of_uint64 (cpu_system v) - f64_of_uint64 previous_system;
          cpu_percent = (if 0 < system_delta \<and> 0 < cpu_delta
             then cpu_delta div system_delta * f64_of_int (int (length (percpu_usage v))) * Fin 100
             else 0)
      in f64_to_int ood (f64_ceil cpu_percent))"

text \<open>\<open>fmt.Sprintf("%d,%d,%d,%d,%d\<newline>", ts, rx, tx, cpu, mem)\<close> without the final line feed.\<close>

definition measure_line :: "int \<Rightarrow> uint64 \<Rightarrow> uint64 \<Rightarrow> int \<Rightarrow> uint64 \<Rightarrow> string" where
  "measure_line ts rx tx cpu mem =
     show_int ts @ '','' @ show_nat (unat rx) @ '','' @ show_nat (unat tx) @ '','' @ show_int cpu
     @ '','' @ show_nat (unat mem)"

definition no_net_stats :: net_stats where
  "no_net_stats = \<lparr>rx_bytes = 0, tx_bytes = 0\<rparr>"

definition stats_line :: "(float64 \<Rightarrow> int) \<Rightarrow> int \<Rightarrow> docker_stats \<Rightarrow> string" where
  "stats_line ood ts v =
     (let netstat = get_or (networks v) DockerNetworkInterface no_net_stats
      in measure_line ts (rx_bytes netstat) (tx_bytes netstat)
           (calculate_cpu_percent ood (pre_cpu_total v) (pre_cpu_system v) v) (memory_usage v))"

section \<open>Network counters\<close>

text \<open>
  \<open>FindStringSubmatch\<close> of the expressions \<open>RX bytes:([0-9]+)\<close> and \<open>TX bytes:([0-9]+)\<close>: the
  leftmost match, with as many digits as there are.
\<close>

fun find_submatch :: "string \<Rightarrow> string \<Rightarrow> string option" where
  "find_submatch p [] = None"
| "find_submatch p (c # s) =
     (let ds = takeWhile is_digit (drop (length p) (c # s))
      in if has_prefix (c # s) p \<and> ds \<noteq> [] then Some ds else find_submatch p s)"

definition err_no_match :: gerror where
  "err_no_match = Msg ''missing substring match''"

definition parse_counter :: "string \<Rightarrow> string \<Rightarrow> gerror + uint64" where
  "parse_counter p out =
     (case find_submatch p out of None \<Rightarrow> Inl err_no_match | Some ds \<Rightarrow> parse_uint64 ds)"

text \<open>The result of the command is a parameter: an error or its output. The counters are stored
  only when both are found.\<close>

definition gather_network_stats ::
  "gerror + string \<Rightarrow> docker_stats \<Rightarrow> (gerror + unit) \<times> docker_stats" where
  "gather_network_stats cmd v =
     (case cmd of Inl err \<Rightarrow> (Inl err, v)
      | Inr out \<Rightarrow>
     (case parse_counter ''RX bytes:'' out of Inl err \<Rightarrow> (Inl err, v)
      | Inr rx \<Rightarrow>
     (case parse_counter ''TX bytes:'' out of Inl err \<Rightarrow> (Inl err, v)
      | Inr tx \<Rightarrow> (Inr (), v\<lparr>networks := [DockerNetworkInterface \<mapsto> \<lparr>rx_bytes = rx, tx_bytes = tx\<rparr>]\<rparr>))))"

section \<open>The container\<close>

fun find_container :: "docker_container list \<Rightarrow> string \<Rightarrow> gerror + docker_container" where
  "find_container [] name = Inl (Msg ''container not found'')"
| "find_container (c # cs) name =
     (if has_prefix (get_or (container_labels c) ''io.kubernetes.pod.name'' '''') name then Inr c
      else find_container cs name)"

section \<open>Start\<close>

text \<open>The goroutines of \<open>Start\<close> and the loop of \<open>main\<close>.\<close>

datatype decoder = Decoding | Sending docker_stats | Failing gerror | Decoder_done

datatype forwarder = Selecting | Forwarding docker_stats | Forwarder_done

datatype main_loop = Looping | Stopping | Returned | Panicked string

record monitor =
  mon_stream :: "(gerror + docker_stats) list"   \<comment> \<open>what \<open>dec.Decode\<close> will still return\<close>
  mon_decoder :: decoder
  mon_data :: "docker_stats list"                \<comment> \<open>\<open>chanData\<close>, of capacity 1\<close>
  mon_err :: "gerror list"                       \<comment> \<open>\<open>chanErr\<close>, of capacity 1\<close>
  mon_forwarder :: forwarder
  mon_closing :: bool                            \<comment> \<open>\<open>closing\<close> is closed\<close>
  mon_signal :: bool                             \<comment> \<open>\<open>sigc\<close>, of capacity 1, is full\<close>
  mon_main :: main_loop
  mon_output :: "string list"                    \<comment> \<open>the lines flushed to the file\<close>

definition started :: "(gerror + docker_stats) list \<Rightarrow> monitor" where
  "started stream = \<lparr>mon_stream = stream, mon_decoder = Decoding, mon_data = [], mon_err = [],
     mon_forwarder = Selecting, mon_closing = False, mon_signal = False, mon_main = Looping,
     mon_output = []\<rparr>"

text \<open>
  \<open>Start\<close>: the client, the list of containers and the statistics of the chosen container are
  parameters; \<open>stats\<close> yields what the decoder of the reply will return.
\<close>

definition monitor_start ::
  "(string \<Rightarrow> gerror + unit) \<Rightarrow> gerror + docker_container list
     \<Rightarrow> (string \<Rightarrow> gerror + (gerror + docker_stats) list) \<Rightarrow> string \<Rightarrow> gerror + monitor" where
  "monitor_start factory containers stats name =
     (case factory (''unix://'' @ DockerSocketPath) of Inl err \<Rightarrow> Inl err
      | Inr _ \<Rightarrow>
     (case containers of Inl err \<Rightarrow> Inl err
      | Inr list \<Rightarrow>
     (case find_container list name of Inl err \<Rightarrow> Inl err
      | Inr c \<Rightarrow>
     (case stats (container_id c) of Inl err \<Rightarrow> Inl err
      | Inr stream \<Rightarrow> Inr (started stream)))))"

text \<open>
  \<open>main\<close> before its loop: the results of creating the file and of \<open>Start\<close>. \<open>checkErr\<close> panics with
  the text of the error.
\<close>

definition check_monitor_err :: "gerror option \<Rightarrow> 'a outcome \<Rightarrow> 'a outcome" where
  "check_monitor_err err k = (case err of Some e \<Rightarrow> Panic (error_text e) | None \<Rightarrow> k)"

definition monitor_boot :: "gerror option \<Rightarrow> gerror + monitor \<Rightarrow> monitor outcome" where
  "monitor_boot create start =
     check_monitor_err create (case start of Inl err \<Rightarrow> Panic (error_text err) | Inr m \<Rightarrow> Return m)"

text \<open>
  One step of one goroutine. \<open>m.c\<close> is unbuffered: the forwarder's send and the main loop's
  receive are one step, in which the main loop writes and flushes a line. The result of the network
  command, the clock and the outcome of the write are free.
\<close>

inductive mon_act :: "(float64 \<Rightarrow> int) \<Rightarrow> monitor \<Rightarrow> monitor \<Rightarrow> bool" for ood where
  decode: "mon_decoder s = Decoding \<Longrightarrow> mon_stream s = Inr v # rest \<Longrightarrow>
    mon_act ood s (s\<lparr>mon_stream := rest, mon_decoder := Sending v\<rparr>)"
| decode_error: "mon_decoder s = Decoding \<Longrightarrow> mon_stream s = Inl err # rest \<Longrightarrow>
    mon_act ood s (s\<lparr>mon_stream := rest, mon_decoder := Failing err\<rparr>)"
| send_data: "mon_decoder s = Sending v \<Longrightarrow> mon_data s = [] \<Longrightarrow>
    mon_act ood s (s\<lparr>mon_data := [v], mon_decoder := Decoding\<rparr>)"
| send_error: "mon_decoder s = Failing err \<Longrightarrow> mon_err s = [] \<Longrightarrow>
    mon_act ood s (s\<lparr>mon_err := [err], mon_decoder := Decoder_done\<rparr>)"
| forwarder_closing: "mon_forwarder s = Selecting \<Longrightarrow> mon_closing s \<Longrightarrow>
    mon_act ood s (s\<lparr>mon_forwarder := Forwarder_done\<rparr>)"
| forwarder_error: "mon_forwarder s = Selecting \<Longrightarrow> mon_err s = [err] \<Longrightarrow>
    mon_act ood s (s\<lparr>mon_err := [], mon_forwarder := Forwarder_done\<rparr>)"
| forwarder_data: "mon_forwarder s = Selecting \<Longrightarrow> mon_data s = [v] \<Longrightarrow>
    mon_act ood s (s\<lparr>mon_data := [], mon_forwarder := Forwarding (snd (gather_network_stats cmd v))\<rparr>)"
| signal: "mon_act ood s (s\<lparr>mon_signal := True\<rparr>)"
| receive: "mon_forwarder s = Forwarding v \<Longrightarrow> mon_main s = Looping \<Longrightarrow>
    mon_act ood s (s\<lparr>mon_forwarder := Selecting,
      mon_output := mon_output s @ [stats_line ood ts v]\<rparr>)"
| receive_failed: "mon_forwarder s = Forwarding v \<Longrightarrow> mon_main s = Looping \<Longrightarrow>
    mon_act ood s (s\<lparr>mon_forwarder := Selecting, mon_main := Panicked (error_text err)\<rparr>)"
| stop: "mon_main s = Looping \<Longrightarrow> mon_signal s \<Longrightarrow>
    mon_act ood s (s\<lparr>mon_signal := False, mon_closing := True, mon_main := Stopping\<rparr>)"
| stopped: "mon_main s = Stopping \<Longrightarrow> mon_forwarder s = Forwarder_done \<Longrightarrow>
    mon_act ood s (s\<lparr>mon_main := Returned\<rparr>)"
| stop_failed: "mon_main s = Stopping \<Longrightarrow> mon_forwarder s = Forwarder_done \<Longrightarrow>
    mon_act ood s (s\<lparr>mon_main := Panicked (error_text err)\<rparr>)"

inductive_cases mon_actE: "mon_act ood s t"

text \<open>When \<open>main\<close> returns or panics the process is gone with its goroutines.\<close>

definition running :: "monitor \<Rightarrow> bool" where
  "running s \<longleftrightarrow> mon_main s = Looping \<or> mon_main s = Stopping"

definition mon_step :: "(float64 \<Rightarrow> int) \<Rightarrow> monitor \<Rightarrow> monitor \<Rightarrow> bool" where
  "mon_step ood s t \<longleftrightarrow> running s \<and> mon_act ood s t"

definition mon_reachable :: "(float64 \<Rightarrow> int) \<Rightarrow> monitor \<Rightarrow> monitor \<Rightarrow> bool" where
  "mon_reachable ood = (mon_step ood)\<^sup>*\<^sup>*"

section \<open>The written lines are read back\<close>

text \<open>One measure: timestamp, received and sent bytes, CPU, memory.\<close>

type_synonym measure = "int \<times> uint64 \<times> uint64 \<times> int \<times> uint64"

fun put_measure :: "measure \<Rightarrow> string" where
  "put_measure (ts, rx, tx, cpu, mem) = measure_line ts rx tx cpu mem"

fun measure_ok :: "measure \<Rightarrow> bool" where
  "measure_ok (ts, rx, tx, cpu, mem) \<longleftrightarrow> 0 \<le> ts \<and> ts < 2 ^ 63 \<and> 0 \<le> cpu \<and> cpu < 2 ^ 63"

fun measure_numbers :: "measure \<Rightarrow> nat list" where
  "measure_numbers (ts, rx, tx, cpu, mem) = [nat ts, unat rx, unat tx, nat cpu, unat mem]"

lemma put_measure_join: "measure_ok x \<Longrightarrow> put_measure x = join '','' (map show_nat (measure_numbers x))"
  by (cases x) (simp add: measure_line_def show_int_def)

lemma measure_numbers_64: "measure_ok x \<Longrightarrow> n \<in> set (measure_numbers x) \<Longrightarrow> n < 2 ^ 64"
  by (cases x) (auto simp: nat_less_iff)

lemma fields_put_measure:
  "measure_ok x \<Longrightarrow> decimal.fields (put_measure x) = map word_of_nat (measure_numbers x)"
  by (subst put_measure_join, assumption, subst decimal.fields_join)
    (cases x, auto dest: measure_numbers_64)

lemma put_measure_plain: "measure_ok x \<Longrightarrow> plain_line (put_measure x)"
proof (cases x)
  fix ts rx tx cpu mem assume x: "x = (ts, rx, tx, cpu, mem)" and ok: "measure_ok x"
  have "length (show_nat n) \<le> 20" if "n < 2 ^ 64" for n
  proof -
    have "n < 10 ^ 20" using that by simp
    then show ?thesis by (rule length_show_nat) simp
  qed
  then have "\<forall>n \<in> set (measure_numbers x). length (show_nat n) \<le> 20"
    using measure_numbers_64 [OF ok] by simp
  then have "length (put_measure x) < max_scan_token"
    using x ok by (simp add: measure_line_def show_int_def max_scan_token_def)
  then show ?thesis
    using x ok by (simp add: measure_line_def show_int_def show_nat_no_char)
qed

lemma measure_numbers_words:
  assumes "measure_ok (ts, rx, tx, cpu, mem)"
  shows "map word_of_nat (measure_numbers (ts, rx, tx, cpu, mem))
    = [word_of_int ts, rx, tx, word_of_int cpu, mem :: uint64]"
    and "sint (word_of_int ts :: uint64) = ts"
  using assms by simp_all

text \<open>Reading the lines of a list of measures.\<close>

lemma measures_read:
  fixes start "end" :: int
  assumes "\<forall>x \<in> set xs. measure_ok x"
  defines "kept \<equiv> filter (\<lambda>(ts, _). start \<le> ts \<and> ts \<le> end) xs"
  shows "new_node_stats (concat (map (\<lambda>x. put_measure x @ [newline]) xs)) start end =
    \<lparr>ns_timestamps = map (\<lambda>(ts, rx, tx, cpu, mem). ts) kept,
     ns_rx = map (\<lambda>(ts, rx, tx, cpu, mem). rx) kept,
     ns_tx = map (\<lambda>(ts, rx, tx, cpu, mem). tx) kept,
     ns_cpu = map (\<lambda>(ts, rx, tx, cpu, mem). word_of_int cpu) kept,
     ns_memory = map (\<lambda>(ts, rx, tx, cpu, mem). mem) kept\<rparr>"
proof -
  define row where "row = (\<lambda>(ts, rx, tx, cpu, mem). [word_of_int ts, rx, tx, word_of_int cpu, mem :: uint64])"
  have "scan_lines (concat (map (\<lambda>l. l @ [newline]) (map put_measure xs))) = map put_measure xs"
    using assms(1) put_measure_plain by (intro scan_written_lines) auto
  then have "samples (concat (map (\<lambda>x. put_measure x @ [newline]) xs)) start end
      = filter (in_window start end) (map (decimal.fields \<circ> put_measure) xs)"
    by (simp add: samples_def comp_def)
  also have "map (decimal.fields \<circ> put_measure) xs = map row xs"
    using assms(1) measure_numbers_words(1)
    by (intro map_cong) (auto simp: fields_put_measure row_def)
  also have "filter (in_window start end) (map row xs) = map row kept"
    unfolding filter_map kept_def using assms(1)
    by (intro arg_cong [where f = "map row"] filter_cong)
      (auto simp: row_def in_window_def dest!: bspec)
  finally have rows: "samples (concat (map (\<lambda>x. put_measure x @ [newline]) xs)) start end = map row kept" .
  have "sint (word_of_int ts :: uint64) = ts" if "(ts, rx, tx, cpu, mem) \<in> set kept" for ts rx tx cpu mem
    using that assms(1) by (auto simp: kept_def)
  then show ?thesis
    unfolding new_node_stats_samples rows by (auto simp: series_of_def row_def)
qed

section \<open>The percentage\<close>

text \<open>The difference of two counters is finite, and at least 1 when it is positive.\<close>

lemma f64_counter_diff:
  obtains r where "f64_of_uint64 a - f64_of_uint64 b = Fin r" and "0 < r \<longrightarrow> 1 \<le> r" and "r \<le> pow2 64"
proof -
  obtain i j where ij: "f64_of_uint64 a = Fin (of_int i)" "0 \<le> i" "i \<le> 2 ^ 64"
      "f64_of_uint64 b = Fin (of_int j)" "0 \<le> j" "j \<le> 2 ^ 64"
    by (metis f64_of_uint64_Fin)
  let ?d = "of_int (i - j) :: rat"
  have "?d \<le> of_int (2 ^ 64)" "of_int (- (2 ^ 64)) \<le> ?d"
    using ij by (simp_all only: of_int_le_iff)
  then have d: "?d \<le> pow2 64" "- pow2 64 \<le> ?d" by simp_all
  moreover have "pow2 64 \<le> pow2 1000" by (subst pow2_le_iff) simp
  ultimately have "\<bar>?d\<bar> \<le> pow2 1000" by linarith
  then have "rnd ?d = Fin (rnd_rat ?d)" by (rule rnd_bounded)
  then have "f64_of_uint64 a - f64_of_uint64 b = Fin (rnd_rat ?d)"
    by (simp add: ij minus_float64_def)
  moreover have "1 \<le> rnd_rat ?d" if pos: "0 < rnd_rat ?d"
  proof -
    have "\<not> ?d \<le> 0" using rnd_rat_le [of 0 ?d] pos by auto
    then have "of_int 1 \<le> ?d" by (simp only: of_int_le_iff not_le of_int_0_less_iff)
    then show ?thesis using rnd_rat_ge [of 1 ?d] rnd_rat_int [of 1] by simp
  qed
  moreover have "rnd_rat ?d \<le> pow2 64" using d by (intro rnd_rat_le rnd_rat_pow2) simp_all
  ultimately show thesis using that by blast
qed

text \<open>A lower bound of every positive share of the system time.\<close>

definition least_share :: rat where
  "least_share = pow2 (- 64)"

lemma least_share: "0 < least_share" "rnd_rat least_share = least_share" "least_share * pow2 64 = 1"
  by (simp_all only: least_share_def pow2_pos rnd_rat_pow2 flip: pow2_add) simp_all

lemma rnd_percent:
  assumes "int n \<le> 2 ^ 53" and "lo = (if n = 0 then 0 else least_share)" and "lo \<le> x" and "x \<le> of_nat n"
  obtains y where "rnd x = Fin y" and "lo \<le> y" and "y \<le> of_nat n"
proof (rule rnd_between_floats)
  show "rnd_rat lo = lo" using assms(2) least_share by simp
  show "rnd_rat (of_nat n) = of_nat n" using assms(1) rnd_rat_int [of "int n"] by simp
  show "- pow2 1000 \<le> lo" using assms(2) pow2_pos [of 1000] least_share(1) by (simp del: pow2_pos split: if_splits)
  have "of_int (int n) \<le> (of_int (2 ^ 53) :: rat)" using assms(1) by (simp only: of_int_le_iff)
  also have "\<dots> = pow2 53" by simp
  also have "\<dots> \<le> pow2 1000" by (subst pow2_le_iff) simp
  finally show "of_nat n \<le> pow2 1000" by simp
qed (use assms that in auto)

lemma percent_of_deltas:
  assumes "1 \<le> c" and "c \<le> t" and "t \<le> pow2 64" and "int n \<le> 2 ^ 40"
  obtains y where "Fin c div Fin t * f64_of_int (int n) * Fin 100 = Fin y"
    and "(if n = 0 then 0 else least_share) \<le> y" and "y \<le> of_nat (100 * n)"
proof -
  define lo where "lo = (if n = 0 then 0 else least_share)"
  have t: "0 < t" using assms(1,2) by linarith
  have "least_share * t \<le> least_share * pow2 64"
    using assms(3) least_share(1) by (intro mult_left_mono) simp_all
  also note least_share(3)
  finally have "least_share \<le> c / t" "c / t \<le> of_nat 1" using assms(1,2) t by (simp_all add: pos_le_divide_eq)
  then obtain q where q: "rnd (c / t) = Fin q" "least_share \<le> q" "q \<le> of_nat 1"
    using rnd_percent [of 1 least_share] by auto
  have "lo \<le> q * of_nat n" "q * of_nat n \<le> of_nat n"
    using q(2,3) least_share(1) mult_mono [of least_share q 1 "of_nat n"] mult_right_mono [of q 1 "of_nat n"]
    by (auto simp: lo_def)
  then obtain r where r: "rnd (q * of_nat n) = Fin r" "lo \<le> r" "r \<le> of_nat n"
    using rnd_percent [of n lo] assms(4) by (auto simp: lo_def)
  have "0 \<le> lo" using least_share(1) by (simp add: lo_def)
  then have "lo \<le> r * 100" "r * 100 \<le> of_nat (100 * n)" using r by linarith+
  moreover have "lo = (if 100 * n = 0 then 0 else least_share)" by (simp add: lo_def)
  moreover have "int (100 * n) \<le> 2 ^ 53" using assms(4) by simp
  ultimately obtain y where y: "rnd (r * 100) = Fin y" "lo \<le> y" "y \<le> of_nat (100 * n)"
    by (rule_tac rnd_percent [of "100 * n" lo "r * 100"]) assumption+
  have "f64_of_int (int n) = Fin (of_nat n)" using assms(4) by (simp add: f64_of_int_exact)
  with t q(1) r(1) y that show thesis by (simp add: lo_def)
qed

section \<open>Counters and containers\<close>

text \<open>The first occurrence of the label is found, with all the digits after it.\<close>

lemma find_submatch_at:
  assumes "p \<noteq> []" and "\<not> str_contains (pre @ butlast p) p"
    and "ds \<noteq> []" and "\<forall>d \<in> set ds. is_digit d" and "rest = [] \<or> \<not> is_digit (hd rest)"
  shows "find_submatch p (pre @ p @ ds @ rest) = Some ds"
  using assms(2)
proof (induction pre)
  case Nil
  obtain c q where p: "p = c # q" using assms(1) by (cases p) auto
  have "takeWhile is_digit (ds @ rest) = ds"
    using assms(4,5) by (cases rest) (auto simp: takeWhile_append2)
  then show ?case
    using assms(3) has_prefix_append [of p "ds @ rest"] by (simp add: p del: has_prefix_append)
next
  case (Cons c pre)
  have "\<not> has_prefix (c # pre @ p @ ds @ rest) p"
  proof
    assume "has_prefix (c # pre @ p @ ds @ rest) p"
    moreover have "c # pre @ p @ ds @ rest = (c # pre @ butlast p) @ [last p] @ ds @ rest"
      using assms(1) by simp
    ultimately have "take (length p) ((c # pre @ butlast p) @ [last p] @ ds @ rest) = p"
      by (simp only: has_prefix_def)
    moreover have "length p - length (c # pre @ butlast p) = 0" using assms(1) by (cases p) simp_all
    ultimately have "has_prefix (c # pre @ butlast p) p"
      by (simp only: has_prefix_def take_append take_0 diff_0_eq_0 append_Nil append_Nil2)
    then show False using Cons.prems by simp
  qed
  then show ?case using Cons by simp
qed

lemma parse_counter_at:
  assumes "p \<noteq> []" and "\<not> str_contains (pre @ butlast p) p"
    and "rest = [] \<or> \<not> is_digit (hd rest)"
  shows "parse_counter p (pre @ p @ show_nat (unat w) @ rest) = Inr w"
proof -
  have "find_submatch p (pre @ p @ show_nat (unat w) @ rest) = Some (show_nat (unat w))"
    using assms by (intro find_submatch_at) (auto simp: show_nat_digits)
  then show ?thesis by (simp add: parse_counter_def parse_show_nat)
qed

section \<open>The goroutines\<close>

definition oks :: "(gerror + docker_stats) list \<Rightarrow> docker_stats list" where
  "oks stream = concat (map (case_sum (\<lambda>_. []) (\<lambda>v. [v])) stream)"

fun decoder_pending :: "decoder \<Rightarrow> docker_stats list" where
  "decoder_pending (Sending v) = [v]"
| "decoder_pending _ = []"

text \<open>A line is written for a value of the stream, with some time and some network counters.\<close>

definition written :: "(float64 \<Rightarrow> int) \<Rightarrow> string \<Rightarrow> docker_stats \<Rightarrow> bool" where
  "written ood l v \<longleftrightarrow> (\<exists>ts cmd. l = stats_line ood ts (snd (gather_network_stats cmd v)))"

definition forwarded :: "monitor \<Rightarrow> docker_stats list \<Rightarrow> bool" where
  "forwarded s fs \<longleftrightarrow>
     (case mon_forwarder s of
        Forwarding v' \<Rightarrow> (\<exists>v cmd. fs = [v] \<and> v' = snd (gather_network_stats cmd v))
      | _ \<Rightarrow> running s \<longrightarrow> fs = [])"

definition mon_inv :: "(float64 \<Rightarrow> int) \<Rightarrow> docker_stats list \<Rightarrow> monitor \<Rightarrow> bool" where
  "mon_inv ood vs s \<longleftrightarrow>
     (\<exists>ws fs. list_all2 (written ood) (mon_output s) ws \<and> forwarded s fs \<and> length fs \<le> 1
        \<and> vs = ws @ fs @ mon_data s @ decoder_pending (mon_decoder s) @ oks (mon_stream s))
     \<and> length (mon_data s) \<le> 1
     \<and> (mon_main s = Stopping \<or> mon_main s = Returned \<longrightarrow> mon_closing s)"

lemma mon_invI:
  assumes "list_all2 (written ood) (mon_output s) ws" and "forwarded s fs" and "length fs \<le> 1"
    and "vs = ws @ fs @ mon_data s @ decoder_pending (mon_decoder s) @ oks (mon_stream s)"
    and "length (mon_data s) \<le> 1"
    and "mon_main s = Stopping \<or> mon_main s = Returned \<longrightarrow> mon_closing s"
  shows "mon_inv ood vs s"
  using assms unfolding mon_inv_def by blast

lemma mon_inv_started: "mon_inv ood (oks stream) (started stream)"
  by (simp add: mon_inv_def started_def forwarded_def)

lemma mon_inv_step:
  assumes "mon_inv ood vs s" and "mon_step ood s t"
  shows "mon_inv ood vs t"
proof -
  from assms(1) obtain ws fs where inv: "list_all2 (written ood) (mon_output s) ws" "forwarded s fs"
      "length fs \<le> 1" "vs = ws @ fs @ mon_data s @ decoder_pending (mon_decoder s) @ oks (mon_stream s)"
      "length (mon_data s) \<le> 1" "mon_main s = Stopping \<or> mon_main s = Returned \<longrightarrow> mon_closing s"
    by (auto simp: mon_inv_def)
  have run: "running s" and act: "mon_act ood s t" using assms(2) by (auto simp: mon_step_def)
  show ?thesis
    using act
  proof (cases rule: mon_act.cases)
    case (forwarder_data v cmd)
    then have "fs = []" using inv(2) run by (simp add: forwarded_def)
    then show ?thesis
      using inv forwarder_data by (intro mon_invI [of _ _ ws "[v]"]) (auto simp: forwarded_def)
  next
    case (receive v' ts)
    then obtain v cmd where v: "fs = [v]" "v' = snd (gather_network_stats cmd v)"
      using inv(2) by (auto simp: forwarded_def)
    then have "written ood (stats_line ood ts v') v" by (auto simp: written_def)
    then have "list_all2 (written ood) (mon_output s @ [stats_line ood ts v']) (ws @ [v])"
      using inv(1) by (intro list_all2_appendI) simp_all
    then show ?thesis
      using inv receive v(1) by (intro mon_invI [of _ _ "ws @ [v]" "[]"]) (auto simp: forwarded_def)
  qed (use inv run in \<open>(intro mon_invI [of _ _ ws fs];
         force simp: forwarded_def running_def oks_def split: forwarder.splits)+\<close>)
qed

lemma mon_inv_reachable:
  assumes "mon_reachable ood (started stream) s"
  shows "mon_inv ood (oks stream) s"
  using assms unfolding mon_reachable_def
  by (induction rule: rtranclp_induct) (auto intro: mon_inv_started mon_inv_step)

text \<open>The forwarder blocked on \<open>m.c\<close> while \<open>Stop\<close> waits for it: nothing leaves this state.\<close>

definition deadlocked :: "monitor \<Rightarrow> bool" where
  "deadlocked s \<longleftrightarrow> mon_main s = Stopping \<and> (\<exists>v. mon_forwarder s = Forwarding v)"

lemma deadlocked_step: "deadlocked s \<Longrightarrow> mon_step ood s t \<Longrightarrow> deadlocked t"
  by (auto simp: deadlocked_def mon_step_def elim: mon_actE)

lemma deadlocked_reachable:
  assumes "mon_reachable ood s t" and "deadlocked s"
  shows "deadlocked t"
  using assms unfolding mon_reachable_def
  by (induction rule: rtranclp_induct) (auto intro: deadlocked_step)

lemma mon_act_reachable: "running s \<Longrightarrow> mon_act ood s t \<Longrightarrow> mon_reachable ood t u \<Longrightarrow> mon_reachable ood s u"
  unfolding mon_reachable_def by (rule converse_rtranclp_into_rtranclp) (simp_all add: mon_step_def)

text \<open>The steps of the executions in which no signal arrives.\<close>

definition unsignalled_step :: "(float64 \<Rightarrow> int) \<Rightarrow> monitor \<Rightarrow> monitor \<Rightarrow> bool" where
  "unsignalled_step ood s t \<longleftrightarrow> mon_step ood s t \<and> \<not> mon_signal t"

lemma unsignalled_invariant:
  assumes "(unsignalled_step ood)\<^sup>*\<^sup>* (started stream) s"
  shows "\<not> mon_signal s \<and> mon_main s \<noteq> Stopping \<and> mon_main s \<noteq> Returned"
  using assms
proof (induction rule: rtranclp_induct)
  case base
  show ?case by (simp add: started_def)
next
  case (step s t)
  then have "mon_act ood s t" "\<not> mon_signal t" by (simp_all add: unsignalled_step_def mon_step_def)
  then show ?case using step.IH by (cases rule: mon_act.cases) simp_all
qed

text \<open>A value on its way: it is decoded, passed to the forwarder and, without a signal, written.\<close>

definition holding :: "docker_stats \<Rightarrow> (gerror + docker_stats) list \<Rightarrow> monitor" where
  "holding v stream = (started stream)\<lparr>mon_forwarder := Forwarding (snd (gather_network_stats (Inl EOF) v))\<rparr>"

definition passed :: "(float64 \<Rightarrow> int) \<Rightarrow> docker_stats \<Rightarrow> (gerror + docker_stats) list \<Rightarrow> monitor" where
  "passed ood v stream = (started stream)\<lparr>
     mon_output := [stats_line ood 5 (snd (gather_network_stats (Inl EOF) v))]\<rparr>"

lemma unsignalled_act: "running s \<Longrightarrow> mon_act ood s t \<Longrightarrow> \<not> mon_signal t \<Longrightarrow> unsignalled_step ood s t"
  by (simp add: unsignalled_step_def mon_step_def)

lemma unsignalled_reachable: "(unsignalled_step ood)\<^sup>*\<^sup>* s t \<Longrightarrow> mon_reachable ood s t"
  unfolding mon_reachable_def by (erule rtranclp_mono [THEN predicate2D, rotated]) (auto simp: unsignalled_step_def)

lemma holding_reached: "(unsignalled_step ood)\<^sup>*\<^sup>* (started (Inr v # stream)) (holding v stream)"
proof -
  let ?s = "started (Inr v # stream)"
  let ?s1 = "?s\<lparr>mon_stream := stream, mon_decoder := Sending v\<rparr>"
  let ?s2 = "?s1\<lparr>mon_data := [v], mon_decoder := Decoding\<rparr>"
  have "mon_act ood ?s ?s1" by (rule mon_act.decode) (simp_all add: started_def)
  then have "unsignalled_step ood ?s ?s1" by (rule unsignalled_act [rotated]) (simp_all add: running_def started_def)
  moreover have "mon_act ood ?s1 ?s2" by (rule mon_act.send_data) (simp_all add: started_def)
  then have "unsignalled_step ood ?s1 ?s2" by (rule unsignalled_act [rotated]) (simp_all add: running_def started_def)
  moreover have "mon_act ood ?s2 (?s2\<lparr>mon_data := [], mon_forwarder := Forwarding (snd (gather_network_stats (Inl EOF) v))\<rparr>)"
    by (rule mon_act.forwarder_data) (simp_all add: started_def)
  then have "mon_act ood ?s2 (holding v stream)" by (simp add: holding_def started_def)
  then have "unsignalled_step ood ?s2 (holding v stream)"
    by (rule unsignalled_act [rotated]) (simp_all add: running_def holding_def started_def)
  ultimately show ?thesis
    by (meson converse_rtranclp_into_rtranclp rtranclp.rtrancl_refl)
qed

lemma passed_reached: "(unsignalled_step ood)\<^sup>*\<^sup>* (started (Inr v # stream)) (passed ood v stream)"
proof -
  have "mon_act ood (holding v stream) ((holding v stream)\<lparr>mon_forwarder := Selecting,
      mon_output := mon_output (holding v stream) @ [stats_line ood 5 (snd (gather_network_stats (Inl EOF) v))]\<rparr>)"
    by (rule mon_act.receive) (simp_all add: holding_def started_def)
  then have "mon_act ood (holding v stream) (passed ood v stream)" by (simp add: holding_def passed_def started_def)
  then have "unsignalled_step ood (holding v stream) (passed ood v stream)"
    by (simp add: unsignalled_step_def mon_step_def running_def holding_def passed_def started_def)
  with holding_reached show ?thesis by (rule rtranclp.rtrancl_into_rtrancl)
qed

text \<open>A signal after that ends the process.\<close>

lemma return_reached:
  assumes "s = passed ood v stream"
  shows "mon_reachable ood (started (Inr v # stream))
     (s\<lparr>mon_closing := True, mon_forwarder := Forwarder_done, mon_main := Returned\<rparr>)"
proof -
  let ?s1 = "s\<lparr>mon_signal := True\<rparr>"
  let ?s2 = "?s1\<lparr>mon_signal := False, mon_closing := True, mon_main := Stopping\<rparr>"
  let ?s3 = "?s2\<lparr>mon_forwarder := Forwarder_done\<rparr>"
  have "mon_act ood s ?s1" by (rule mon_act.signal)
  moreover have "mon_act ood ?s1 ?s2" by (rule mon_act.stop) (simp_all add: assms passed_def started_def)
  moreover have "mon_act ood ?s2 ?s3" by (rule mon_act.forwarder_closing) (simp_all add: assms passed_def started_def)
  moreover have "mon_act ood ?s3 (?s3\<lparr>mon_main := Returned\<rparr>)" by (rule mon_act.stopped) simp_all
  moreover have "mon_reachable ood (?s3\<lparr>mon_main := Returned\<rparr>) (?s3\<lparr>mon_main := Returned\<rparr>)"
    by (simp add: mon_reachable_def)
  moreover have "running s" "running ?s1" "running ?s2" "running ?s3"
    by (simp_all add: running_def assms passed_def started_def)
  ultimately have "mon_reachable ood s (?s3\<lparr>mon_main := Returned\<rparr>)" by (meson mon_act_reachable)
  moreover have "?s3\<lparr>mon_main := Returned\<rparr> = s\<lparr>mon_closing := True, mon_forwarder := Forwarder_done, mon_main := Returned\<rparr>"
    by (simp add: assms passed_def started_def)
  moreover have "mon_reachable ood (started (Inr v # stream)) s"
    unfolding assms by (rule unsignalled_reachable [OF passed_reached])
  ultimately show ?thesis unfolding mon_reachable_def by (simp add: rtranclp_trans)
qed

section \<open>Properties\<close>

text \<open>
  C6: What the monitor writes is what the statistics read: for measures with a non-negative
  timestamp and percentage, reading the written lines yields the series of the measures whose
  timestamp is in the window, in order, every value unchanged.
\<close>

theorem measures_read_back:
  fixes start "end" :: int
  assumes "\<forall>x \<in> set xs. measure_ok x"
  defines "kept \<equiv> filter (\<lambda>(ts, _). start \<le> ts \<and> ts \<le> end) xs"
  shows "new_node_stats (concat (map (\<lambda>x. put_measure x @ [newline]) xs)) start end =
    \<lparr>ns_timestamps = map (\<lambda>(ts, rx, tx, cpu, mem). ts) kept,
     ns_rx = map (\<lambda>(ts, rx, tx, cpu, mem). rx) kept,
     ns_tx = map (\<lambda>(ts, rx, tx, cpu, mem). tx) kept,
     ns_cpu = map (\<lambda>(ts, rx, tx, cpu, mem). word_of_int cpu) kept,
     ns_memory = map (\<lambda>(ts, rx, tx, cpu, mem). mem) kept\<rparr>"
  using measures_read [OF assms(1)] unfolding kept_def by simp

theorem measures_read_back_witness:
  "new_node_stats (concat (map (\<lambda>x. put_measure x @ [newline])
       [(10, 5, 6, 7, 8), (20, 1, 2, 3, 4), (30, 9, 9, 9, 9)])) 15 30
   = \<lparr>ns_timestamps = [20, 30], ns_rx = [1, 9], ns_tx = [2, 9], ns_cpu = [3, 9], ns_memory = [4, 9]\<rparr>"
proof -
  have "\<forall>x \<in> set [(10, 5, 6, 7, 8), (20, 1, 2, 3, 4), (30, 9, 9, 9, 9)]. measure_ok x" by simp
  from measures_read_back [OF this, of 15 30] show ?thesis by simp
qed

text \<open>
  C28: As long as the container's CPU time does not grow more than the system's, the percentage
  written to the file lies between 0 and 100 times the number of CPUs, and it is 0 exactly when the
  container did not run or has no CPU, despite the rounding of the four float operations.
\<close>

theorem cpu_percent_bounds:
  assumes "length (percpu_usage v) \<le> 2 ^ 40"
    and "f64_of_uint64 (cpu_total v) - f64_of_uint64 pc \<le> f64_of_uint64 (cpu_system v) - f64_of_uint64 ps"
  shows "0 \<le> calculate_cpu_percent ood pc ps v
    \<and> calculate_cpu_percent ood pc ps v \<le> 100 * int (length (percpu_usage v))
    \<and> (calculate_cpu_percent ood pc ps v = 0 \<longleftrightarrow>
         \<not> 0 < f64_of_uint64 (cpu_total v) - f64_of_uint64 pc \<or> percpu_usage v = [])"
proof -
  let ?n = "length (percpu_usage v)"
  have n: "int ?n \<le> 2 ^ 40"
  proof -
    have "int ?n \<le> int (2 ^ 40)" using assms(1) by (simp only: of_nat_le_iff)
    then show ?thesis by simp
  qed
  obtain c where c: "f64_of_uint64 (cpu_total v) - f64_of_uint64 pc = Fin c" "0 < c \<longrightarrow> 1 \<le> c"
    by (rule f64_counter_diff)
  obtain t where t: "f64_of_uint64 (cpu_system v) - f64_of_uint64 ps = Fin t" "t \<le> pow2 64"
    by (rule f64_counter_diff)
  have ct: "c \<le> t" using assms(2) c(1) t(1) by simp
  show ?thesis
  proof (cases "0 < c")
    case False
    then show ?thesis
      by (simp add: calculate_cpu_percent_def c(1) t(1) zero_float64_def trunc_rat_def in_int64_def)
  next
    case True
    then obtain y where y: "Fin c div Fin t * f64_of_int (int ?n) * Fin 100 = Fin y"
        "(if ?n = 0 then 0 else least_share) \<le> y" "y \<le> of_nat (100 * ?n)"
      using percent_of_deltas [of c t ?n] c(2) ct t(2) n by blast
    have up: "\<lceil>y\<rceil> \<le> int (100 * ?n)" using y(3) by (simp only: ceiling_le_iff of_int_of_nat_eq)
    have low: "if ?n = 0 then 0 \<le> y else 0 < y"
      using y(2) least_share(1) by (simp split: if_splits)
    then have "0 \<le> \<lceil>y\<rceil>" by (simp split: if_splits)
    moreover have "int (100 * ?n) < 2 ^ 63" using n by simp
    then have "\<lceil>y\<rceil> < 2 ^ 63" using up by (rule le_less_trans [rotated])
    moreover have "calculate_cpu_percent ood pc ps v = \<lceil>y\<rceil>"
      using True ct y(1) calculation \<open>\<lceil>y\<rceil> < 2 ^ 63\<close>
      by (simp add: calculate_cpu_percent_def c(1) t(1) zero_float64_def trunc_rat_def in_int64_def)
    moreover have "\<lceil>y\<rceil> = 0 \<longleftrightarrow> ?n = 0"
    proof (cases "?n = 0")
      case True
      then show ?thesis using low up by simp
    next
      case False
      then have "0 < y" using low by simp
      then show ?thesis using False by (metis less_irrefl zero_less_ceiling)
    qed
    ultimately show ?thesis using True up by (simp add: c(1) zero_float64_def)
  qed
qed

definition half_busy :: docker_stats where
  "half_busy = \<lparr>cpu_total = 150, cpu_system = 1200, percpu_usage = [1, 1], pre_cpu_total = 100,
     pre_cpu_system = 1000, memory_usage = 7, networks = Map.empty\<rparr>"

theorem cpu_percent_bounds_witness:
  "calculate_cpu_percent (\<lambda>_. 0) 100 1000 half_busy \<le> 200 \<and> calculate_cpu_percent (\<lambda>_. 0) 100 1000 half_busy \<noteq> 0"
proof -
  have d: "f64_of_uint64 (cpu_total half_busy) - f64_of_uint64 100 = Fin 50"
      "f64_of_uint64 (cpu_system half_busy) - f64_of_uint64 1000 = Fin 200"
    using rnd_int [of 50] rnd_int [of 200]
    by (simp_all add: half_busy_def f64_of_uint64_def f64_of_int_exact minus_float64_def)
  have "length (percpu_usage half_busy) = 2" by (simp add: half_busy_def)
  then show ?thesis
    using cpu_percent_bounds [of half_busy 100 1000 "\<lambda>_. 0"] by (auto simp: d zero_float64_def)
qed

text \<open>
  The counters are found in the output of \<open>ifconfig\<close>: the numbers after the first "RX bytes:"
  and the first "TX bytes:" are stored as the interface's counters and replace every other network,
  and nothing else of the statistics changes; without them the statistics are left as they are.
\<close>

theorem network_counters_read:
  assumes "\<not> str_contains (a @ ''RX bytes'') ''RX bytes:''"
    and "\<not> str_contains ((a @ ''RX bytes:'' @ show_nat (unat rx) @ b) @ ''TX bytes'') ''TX bytes:''"
    and "b = [] \<or> \<not> is_digit (hd b)" and "c = [] \<or> \<not> is_digit (hd c)"
  shows "gather_network_stats (Inr (a @ ''RX bytes:'' @ show_nat (unat rx) @ b
            @ ''TX bytes:'' @ show_nat (unat tx) @ c)) v
         = (Inr (), v\<lparr>networks := [''eth0'' \<mapsto> \<lparr>rx_bytes = rx, tx_bytes = tx\<rparr>]\<rparr>)
    \<and> (\<forall>cmd err v'. gather_network_stats cmd v = (Inl err, v') \<longrightarrow> v' = v)"
proof -
  let ?out = "a @ ''RX bytes:'' @ show_nat (unat rx) @ b @ ''TX bytes:'' @ show_nat (unat tx) @ c"
  have rx: "parse_counter ''RX bytes:'' ?out = Inr rx"
    using assms by (intro parse_counter_at) (cases b; simp add: is_digit_def)+
  have "parse_counter ''TX bytes:'' ((a @ ''RX bytes:'' @ show_nat (unat rx) @ b)
      @ ''TX bytes:'' @ show_nat (unat tx) @ c) = Inr tx"
    using assms(2,4) by (intro parse_counter_at) simp_all
  then have "parse_counter ''TX bytes:'' ?out = Inr tx" by simp
  with rx have "gather_network_stats (Inr ?out) v
      = (Inr (), v\<lparr>networks := [''eth0'' \<mapsto> \<lparr>rx_bytes = rx, tx_bytes = tx\<rparr>]\<rparr>)"
    by (simp only: gather_network_stats_def sum.case DockerNetworkInterface_def)
  moreover have "v' = v" if "gather_network_stats cmd v = (Inl err, v')" for cmd err v'
    using that by (auto simp: gather_network_stats_def split: sum.splits)
  ultimately show ?thesis by blast
qed

theorem network_counters_read_witness:
  "gather_network_stats (Inr ''eth0 RX bytes:1234 (1.2 KB)  TX bytes:56'') half_busy
   = (Inr (), half_busy\<lparr>networks := [''eth0'' \<mapsto> \<lparr>rx_bytes = 1234, tx_bytes = 56\<rparr>]\<rparr>)"
proof -
  have n: "show_nat 1234 = ''1234''" "show_nat 56 = ''56''"
    by (simp_all add: show_nat.simps)
  show ?thesis
    using network_counters_read [of "''eth0 ''" 1234 "'' (1.2 KB)  ''" "''''" 56 half_busy]
    by (simp add: n has_prefix_def is_digit_def)
qed

text \<open>
  C39: The container is looked up by a prefix of its pod's name and the first one of the list with
  that prefix is taken. The monitor of node i looks for "simnet-node<i>", which is also a prefix of the
  pods of the nodes 10 i to 10 i + 9: when such a container is listed first it is the one measured.
\<close>

theorem find_container_spec:
  "find_container cs name =
     (case find (\<lambda>c. \<exists>suffix. get_or (container_labels c) ''io.kubernetes.pod.name'' '''' = name @ suffix) cs of
        None \<Rightarrow> Inl (Msg ''container not found'') | Some c \<Rightarrow> Inr c)
   \<and> (0 < i \<and> d < 10 \<and> get_or (container_labels c) ''io.kubernetes.pod.name'' ''''
          = ''simnet-node'' @ show_nat (10 * i + d) @ ''-'' @ hash
      \<longrightarrow> find_container (c # cs) (''simnet-node'' @ show_nat i) = Inr c)"
proof -
  have "find_container cs name =
     (case find (\<lambda>c. \<exists>suffix. get_or (container_labels c) ''io.kubernetes.pod.name'' '''' = name @ suffix) cs of
        None \<Rightarrow> Inl (Msg ''container not found'') | Some c \<Rightarrow> Inr c)"
    by (induction cs) (auto simp: has_prefix_iff)
  moreover have "show_nat (10 * i + d) = show_nat i @ [digit_char d]" if "0 < i" "d < 10"
    using that by (subst show_nat.simps) auto
  ultimately show ?thesis by (auto simp: has_prefix_iff)
qed

definition pod_container :: "string \<Rightarrow> string \<Rightarrow> docker_container" where
  "pod_container i pod =
     \<lparr>container_id = i, container_labels = [''io.kubernetes.pod.name'' \<mapsto> pod]\<rparr>"

theorem find_container_spec_witness:
  "find_container [pod_container ''a'' ''simnet-node12-x'', pod_container ''b'' ''simnet-node1-y''] ''simnet-node1''
   = Inr (pod_container ''a'' ''simnet-node12-x'')"
proof -
  have n: "show_nat (Suc 0) = ''1''" "show_nat 12 = ''12''" by (simp_all add: show_nat.simps)
  show ?thesis
    using find_container_spec [of "[pod_container ''b'' ''simnet-node1-y'']" "''''" 1 2
        "pod_container ''a'' ''simnet-node12-x''" "''x''", THEN conjunct2]
    by (simp add: pod_container_def n get_or_def)
qed

text \<open>
  C13: Under every interleaving of the goroutines and of the signal, the lines written so far are
  those of a prefix of the values decoded from the stream, in order and one line each, and at most
  three values are in flight. Along every execution in which no signal arrives \<open>main\<close> neither
  stops nor returns: \<open>m.c\<close> is never closed, so neither the end nor an error of the stream ends
  the loop.
\<close>

theorem monitor_writes_in_order:
  assumes "mon_reachable ood (started stream) s"
  shows "(\<exists>ws rest. oks stream = ws @ rest \<and> list_all2 (written ood) (mon_output s) ws
        \<and> length rest \<le> 3 + length (oks (mon_stream s)))
    \<and> (mon_main s = Stopping \<or> mon_main s = Returned
        \<longrightarrow> mon_closing s \<and> \<not> (unsignalled_step ood)\<^sup>*\<^sup>* (started stream) s)"
proof -
  obtain ws fs where "list_all2 (written ood) (mon_output s) ws" "length fs \<le> 1"
      "oks stream = ws @ fs @ mon_data s @ decoder_pending (mon_decoder s) @ oks (mon_stream s)"
      "length (mon_data s) \<le> 1" "mon_main s = Stopping \<or> mon_main s = Returned \<longrightarrow> mon_closing s"
    using mon_inv_reachable [OF assms] by (auto simp: mon_inv_def)
  moreover have "length (decoder_pending (mon_decoder s)) \<le> 1" by (cases "mon_decoder s") simp_all
  moreover have "mon_main s = Stopping \<or> mon_main s = Returned \<Longrightarrow> \<not> (unsignalled_step ood)\<^sup>*\<^sup>* (started stream) s"
    using unsignalled_invariant by blast
  ultimately show ?thesis
    by (intro conjI exI [of _ ws] exI [of _ "fs @ mon_data s @ decoder_pending (mon_decoder s) @ oks (mon_stream s)"])
      simp_all
qed

theorem monitor_writes_in_order_witness:
  "\<exists>s. mon_reachable (\<lambda>_. 0) (started [Inr half_busy, Inl EOF]) s \<and> mon_main s = Returned
     \<and> length (mon_output s) = 1 \<and> list_all2 (written (\<lambda>_. 0)) (mon_output s) [half_busy]
     \<and> \<not> (unsignalled_step (\<lambda>_. 0))\<^sup>*\<^sup>* (started [Inr half_busy, Inl EOF]) s"
proof -
  let ?s = "(passed (\<lambda>_. 0) half_busy [Inl EOF])\<lparr>mon_closing := True, mon_forwarder := Forwarder_done, mon_main := Returned\<rparr>"
  have r: "mon_reachable (\<lambda>_. 0) (started [Inr half_busy, Inl EOF]) ?s" by (rule return_reached) simp
  have out: "length (mon_output ?s) = 1" by (simp add: passed_def)
  obtain ws rest where ws: "oks [Inr half_busy, Inl EOF] = ws @ rest" "list_all2 (written (\<lambda>_. 0)) (mon_output ?s) ws"
    and unsignalled: "\<not> (unsignalled_step (\<lambda>_. 0))\<^sup>*\<^sup>* (started [Inr half_busy, Inl EOF]) ?s"
    using monitor_writes_in_order [OF r] by auto
  from ws(2) out have "length ws = 1" by (simp add: list_all2_lengthD)
  with ws(1) have "ws = [half_busy]" by (cases ws) (auto simp: oks_def)
  with ws(2) r out unsignalled show ?thesis by (intro exI [of _ ?s]) simp
qed

text \<open>
  C22: \<open>Stop\<close> can wait for ever: when the signal arrives while the forwarding goroutine holds a
  value for the main loop, the main loop no longer receives it, and in every state reachable from
  there \<open>main\<close> is still waiting in \<open>Stop\<close>.
\<close>

theorem monitor_stop_deadlock:
  "\<exists>s. mon_reachable ood (started (Inr v # stream)) s \<and> mon_main s = Stopping
     \<and> {t. mon_reachable ood s t} \<subseteq> {t. mon_main t = Stopping}"
proof -
  let ?s3 = "holding v stream"
  let ?s4 = "?s3\<lparr>mon_signal := True\<rparr>"
  let ?s5 = "?s4\<lparr>mon_signal := False, mon_closing := True, mon_main := Stopping\<rparr>"
  have "mon_act ood ?s3 ?s4" by (rule mon_act.signal)
  moreover have "mon_act ood ?s4 ?s5" by (rule mon_act.stop) (simp_all add: holding_def started_def)
  moreover have "running ?s3" "running ?s4" by (simp_all add: running_def holding_def started_def)
  moreover have "mon_reachable ood ?s5 ?s5" by (simp add: mon_reachable_def)
  ultimately have "mon_reachable ood ?s3 ?s5" by (meson mon_act_reachable)
  with unsignalled_reachable [OF holding_reached] have "mon_reachable ood (started (Inr v # stream)) ?s5"
    unfolding mon_reachable_def by (rule rtranclp_trans)
  moreover have "deadlocked ?s5" by (simp add: deadlocked_def holding_def)
  ultimately show ?thesis
    using deadlocked_reachable by (intro exI [of _ ?s5]) (auto simp: deadlocked_def)
qed

end
