(* ===== verification/Docker_IO.thy ===== *)
theory Docker_IO
  imports Simulation Monitor
begin

text \<open>
  The access to the Docker nodes during a round (\<open>sim/docker/io.go\<close>): tags, the execution of a
  command with its events, the statistics and the monitoring of the containers. The Docker client and
  the file system are parameters; \<open>Read\<close> and \<open>Write\<close> are archives over the client's streams, of
  which the order of the failures is modelled.
\<close>

section \<open>Containers\<close>

text \<open>\<open>types.Container\<close>: its identifier, names, and the address in each network.\<close>

record app =
  app_id :: string
  app_names :: "string list"
  app_networks :: "string \<rightharpoonup> string"

text \<open>\<open>c.Names[0][1:]\<close>\<close>

definition container_name :: "app \<Rightarrow> string outcome" where
  "container_name c =
     (case app_names c of
        [] \<Rightarrow> Panic ''index out of range''
      | n # _ \<Rightarrow> if n = '''' then Panic ''slice bounds out of range'' else Return (tl n))"

section \<open>Tags, files and statistics\<close>

definition dio_tag :: "int \<Rightarrow> string \<Rightarrow> stats \<Rightarrow> stats" where
  "dio_tag now name st = st\<lparr>stats_tags := AList.update now name (stats_tags st)\<rparr>"

definition dio_read :: "('w, 'r) call \<Rightarrow> ('r \<Rightarrow> ('w, 'f) call) \<Rightarrow> ('w, 'f) call" where
  "dio_read copy untar =
     attempt copy (errorf ''couldn't open stream'') (\<lambda>reader.
     attempt (untar reader) (errorf ''couldn't untar'') (\<lambda>tr. give tr))"

text \<open>The content is read up to its end before anything is sent.\<close>

definition dio_write :: "gerror + string \<Rightarrow> (string \<Rightarrow> ('w, unit) call) \<Rightarrow> ('w, unit) call" where
  "dio_write content copy =
     (case content of
        Inl err \<Rightarrow> fail (errorf ''failed copying data into buffer'' err)
      | Inr buffer \<Rightarrow> attempt (copy buffer) (errorf ''failed copying buffer into container'') (\<lambda>_. give ()))"

definition dio_disconnect :: "string \<Rightarrow> string list \<Rightarrow> ('w, unit) call" where
  "dio_disconnect src targets = give ()"

definition dio_reconnect :: "string \<Rightarrow> ('w, unit) call" where
  "dio_reconnect n = give ()"

text \<open>\<open>filepath.Split\<close>: up to and including the last separator.\<close>

definition path_dir :: "string \<Rightarrow> string" where
  "path_dir p = rev (dropWhile (\<lambda>c. c \<noteq> slash) (rev p))"

definition dio_fetch_stats ::
  "(string \<Rightarrow> ('w, unit) call) \<Rightarrow> (string \<Rightarrow> ('w, unit) call) \<Rightarrow> (string \<Rightarrow> stats \<Rightarrow> ('w, unit) call)
     \<Rightarrow> string \<Rightarrow> stats \<Rightarrow> ('w, unit) call" where
  "dio_fetch_stats mkdir_all create encode filename st =
     attempt (mkdir_all (path_dir filename)) (errorf ''couldn't create directory'') (\<lambda>_.
     attempt (create filename) (errorf ''couldn't create file'') (\<lambda>_.
     attempt (encode filename st) (errorf ''couldn't encode the stats'') (\<lambda>_. give ())))"

section \<open>Events\<close>

text \<open>
  What the selects on the channels of the client receive, in order. A closed error channel yields
  the nil error; \<open>Timeout\<close> is the expiration of the timer where there is one.
\<close>

datatype docker_event =
    Event string string "string \<rightharpoonup> string"   \<comment> \<open>status, actor, attributes\<close>
  | Event_error "gerror option"
  | Timeout

text \<open>The loop of \<open>Exec\<close>: it has no timeout, so it blocks when no event decides.\<close>

fun exec_wait :: "string \<Rightarrow> docker_event list \<Rightarrow> (gerror + unit) outcome" where
  "exec_wait eid [] = Blocked"
| "exec_wait eid (Event status actor attrs # es) =
     (if status = ''exec_die'' \<and> get_or attrs ''execID'' '''' = eid
      then (let code = get_or attrs ''exitCode'' ''''
            in if code \<noteq> ''0'' then Return (Inl (Msg (''exited with '' @ code))) else Return (Inr ()))
      else exec_wait eid es)"
| "exec_wait eid (Event_error err # es) =
     Return (Inl (case err of Some e \<Rightarrow> errorf ''received error event'' e
                            | None \<Rightarrow> Msg ''received error event: %!w(<nil>)''))"
| "exec_wait eid (Timeout # es) = exec_wait eid es"

text \<open>
  \<open>Exec\<close>: \<open>stdin\<close> is the result of copying the standard input when there is one.
\<close>

definition dio_exec ::
  "('w, string) call \<Rightarrow> (string \<Rightarrow> ('w, unit) call) \<Rightarrow> (string \<Rightarrow> ('w, unit) call)
     \<Rightarrow> gerror option option \<Rightarrow> docker_event list \<Rightarrow> ('w, unit) call" where
  "dio_exec create attach start stdin events =
     attempt create (errorf ''couldn't create exec'') (\<lambda>eid.
     attempt (attach eid) (errorf ''couldn't attach exec'') (\<lambda>_.
     attempt (start eid) (errorf ''couldn't start exec'') (\<lambda>_.
       case stdin of
         Some (Some err) \<Rightarrow> fail (errorf ''couldn't write to stdin'' err)
       | _ \<Rightarrow> (\<lambda>w. (exec_wait eid events, w)))))"

section \<open>Monitoring\<close>

definition docker_cpu_percent ::
  "(float64 \<Rightarrow> int) \<Rightarrow> uint64 \<Rightarrow> uint64 \<Rightarrow> docker_stats \<Rightarrow> int" where
  "docker_cpu_percent ood previous_cpu previous_system v =
     (let cpu_delta = f64_of_uint64 (cpu_total v) - f64_of_uint64 previous_cpu;
          system_delta = f64_of_uint64 (cpu_system v) - f64_of_uint64 previous_system;
          cpu_percent = (if 0 < system_delta \<and> 0 < cpu_delta
             then cpu_delta div system_delta * f64_of_int (int (length (percpu_usage v))) * Fin 100
             else 0)
      in f64_to_int ood (f64_ceil (cpu_percent * Fin 100)))"

text \<open>One decoded message of the stream, at the given time.\<close>

definition sample_step :: "(float64 \<Rightarrow> int) \<Rightarrow> int \<times> docker_stats \<Rightarrow> node_stats \<Rightarrow> node_stats" where
  "sample_step ood s ns =
     (let (now, v) = s; net = get_or (networks v) ''eth0'' no_net_stats in
      \<lparr>ns_timestamps = ns_timestamps ns @ [now],
       ns_rx = ns_rx ns @ [rx_bytes net],
       ns_tx = ns_tx ns @ [tx_bytes net],
       ns_cpu = ns_cpu ns @ [word_of_int (docker_cpu_percent ood (pre_cpu_total v) (pre_cpu_system v) v)],
       ns_memory = ns_memory ns @ [memory_usage v]\<rparr>)"

text \<open>The goroutine of \<open>monitorContainer\<close>: the series so far is stored after each message.\<close>

fun monitor_loop :: "(float64 \<Rightarrow> int) \<Rightarrow> app \<Rightarrow> (int \<times> docker_stats) list \<Rightarrow> node_stats
    \<Rightarrow> (stats, unit) call" where
  "monitor_loop ood c [] ns = give ()"
| "monitor_loop ood c (m # ms) ns =
     (let ns = sample_step ood m ns in
      attempt (of_outcome (container_name c)) (\<lambda>e. e) (\<lambda>name.
      attempt (update (\<lambda>st. st\<lparr>stats_nodes := AList.update name ns (stats_nodes st)\<rparr>)) (\<lambda>e. e) (\<lambda>_.
      monitor_loop ood c ms ns)))"

text \<open>
  The closers wait for the goroutines, so after them every decoded message is stored.
  \<open>msgs c\<close> are the messages of a container decoded while it was monitored.
\<close>

definition close_monitors :: "(float64 \<Rightarrow> int) \<Rightarrow> (app \<Rightarrow> (int \<times> docker_stats) list) \<Rightarrow> app list
    \<Rightarrow> (stats, unit) call" where
  "close_monitors ood msgs = for_calls (\<lambda>c. monitor_loop ood c (msgs c) empty_node_stats)"

text \<open>Opening the streams: the containers monitored so far, and the first error.\<close>

fun open_monitors :: "(string \<Rightarrow> ('w, unit) call) \<Rightarrow> app list \<Rightarrow> 'w \<Rightarrow> app list \<times> (gerror + unit) outcome \<times> 'w" where
  "open_monitors stats_stream [] w = ([], Return (Inr ()), w)"
| "open_monitors stats_stream (c # cs) w =
     (case stats_stream (app_id c) w of
        (Return (Inl err), w') \<Rightarrow> ([], Return (Inl (errorf ''couldn't listen stats'' (errorf ''couldn't get stats'' err))), w')
      | (Return (Inr _), w') \<Rightarrow>
          (case open_monitors stats_stream cs w' of (opened, r, w'') \<Rightarrow> (c # opened, r, w''))
      | (Panic p, w') \<Rightarrow> ([], Panic p, w')
      | (Blocked, w') \<Rightarrow> ([], Blocked, w'))"

section \<open>Lemmas\<close>

lemma sample_steps_columns:
  "fold (sample_step ood) ms ns =
     \<lparr>ns_timestamps = ns_timestamps ns @ map fst ms,
      ns_rx = ns_rx ns @ map (\<lambda>(_, v). rx_bytes (get_or (networks v) ''eth0'' no_net_stats)) ms,
      ns_tx = ns_tx ns @ map (\<lambda>(_, v). tx_bytes (get_or (networks v) ''eth0'' no_net_stats)) ms,
      ns_cpu = ns_cpu ns
        @ map (\<lambda>(_, v). word_of_int (docker_cpu_percent ood (pre_cpu_total v) (pre_cpu_system v) v)) ms,
      ns_memory = ns_memory ns @ map (\<lambda>(_, v). memory_usage v) ms\<rparr>"
  by (induction ms arbitrary: ns) (simp_all add: sample_step_def Let_def case_prod_unfold)

lemma update_update: "AList.update k v (AList.update k u al) = AList.update k v al"
  by (induction al) auto

lemma monitor_loop_result:
  assumes "container_name c = Return name"
  shows "monitor_loop ood c ms ns st =
    (Return (Inr ()), if ms = [] then st
       else st\<lparr>stats_nodes := AList.update name (fold (sample_step ood) ms ns) (stats_nodes st)\<rparr>)"
  using assms
  by (induction ms arbitrary: ns st) (auto simp: Let_def attempt_def update_update)

definition named :: "app \<Rightarrow> string \<Rightarrow> bool" where
  "named c name \<longleftrightarrow> (\<exists>rest. app_names c = (slash # name) # rest)"

lemma container_name_named: "named c name \<Longrightarrow> container_name c = Return name"
  by (auto simp: named_def container_name_def)

section \<open>Properties\<close>

text \<open>
  C29: Monitoring records every decoded message of every container under its name: after the
  closers, the entry of a monitored node with messages has one sample per message, in order: the
  time of the message, the bytes received and transmitted on \<open>eth0\<close> (0 without that network), the
  CPU share computed from the message alone, and the memory in use. Nodes without messages keep the
  entry they had, and tags are untouched.
\<close>

theorem monitors_recorded:
  assumes "\<forall>c \<in> set cs. named c (nm c)" and "distinct (map nm cs)"
  shows "\<exists>st'. close_monitors ood msgs cs st = (Return (Inr ()), st')
    \<and> stats_tags st' = stats_tags st
    \<and> (\<forall>c \<in> set cs. msgs c \<noteq> [] \<longrightarrow>
         map_of (stats_nodes st') (nm c) = Some
           \<lparr>ns_timestamps = map fst (msgs c),
            ns_rx = map (\<lambda>(_, v). rx_bytes (get_or (networks v) ''eth0'' no_net_stats)) (msgs c),
            ns_tx = map (\<lambda>(_, v). tx_bytes (get_or (networks v) ''eth0'' no_net_stats)) (msgs c),
            ns_cpu = map (\<lambda>(_, v). word_of_int (docker_cpu_percent ood (pre_cpu_total v) (pre_cpu_system v) v)) (msgs c),
            ns_memory = map (\<lambda>(_, v). memory_usage v) (msgs c)\<rparr>)
    \<and> (\<forall>k. (\<forall>c \<in> set cs. nm c = k \<longrightarrow> msgs c = []) \<longrightarrow> map_of (stats_nodes st') k = map_of (stats_nodes st) k)"
  unfolding sample_steps_columns [of ood _ empty_node_stats, unfolded empty_node_stats_def, simplified, symmetric]
    empty_node_stats_def [symmetric]
  using assms
proof (induction cs arbitrary: st)
  case (Cons c cs)
  let ?ns = "fold (sample_step ood) (msgs c) empty_node_stats"
  let ?st = "if msgs c = [] then st else st\<lparr>stats_nodes := AList.update (nm c) ?ns (stats_nodes st)\<rparr>"
  have first: "monitor_loop ood c (msgs c) empty_node_stats st = (Return (Inr ()), ?st)"
    using Cons.prems(1) by (intro monitor_loop_result container_name_named) simp
  obtain st' where st': "close_monitors ood msgs cs ?st = (Return (Inr ()), st')" "stats_tags st' = stats_tags ?st"
    "\<forall>c \<in> set cs. msgs c \<noteq> [] \<longrightarrow>
         map_of (stats_nodes st') (nm c) = Some (fold (sample_step ood) (msgs c) empty_node_stats)"
    "\<forall>k. (\<forall>c \<in> set cs. nm c = k \<longrightarrow> msgs c = []) \<longrightarrow> map_of (stats_nodes st') k = map_of (stats_nodes ?st) k"
    using Cons.IH [of ?st] Cons.prems by auto
  have "close_monitors ood msgs (c # cs) st = (Return (Inr ()), st')"
    using first st'(1) by (simp add: close_monitors_def)
  moreover have "map_of (stats_nodes st') (nm c) = map_of (stats_nodes ?st) (nm c)"
  proof (rule st'(4) [rule_format])
    fix d assume "d \<in> set cs" "nm d = nm c"
    then show "msgs d = []" using Cons.prems(2) by (auto simp: image_iff)
  qed
  ultimately show ?case
    using st' by (auto simp: update_conv')
qed (simp add: close_monitors_def)

definition web_container :: app where
  "web_container = \<lparr>app_id = ''c1'', app_names = [''/node0''], app_networks = [''bridge'' \<mapsto> ''172.17.0.2'']\<rparr>"

definition busy_message :: docker_stats where
  "busy_message = half_busy\<lparr>networks := [''eth0'' \<mapsto> \<lparr>rx_bytes = 1234, tx_bytes = 56\<rparr>]\<rparr>"

lemma busy_message_cpu:
  assumes "v = half_busy \<or> v = busy_message"
  shows "docker_cpu_percent ood (pre_cpu_total v) (pre_cpu_system v) v = 5000"
proof -
  have d: "f64_of_uint64 150 - f64_of_uint64 100 = Fin 50" "f64_of_uint64 1200 - f64_of_uint64 1000 = Fin 200"
    using rnd_int [of 50] rnd_int [of 200]
    by (simp_all add: f64_of_uint64_def f64_of_int_exact minus_float64_def)
  have "rnd (1 / 4) = Fin (1 / 4)" "rnd (1 / 2) = Fin (1 / 2)"
    using rnd_rat_pow2 [of "- 2"] rnd_rat_pow2 [of "- 1"] by (simp_all add: rnd_Fin)
  then show ?thesis
    using assms rnd_int [of 50] rnd_int [of 5000]
    by (auto simp: docker_cpu_percent_def busy_message_def half_busy_def d Let_def zero_float64_def
        f64_of_int_exact trunc_rat_def in_int64_def)
qed

theorem monitors_recorded_witness:
  "\<exists>st'. close_monitors (\<lambda>_. 0) (\<lambda>_. [(5, busy_message), (6, half_busy)]) [web_container] new_stats = (Return (Inr ()), st')
     \<and> map_of (stats_nodes st') ''node0'' = Some \<lparr>ns_timestamps = [5, 6], ns_rx = [1234, 0], ns_tx = [56, 0],
         ns_cpu = [5000, 5000], ns_memory = [7, 7]\<rparr>"
proof -
  have h: "\<forall>c \<in> set [web_container]. named c ((\<lambda>_. ''node0'') c)" "distinct (map (\<lambda>_. ''node0'') [web_container])"
    by (simp_all add: named_def web_container_def)
  have "get_or (networks busy_message) ''eth0'' no_net_stats = \<lparr>rx_bytes = 1234, tx_bytes = 56\<rparr>"
    "get_or (networks half_busy) ''eth0'' no_net_stats = \<lparr>rx_bytes = 0, tx_bytes = 0\<rparr>"
    "memory_usage busy_message = 7" "memory_usage half_busy = 7"
    by (simp_all add: busy_message_def half_busy_def get_or_def no_net_stats_def)
  note columns = this busy_message_cpu [of busy_message, simplified] busy_message_cpu [of half_busy, simplified]
  show ?thesis
    using monitors_recorded [OF h, of "\<lambda>_. 0" "\<lambda>_. [(5, busy_message), (6, half_busy)]" new_stats]
    by (elim exE conjE) (simp add: columns)
qed

definition decides :: "string \<Rightarrow> docker_event \<Rightarrow> bool" where
  "decides eid e \<longleftrightarrow>
     (case e of Event status actor attrs \<Rightarrow> status = ''exec_die'' \<and> get_or attrs ''execID'' '''' = eid
      | Event_error err \<Rightarrow> True | Timeout \<Rightarrow> False)"

text \<open>
  A command run on a Docker node: the result is decided by the first event of the exec or the
  first error of the stream, whatever comes in between; it succeeds exactly when that event is an
  exit with code 0. Without such an event the call never returns, as there is no timeout.
\<close>

theorem exec_wait_spec:
  "exec_wait eid es =
     (case find (decides eid) es of
        None \<Rightarrow> Blocked
      | Some (Event_error err) \<Rightarrow>
          Return (Inl (Msg (''received error event: '' @ (case err of Some e \<Rightarrow> error_text e | None \<Rightarrow> ''%!w(<nil>)''))))
      | Some (Event status actor attrs) \<Rightarrow>
          Return (if get_or attrs ''exitCode'' '''' = ''0'' then Inr ()
                  else Inl (Msg (''exited with '' @ get_or attrs ''exitCode'' '''')))
      | Some Timeout \<Rightarrow> Blocked)"
  by (induction eid es rule: exec_wait.induct) (auto simp: decides_def Let_def split: option.splits)

text \<open>
  The CPU usage recorded by the Docker strategy and the one written by the monitor daemon of
  the Kubernetes strategy differ in their unit: for the same message the first is in hundredths of a
  percent and the second in percent, while \<open>simplot\<close> divides both by 100.
\<close>

theorem cpu_units_disagree:
  "calculate_cpu_percent ood (pre_cpu_total half_busy) (pre_cpu_system half_busy) half_busy = 50
   \<and> docker_cpu_percent ood (pre_cpu_total half_busy) (pre_cpu_system half_busy) half_busy = 5000"
proof -
  have d: "f64_of_uint64 150 - f64_of_uint64 100 = Fin 50" "f64_of_uint64 1200 - f64_of_uint64 1000 = Fin 200"
    using rnd_int [of 50] rnd_int [of 200]
    by (simp_all add: f64_of_uint64_def f64_of_int_exact minus_float64_def)
  have "rnd (1 / 4) = Fin (1 / 4)" "rnd (1 / 2) = Fin (1 / 2)"
    using rnd_rat_pow2 [of "- 2"] rnd_rat_pow2 [of "- 1"] by (simp_all add: rnd_Fin)
  then show ?thesis
    using rnd_int [of 50] busy_message_cpu [of half_busy ood]
    by (simp add: calculate_cpu_percent_def half_busy_def d Let_def zero_float64_def
        f64_of_int_exact trunc_rat_def in_int64_def)
qed

end
