(* ===== verification/Docker.thy ===== *)
theory Docker
  imports Docker_IO
begin

text \<open>
  The Docker strategy (\<open>sim/docker/mod.go\<close>). The Docker client, the file system, the VPN and the
  round are calls of the record \<open>docker_env\<close> on a world of any type; the state of the strategy is the
  record \<open>docker\<close>. The events of the client are the list \<open>d_events\<close>, in the order in which the
  successive selects receive them. What is only printed is left out.
\<close>

section \<open>Constants\<close>

definition ImageBaseURL :: string where "ImageBaseURL = ''docker.io''"
definition ImageMonitor :: string where "ImageMonitor = ''dedis/simnet-monitor''"
definition ContainerLabelKey :: string where "ContainerLabelKey = ''go.dedis.ch.simnet.container''"
definition ContainerLabelValue :: string where "ContainerLabelValue = ''app''"
definition DefaultContainerNetwork :: string where "DefaultContainerNetwork = ''bridge''"
definition monitor_net_emulator_command :: "string list" where
  "monitor_net_emulator_command = [''./netem'', ''-log'', ''/dev/stdout'']"

section \<open>The environment and the state\<close>

record container_config =
  cfg_image :: string
  cfg_cmd :: "string list"
  cfg_labels :: "string \<rightharpoonup> string"
  cfg_ports :: "string set"
  cfg_hostname :: string
  cfg_entrypoint :: "string list"
  cfg_attach :: bool           \<comment> \<open>the three streams, an open standard input, used once\<close>

record host_config =
  hc_auto_remove :: bool
  hc_mounts :: "(string \<times> int) list"
  hc_cap_add :: "string list"
  hc_network_mode :: string

record 'w docker_env =
  env_pull :: "string \<Rightarrow> ('w, (gerror + string) list) call"
  env_list :: "string \<times> string \<Rightarrow> ('w, app list) call"
  env_create :: "container_config \<Rightarrow> host_config \<Rightarrow> string \<Rightarrow> ('w, string) call"
  env_start :: "string \<Rightarrow> ('w, unit) call"
  env_attach :: "string \<Rightarrow> ('w, unit) call"
  env_send_rules :: "string \<Rightarrow> rule list \<Rightarrow> ('w, unit) call"
  env_logs :: "string \<Rightarrow> ('w, unit) call"
  env_stats :: "string \<Rightarrow> ('w, unit) call"
  env_samples :: "app \<Rightarrow> 'w \<Rightarrow> (int \<times> docker_stats) list"
  env_stop :: "string \<Rightarrow> ('w, unit) call"
  env_remove_all :: "string \<Rightarrow> ('w, unit) call"
  env_mkdir_all :: "string \<Rightarrow> ('w, unit) call"
  env_create_file :: "string \<Rightarrow> ('w, unit) call"
  env_encode :: "string \<Rightarrow> stats \<Rightarrow> ('w, unit) call"
  env_now :: "'w \<Rightarrow> int"
  env_vpn_deploy :: "('w, unit) call"
  env_vpn_clean :: "('w, unit) call"
  env_before :: "node_info list \<Rightarrow> (stats \<times> 'w, unit) call"
  env_execute :: "node_info list \<Rightarrow> (stats \<times> 'w, unit) call"
  env_after :: "node_info list \<Rightarrow> (stats \<times> 'w, unit) call"
  env_node_order :: node_order
  env_entry_order :: entry_order

record 'w docker =
  d_options :: options
  d_containers :: "app list"
  d_updated :: bool
  d_streaming :: bool
  d_stats :: stats
  d_events :: "docker_event list"
  d_world :: 'w

definition new_docker :: "options \<Rightarrow> docker_event list \<Rightarrow> 'w \<Rightarrow> 'w docker" where
  "new_docker opts events w =
     \<lparr>d_options = opts, d_containers = [], d_updated = False, d_streaming = False, d_stats = new_stats,
      d_events = events, d_world = w\<rparr>"

definition on_world :: "('w, 'a) call \<Rightarrow> ('w docker, 'a) call" where
  "on_world = focus d_world (\<lambda>w s. s\<lparr>d_world := w\<rparr>)"

definition on_round :: "(stats \<times> 'w, 'a) call \<Rightarrow> ('w docker, 'a) call" where
  "on_round = focus (\<lambda>s. (d_stats s, d_world s)) (\<lambda>(st, w) s. s\<lparr>d_stats := st, d_world := w\<rparr>)"

section \<open>Images and containers\<close>

text \<open>What the decoder of the stream yields before its end: an error, or the error field of an event.\<close>

fun wait_image_pull :: "(gerror + string) list \<Rightarrow> gerror + unit" where
  "wait_image_pull [] = Inr ()"
| "wait_image_pull (Inl err # items) =
     (if err = EOF then Inr () else Inl (errorf ''couldn't decode the event'' err))"
| "wait_image_pull (Inr event_error # items) =
     (if event_error \<noteq> '''' then Inl (Msg (''stream error: '' @ event_error)) else wait_image_pull items)"

definition pull_image :: "'w docker_env \<Rightarrow> string \<Rightarrow> ('w docker, unit) call" where
  "pull_image env img =
     (let ref = ImageBaseURL @ ''/'' @ img in
      attempt (on_world (env_pull env ref)) (errorf (''failed pulling image '' @ quoted ref)) (\<lambda>items.
      attempt (of_result (wait_image_pull items)) (errorf ''couldn't complete pull'') (\<lambda>_. give ())))"

definition refresh_containers :: "'w docker_env \<Rightarrow> ('w docker, unit) call" where
  "refresh_containers env s =
     (if d_updated s then give () s
      else attempt (on_world (env_list env (ContainerLabelKey, ContainerLabelValue)))
             (errorf ''failed refreshing containers'') (\<lambda>cs. update (\<lambda>s. s\<lparr>d_containers := cs\<rparr>)) s)"

definition port_key :: "port \<Rightarrow> string" where
  "port_key p = show_int (port_value p) @ ''/'' @ protocol_string (port_protocol p)"

definition app_config :: "options \<Rightarrow> node \<Rightarrow> container_config" where
  "app_config opts n =
     \<lparr>cfg_image = opt_image opts, cfg_cmd = opt_cmd opts @ opt_args opts,
      cfg_labels = [ContainerLabelKey \<mapsto> ContainerLabelValue], cfg_ports = port_key ` set (opt_ports opts),
      cfg_hostname = node_name n, cfg_entrypoint = [], cfg_attach = False\<rparr>"

definition app_host_config :: "options \<Rightarrow> host_config" where
  "app_host_config opts =
     \<lparr>hc_auto_remove = True, hc_mounts = map (\<lambda>v. (tmp_destination v, tmp_size v)) (opt_tmpfs opts),
      hc_cap_add = [], hc_network_mode = ''''\<rparr>"

definition create_container :: "'w docker_env \<Rightarrow> options \<Rightarrow> node \<Rightarrow> ('w docker, unit) call" where
  "create_container env opts n =
     attempt (on_world (env_create env (app_config opts n) (app_host_config opts) (node_name n)))
       (errorf ''failed creating container'') (\<lambda>cid.
     attempt (on_world (env_start env cid)) (errorf ''failed starting container'') (\<lambda>_. give ()))"

text \<open>A nil topology would be dereferenced.\<close>

definition with_topo :: "(topology \<Rightarrow> ('w docker, 'a) call) \<Rightarrow> ('w docker, 'a) call" where
  "with_topo k s =
     (case opt_topology (d_options s) of
        None \<Rightarrow> panic ''nil pointer dereference'' s | Some t \<Rightarrow> k t s)"

definition create_containers :: "'w docker_env \<Rightarrow> ('w docker, unit) call" where
  "create_containers env =
     attempt (fetch d_options) (\<lambda>e. e) (\<lambda>opts.
     with_topo (\<lambda>t.
     attempt (for_calls (create_container env opts) (topo_nodes (env_node_order env) t)) (\<lambda>e. e) (\<lambda>_.
     attempt (refresh_containers env) (errorf ''couldn't refresh the list of containers'') (\<lambda>_. give ()))))"

section \<open>Configuration\<close>

text \<open>The loop of \<open>waitExec\<close>: the result and the events left in the channels.\<close>

fun wait_exec :: "string \<Rightarrow> docker_event list \<Rightarrow> (gerror + unit) \<times> docker_event list" where
  "wait_exec cid [] = (Inl (Msg ''timeout''), [])"
| "wait_exec cid (Event status actor attrs # es) =
     (if status = ''die'' \<and> actor = cid
      then let code = get_or attrs ''exitCode'' ''''
           in (if code \<noteq> ''0'' then Inl (Msg (''exit code '' @ code)) else Inr (), es)
      else wait_exec cid es)"
| "wait_exec cid (Event_error err # es) = ((case err of Some e \<Rightarrow> Inl e | None \<Rightarrow> Inr ()), es)"
| "wait_exec cid (Timeout # es) = (Inl (Msg ''timeout''), es)"

definition wait_exec_call :: "string \<Rightarrow> ('w docker, unit) call" where
  "wait_exec_call cid s = (case wait_exec cid (d_events s) of (r, es) \<Rightarrow> (Return r, s\<lparr>d_events := es\<rparr>))"

definition container_address :: "app \<Rightarrow> string outcome" where
  "container_address c =
     (case app_networks c DefaultContainerNetwork of
        None \<Rightarrow> Panic ''nil pointer dereference'' | Some ip \<Rightarrow> Return ip)"

fun make_mapping :: "app list \<Rightarrow> mapping \<Rightarrow> mapping outcome" where
  "make_mapping [] m = Return m"
| "make_mapping (c # cs) m =
     obind (container_name c) (\<lambda>key. obind (container_address c) (\<lambda>ip. make_mapping cs (m(key \<mapsto> ip))))"

definition netem_config :: container_config where
  "netem_config =
     \<lparr>cfg_image = ImageMonitor @ '':'' @ daemon_version, cfg_cmd = [], cfg_labels = Map.empty, cfg_ports = {},
      cfg_hostname = '''', cfg_entrypoint = monitor_net_emulator_command, cfg_attach = True\<rparr>"

definition netem_host_config :: "app \<Rightarrow> host_config" where
  "netem_host_config c =
     \<lparr>hc_auto_remove = True, hc_mounts = [], hc_cap_add = [''NET_ADMIN''],
      hc_network_mode = ''container:'' @ app_id c\<rparr>"

definition configure_container ::
  "'w docker_env \<Rightarrow> mapping \<Rightarrow> app \<Rightarrow> ('w docker, unit) call" where
  "configure_container env m c =
     attempt (on_world (env_create env netem_config (netem_host_config c) ''''))
       (errorf ''couldn't create netem container'') (\<lambda>cid.
     attempt (on_world (env_attach env cid)) (errorf ''failed attaching container'') (\<lambda>_.
     attempt (on_world (env_start env cid)) (errorf ''couldn't start netem container'') (\<lambda>_.
     attempt (of_outcome (container_name c)) (\<lambda>e. e) (\<lambda>name.
     with_topo (\<lambda>t.
     attempt (on_world (env_send_rules env cid (topo_rules (env_entry_order env) t name m)))
       (errorf ''couldn't encode the rules'') (\<lambda>_.
     attempt (wait_exec_call cid) (errorf ''couldn't apply rule'') (\<lambda>_. give ())))))))"

definition configure_one :: "'w docker_env \<Rightarrow> mapping \<Rightarrow> app \<Rightarrow> ('w docker, unit) call" where
  "configure_one env m c =
     attempt (configure_container env m c) (errorf ''failed configuring container'') (\<lambda>_. give ())"

definition configure_containers :: "'w docker_env \<Rightarrow> ('w docker, unit) call" where
  "configure_containers env =
     attempt (on_world (env_pull env (ImageBaseURL @ ''/'' @ ImageMonitor @ '':'' @ daemon_version)))
       (errorf ''couldn't pull netem image'') (\<lambda>items.
     attempt (of_result (wait_image_pull items)) (errorf ''couldn't complete pull'') (\<lambda>_.
     attempt (fetch d_containers) (\<lambda>e. e) (\<lambda>cs.
     attempt (of_outcome (make_mapping cs Map.empty)) (\<lambda>e. e) (\<lambda>m.
     for_calls (configure_one env m) cs))))"

section \<open>The phases\<close>

fun execution_context :: "app list \<Rightarrow> node_info list outcome" where
  "execution_context [] = Return []"
| "execution_context (c # cs) =
     obind (container_name c) (\<lambda>name. obind (container_address c) (\<lambda>ip.
     obind (execution_context cs) (\<lambda>nodes. Return (\<lparr>ni_name = name, ni_address = ip\<rparr> # nodes))))"

definition make_execution_context :: "('w docker, node_info list) call" where
  "make_execution_context s = of_outcome (execution_context (d_containers s)) s"

definition stream_log :: "'w docker_env \<Rightarrow> string \<Rightarrow> app \<Rightarrow> ('w docker, unit) call" where
  "stream_log env folder c =
     attempt (on_world (env_logs env (app_id c))) (errorf ''failed accessing container logs'') (\<lambda>_.
       case app_names c of
         [] \<Rightarrow> panic ''index out of range''
       | n # _ \<Rightarrow> attempt (on_world (env_create_file env (path_join [folder, n])))
                    (errorf ''failed creating log folder'') (\<lambda>_. give ()))"

definition stream_logs :: "'w docker_env \<Rightarrow> ('w docker, unit) call" where
  "stream_logs env s =
     (if d_streaming s then give () s
      else
        attempt (update (\<lambda>s. s\<lparr>d_streaming := True\<rparr>)) (\<lambda>e. e) (\<lambda>_.
        attempt (fetch (\<lambda>s. path_join [output_dir (d_options s), ''logs''])) (\<lambda>e. e) (\<lambda>folder.
        attempt (on_world (env_remove_all env folder)) (errorf ''failed removing logs'') (\<lambda>_.
        attempt (on_world (env_mkdir_all env folder)) (errorf ''failed creating log directory'') (\<lambda>_.
        attempt (fetch d_containers) (\<lambda>e. e) (\<lambda>cs. for_calls (stream_log env folder) cs))))) s)"

definition docker_deploy :: "'w docker_env \<Rightarrow> ('w docker, unit) call" where
  "docker_deploy env =
     attempt (fetch (\<lambda>s. opt_image (d_options s))) (\<lambda>e. e) (\<lambda>img.
     attempt (pull_image env img) (errorf ''couldn't pull the image'') (\<lambda>_.
     attempt (create_containers env) (errorf ''couldn't create the container'') (\<lambda>_.
     attempt (stream_logs env) (errorf ''couldn't stream logs'') (\<lambda>_.
     attempt (configure_containers env) (errorf ''couldn't configure the containers'') (\<lambda>_.
     attempt (on_world (env_vpn_deploy env)) (errorf ''couldn't deploy the vpn'') (\<lambda>_.
     attempt make_execution_context (\<lambda>e. e) (\<lambda>nodes.
     attempt (on_round (env_before env nodes)) (errorf (''failed running '' @ quoted ''Before'')) (\<lambda>_.
     update (\<lambda>s. s\<lparr>d_updated := True\<rparr>)))))))))"

text \<open>\<open>monitorContainers\<close>: the monitored containers are the closers it returns.\<close>

definition close_monitored :: "(float64 \<Rightarrow> int) \<Rightarrow> 'w docker_env \<Rightarrow> app list \<Rightarrow> ('w docker, unit) call" where
  "close_monitored ood env cs s =
     focus d_stats (\<lambda>st s. s\<lparr>d_stats := st\<rparr>) (close_monitors ood (\<lambda>c. env_samples env c (d_world s)) cs) s"

definition monitor_containers :: "(float64 \<Rightarrow> int) \<Rightarrow> 'w docker_env \<Rightarrow> ('w docker, app list) call" where
  "monitor_containers ood env s =
     (let s = s\<lparr>d_stats := (d_stats s)\<lparr>stats_timestamp := env_now env (d_world s)\<rparr>\<rparr>
      in case open_monitors (env_stats env) (d_containers s) (d_world s) of
           (opened, Return (Inr _), w) \<Rightarrow> (Return (Inr opened), s\<lparr>d_world := w\<rparr>)
         | (opened, Return (Inl err), w) \<Rightarrow>
             attempt (close_monitored ood env opened) (\<lambda>e. e) (\<lambda>_. fail err) (s\<lparr>d_world := w\<rparr>)
         | (opened, Panic p, w) \<Rightarrow> (Panic p, s\<lparr>d_world := w\<rparr>)
         | (opened, Blocked, w) \<Rightarrow> (Blocked, s\<lparr>d_world := w\<rparr>))"

definition docker_execute :: "(float64 \<Rightarrow> int) \<Rightarrow> 'w docker_env \<Rightarrow> ('w docker, unit) call" where
  "docker_execute ood env =
     attempt (refresh_containers env) (errorf ''couldn't update the states'') (\<lambda>_.
     attempt (monitor_containers ood env) (errorf ''failed monitoring containers'') (\<lambda>opened.
     deferring
       (attempt (stream_logs env) (errorf ''failed streaming logs'') (\<lambda>_.
        attempt make_execution_context (\<lambda>e. e) (\<lambda>nodes.
        attempt (on_round (env_execute env nodes)) (errorf ''couldn't execute'') (\<lambda>_.
        attempt (on_round (env_after env nodes)) (errorf ''couldn't perform after step'') (\<lambda>_.
        update (\<lambda>s. s\<lparr>d_updated := True\<rparr>))))))
       (close_monitored ood env opened)))"

definition docker_write_stats :: "'w docker_env \<Rightarrow> string \<Rightarrow> ('w docker, unit) call" where
  "docker_write_stats env filename =
     attempt (fetch (\<lambda>s. (path_join [output_dir (d_options s), filename], d_stats s))) (\<lambda>e. e) (\<lambda>(out, st).
     attempt (on_world (dio_fetch_stats (env_mkdir_all env) (env_create_file env) (env_encode env) out st))
       (errorf ''failed fetching stats'') (\<lambda>_. give ()))"

fun stop_containers :: "(string \<Rightarrow> ('w, unit) call) \<Rightarrow> app list \<Rightarrow> gerror list \<Rightarrow> ('w, gerror list) call" where
  "stop_containers stop [] errs = give errs"
| "stop_containers stop (c # cs) errs =
     observe (stop (app_id c)) (\<lambda>r. stop_containers stop cs (case r of Inl err \<Rightarrow> errs @ [err] | Inr _ \<Rightarrow> errs))"

definition error_list :: "gerror list \<Rightarrow> string" where
  "error_list errs = ''['' @ join '' '' (map error_text errs) @ '']''"

definition docker_clean :: "'w docker_env \<Rightarrow> ('w docker, unit) call" where
  "docker_clean env =
     observe (on_world (env_vpn_clean env)) (\<lambda>r.
     attempt (refresh_containers env) (errorf ''couldn't get running containers'') (\<lambda>_.
     attempt (fetch d_containers) (\<lambda>e. e) (\<lambda>cs.
     attempt (on_world (stop_containers (env_stop env) cs (case r of Inl err \<Rightarrow> [errorf ''vpn'' err] | Inr _ \<Rightarrow> [])))
       (\<lambda>e. e) (\<lambda>errs.
       if errs \<noteq> [] then fail (Msg (''couldn't remove the containers: '' @ error_list errs))
       else update (\<lambda>s. s\<lparr>d_updated := True\<rparr>)))))"

definition docker_option :: "option_fun \<Rightarrow> 'w docker \<Rightarrow> 'w docker" where
  "docker_option f s = s\<lparr>d_options := f (d_options s)\<rparr>"

definition docker_strategy :: "(float64 \<Rightarrow> int) \<Rightarrow> 'w docker_env \<Rightarrow> 'w docker strategy" where
  "docker_strategy ood env =
     \<lparr>strategy_option = docker_option, strategy_deploy = docker_deploy env,
      strategy_execute = docker_execute ood env, strategy_write_stats = docker_write_stats env,
      strategy_clean = docker_clean env\<rparr>"

end
