(* ===== verification/Docker_Daemon.thy ===== *)
theory Docker_Daemon
  imports Docker
begin

text \<open>
  What the Docker strategy promises. The documented behaviour of the client that it relies on is
  the locale \<open>docker_daemon\<close>, over the application containers that run in a world; under it the
  strategy fulfils the contract of \<open>Simulation\<close>. The locales \<open>docker_shaper\<close> and \<open>docker_network\<close>
  state which containers receive rules and what the other calls leave alone; under them the delivery
  of the rules and a second deployment are followed. A small daemon shows that the laws can hold.
\<close>

section \<open>The client\<close>

definition live_ids :: "('w \<Rightarrow> app list) \<Rightarrow> 'w \<Rightarrow> string set" where
  "live_ids live w = app_id ` set (live w)"

text \<open>A call that starts no application container and forgets no created one.\<close>

definition calm :: "('w \<Rightarrow> app list) \<Rightarrow> ('w \<Rightarrow> string \<rightharpoonup> container_config) \<Rightarrow> ('w, 'a) call \<Rightarrow> bool" where
  "calm live created m \<longleftrightarrow>
     (\<forall>w r w'. m w = (r, w') \<longrightarrow> live_ids live w' \<subseteq> live_ids live w \<and> created w \<subseteq>\<^sub>m created w')"

definition is_app :: "container_config option \<Rightarrow> bool" where
  "is_app c = (case c of None \<Rightarrow> True | Some cfg \<Rightarrow> cfg_labels cfg ContainerLabelKey = Some ContainerLabelValue)"

locale docker_daemon =
  fixes env :: "'w docker_env" and live :: "'w \<Rightarrow> app list"
    and created :: "'w \<Rightarrow> string \<rightharpoonup> container_config"
  assumes calm_pull: "calm live created (env_pull env ref)"
    and calm_attach: "calm live created (env_attach env cid)"
    and calm_send: "calm live created (env_send_rules env cid rules)"
    and calm_logs: "calm live created (env_logs env cid)"
    and calm_stats: "calm live created (env_stats env cid)"
    and calm_remove: "calm live created (env_remove_all env path)"
    and calm_mkdir: "calm live created (env_mkdir_all env path)"
    and calm_file: "calm live created (env_create_file env path)"
    and calm_encode: "calm live created (env_encode env path st)"
    and calm_vpn: "calm live created (env_vpn_deploy env)" "calm live created (env_vpn_clean env)"
    and rounds: "phase \<in> {env_before env nodes, env_execute env nodes, env_after env nodes}
      \<Longrightarrow> phase (st, w) = (r, st', w') \<Longrightarrow> live_ids live w' \<subseteq> live_ids live w"
    and listed: "env_list env (ContainerLabelKey, ContainerLabelValue) w = (listing, w') \<Longrightarrow>
      live_ids live w' \<subseteq> live_ids live w
      \<and> (\<forall>cs. listing = Return (Inr cs) \<longrightarrow> live_ids live w' \<subseteq> app_id ` set cs)"
    and create: "env_create env cfg hc name w = (made, w') \<Longrightarrow> live_ids live w' \<subseteq> live_ids live w
      \<and> (\<forall>cid. made = Return (Inr cid) \<longrightarrow> created w' cid = Some cfg)"
    and start: "env_start env cid w = (r, w') \<Longrightarrow>
      live_ids live w' \<subseteq> live_ids live w \<union> (if is_app (created w cid) then {cid} else {})"
    and stop: "env_stop env cid w = (r, w') \<Longrightarrow> live_ids live w' \<subseteq> live_ids live w
      \<and> (r = Return (Inr ()) \<longrightarrow> cid \<notin> live_ids live w')"
begin

text \<open>Every running application container is in the list of the strategy.\<close>

definition cover :: "'w docker \<Rightarrow> bool" where
  "cover s \<longleftrightarrow> live_ids live (d_world s) \<subseteq> app_id ` set (d_containers s)"

definition docker_inv :: "'w docker \<Rightarrow> bool" where
  "docker_inv s \<longleftrightarrow> (d_updated s \<longrightarrow> cover s)"

abbreviation below :: "string set \<Rightarrow> 'w \<Rightarrow> bool" where
  "below X w \<equiv> live_ids live w \<subseteq> X"

lemma keeps_shrink:
  assumes "\<And>X. keeps (below X) m"
  shows "keeps cover (on_world m)"
proof (rule keepsI)
  fix s assume "cover s"
  then have "below (app_id ` set (d_containers s)) (snd (m (d_world s)))"
    using assms by (simp add: keeps_def cover_def)
  then show "cover (snd (on_world m s))"
    by (cases "m (d_world s)") (simp add: on_world_def focus_def cover_def)
qed

lemma below_calm:
  assumes "calm live created m"
  shows "keeps (below X) m"
proof (rule keepsI)
  fix w assume "below X w"
  then show "below X (snd (m w))"
    using assms unfolding calm_def by (cases "m w") (metis dual_order.trans snd_conv)
qed

lemma keeps_calm: "calm live created m \<Longrightarrow> keeps cover (on_world m)"
  by (intro keeps_shrink below_calm)

lemma keeps_round:
  assumes "phase \<in> {env_before env nodes, env_execute env nodes, env_after env nodes}"
  shows "keeps cover (on_round phase)"
proof (rule keepsI)
  fix s assume "cover s"
  moreover obtain r st w where "phase (d_stats s, d_world s) = (r, st, w)"
    by (cases "phase (d_stats s, d_world s)") auto
  ultimately show "cover (snd (on_round phase s))"
    using rounds [OF assms] by (fastforce simp: on_round_def focus_def cover_def)
qed

lemma cover_rounds: "keeps cover (on_round (env_before env nodes))" "keeps cover (on_round (env_execute env nodes))"
    "keeps cover (on_round (env_after env nodes))"
  by (rule keeps_round [of _ nodes], simp)+

lemmas cover_calm = keeps_calm [OF calm_pull] keeps_calm [OF calm_attach] keeps_calm [OF calm_send]
  keeps_calm [OF calm_logs] keeps_calm [OF calm_stats] keeps_calm [OF calm_remove] keeps_calm [OF calm_mkdir]
  keeps_calm [OF calm_file] keeps_calm [OF calm_encode] keeps_calm [OF calm_vpn(1)] keeps_calm [OF calm_vpn(2)]

lemma cover_stream_log: "keeps cover (stream_log env folder c)"
  unfolding stream_log_def
  by (cases "app_names c") (auto intro!: keeps_intros cover_calm)

lemma cover_set: "(\<And>s. d_world (f s) = d_world s) \<Longrightarrow> (\<And>s. d_containers (f s) = d_containers s)
    \<Longrightarrow> keeps cover (update f)"
  by (rule keepsI) (simp add: cover_def)

lemma cover_stream_logs: "keeps cover (stream_logs env)"
proof (rule keepsI)
  fix s assume "cover s"
  moreover have "keeps cover (attempt (update (\<lambda>s. s\<lparr>d_streaming := True\<rparr>)) (\<lambda>e. e) (\<lambda>_.
        attempt (fetch (\<lambda>s. path_join [output_dir (d_options s), ''logs''])) (\<lambda>e. e) (\<lambda>folder.
        attempt (on_world (env_remove_all env folder)) (errorf ''failed removing logs'') (\<lambda>_.
        attempt (on_world (env_mkdir_all env folder)) (errorf ''failed creating log directory'') (\<lambda>_.
        attempt (fetch d_containers) (\<lambda>e. e) (\<lambda>cs. for_calls (stream_log env folder) cs))))))"
    by (intro keeps_attempt keeps_fetch keeps_for_calls cover_set cover_calm cover_stream_log) simp_all
  ultimately show "cover (snd (stream_logs env s))"
    by (simp add: stream_logs_def keeps_def)
qed

lemma not_app: "\<not> is_app (Some netem_config)"
  by (simp add: is_app_def netem_config_def)

lemma cover_topo: "(\<And>t. keeps cover (k t)) \<Longrightarrow> keeps cover (with_topo k)"
  by (rule keepsI) (simp add: with_topo_def keeps_def split: option.splits)

lemma cover_wait: "keeps cover (wait_exec_call cid)"
  by (rule keepsI) (simp add: wait_exec_call_def cover_def split: prod.splits)

text \<open>The traffic shaping container is not an application container, so starting it is harmless.\<close>

lemma cover_configure: "keeps cover (configure_container env m c)"
  unfolding configure_container_def
proof (rule keeps_attempt_after)
  show "keeps cover (on_world (env_create env netem_config (netem_host_config c) ''''))"
    using create by (intro keeps_shrink keepsI) (metis dual_order.trans prod.collapse)
  fix s cid t
  assume "cover s" and t: "on_world (env_create env netem_config (netem_host_config c) '''') s = (Return (Inr cid), t)"
  let ?P = "\<lambda>s. cover s \<and> created (d_world s) cid = Some netem_config"
  have P: "?P t"
    using t \<open>cover s\<close> create [of netem_config "netem_host_config c" "''''" "d_world s"]
    by (fastforce simp: on_world_def focus_result cover_def)
  have attach: "?P (snd (on_world (env_attach env cid) t))"
  proof -
    obtain r w where rw: "env_attach env cid (d_world t) = (r, w)" by (cases "env_attach env cid (d_world t)")
    then have "live_ids live w \<subseteq> live_ids live (d_world t)" "created (d_world t) \<subseteq>\<^sub>m created w"
      using calm_attach [of cid] unfolding calm_def by blast+
    then show ?thesis
      using P rw by (auto simp: on_world_def focus_def cover_def map_le_def dom_def)
  qed
  have start: "cover (snd (on_world (env_start env cid) u))" if "?P u" for u
  proof -
    obtain r w where "env_start env cid (d_world u) = (r, w)" by (cases "env_start env cid (d_world u)")
    then show ?thesis
      using that start [of cid "d_world u" r w] by (auto simp: on_world_def focus_def cover_def not_app)
  qed
  let ?rest = "\<lambda>_. attempt (of_outcome (container_name c)) (\<lambda>e. e) (\<lambda>name.
     with_topo (\<lambda>t.
     attempt (on_world (env_send_rules env cid (topo_rules (env_entry_order env) t name m)))
       (errorf ''couldn't encode the rules'') (\<lambda>_.
     attempt (wait_exec_call cid) (errorf ''couldn't apply rule'') (\<lambda>_. give ()))))"
  have rest: "keeps cover (?rest x)" for x
    by (intro keeps_attempt keeps_of_outcome cover_topo cover_calm cover_wait keeps_give)
  show "cover (snd (attempt (on_world (env_attach env cid)) (errorf ''failed attaching container'') (\<lambda>_.
     attempt (on_world (env_start env cid)) (errorf ''couldn't start netem container'') ?rest) t))"
  proof (rule attempt_inv_after [where P = cover])
    fix x u assume "on_world (env_attach env cid) t = (Return (Inr x), u)"
    then have "?P u" using attach by simp
    then show "cover (snd (attempt (on_world (env_start env cid)) (errorf ''couldn't start netem container'') ?rest u))"
      by (rule attempt_inv [where P = cover, OF start rest])
  next
    show "cover (snd (on_world (env_attach env cid) t))" using attach by simp
  qed
qed

lemma cover_configure_containers: "keeps cover (configure_containers env)"
  unfolding configure_containers_def configure_one_def
  by (intro keeps_attempt keeps_of_outcome keeps_of_result keeps_fetch keeps_for_calls keeps_give
      cover_calm cover_configure)

lemma below_monitors: "open_monitors (env_stats env) cs w = (opened, r, w') \<Longrightarrow> below X w \<Longrightarrow> below X w'"
proof (induction cs arbitrary: w opened r)
  case (Cons c cs)
  obtain q v where "env_stats env (app_id c) w = (q, v)" by (cases "env_stats env (app_id c) w")
  moreover have "below X v"
    using keepsD [OF below_calm [OF calm_stats] Cons.prems(2) calculation] .
  ultimately show ?case
    using Cons.IH [of v] Cons.prems(1) by (auto split: prod.splits outcome.splits sum.splits)
qed simp

lemma cover_close: "keeps cover (close_monitored ood env cs)"
  by (rule keepsI) (auto simp: close_monitored_def focus_def cover_def split: prod.splits)

lemma split_keeps: "(\<And>a b. keeps P (k a b)) \<Longrightarrow> keeps P (case x of (a, b) \<Rightarrow> k a b)"
  by (cases x) simp

lemma cover_monitor: "keeps cover (monitor_containers ood env)"
proof (rule keepsI)
  fix s assume s: "cover s"
  obtain opened r w where w: "open_monitors (env_stats env) (d_containers s) (d_world s) = (opened, r, w)"
    by (cases "open_monitors (env_stats env) (d_containers s) (d_world s)") auto
  let ?t = "s\<lparr>d_stats := (d_stats s)\<lparr>stats_timestamp := env_now env (d_world s)\<rparr>, d_world := w\<rparr>"
  have t: "cover ?t" using below_monitors [OF w] s by (simp add: cover_def)
  have "cover (snd (attempt (close_monitored ood env opened) (\<lambda>e. e) (\<lambda>_. fail err :: ('w docker, app list) call) ?t))" for err
    by (rule attempt_inv [where P = cover]) (use t cover_close in \<open>auto simp: keeps_def\<close>)
  with t w show "cover (snd (monitor_containers ood env s))"
    by (auto simp: monitor_containers_def Let_def split: outcome.splits sum.splits)
qed

lemma cover_context: "keeps cover make_execution_context"
proof (rule keepsI)
  fix s assume "cover s"
  then show "cover (snd (make_execution_context s))"
    unfolding make_execution_context_def
    by (cases "execution_context (d_containers s)") simp_all
qed

lemma cover_fetch_stats:
  "keeps cover (on_world (dio_fetch_stats (env_mkdir_all env) (env_create_file env) (env_encode env) out st))"
  unfolding dio_fetch_stats_def
  by (intro keeps_shrink keeps_attempt keeps_give below_calm calm_mkdir calm_file calm_encode)

lemma cover_write_stats: "keeps cover (docker_write_stats env file)"
  unfolding docker_write_stats_def
  by (auto intro!: keeps_attempt keeps_fetch keeps_give cover_fetch_stats)

text \<open>A successful refreshing establishes the covering, whatever held before.\<close>

lemma refresh_covers:
  assumes "docker_inv s" and "refresh_containers env s = (Return (Inr ()), t)"
  shows "cover t"
proof (cases "d_updated s")
  case True
  then show ?thesis using assms by (simp add: refresh_containers_def docker_inv_def)
next
  case False
  then obtain cs w where "env_list env (ContainerLabelKey, ContainerLabelValue) (d_world s) = (Return (Inr cs), w)"
      "t = s\<lparr>d_world := w, d_containers := cs\<rparr>"
    using assms(2) by (auto simp: refresh_containers_def on_world_def focus_result elim!: attempt_valueE)
  then show ?thesis using listed by (fastforce simp: cover_def)
qed

lemma cover_inv: "cover s \<Longrightarrow> docker_inv s"
  by (simp add: docker_inv_def)

lemma inv_shrink:
  assumes "\<And>X. keeps (below X) m"
  shows "keeps docker_inv (on_world m)"
proof (rule keepsI)
  fix s assume "docker_inv s"
  moreover have "d_updated (snd (on_world m s)) = d_updated s"
    by (simp add: on_world_def focus_def split: prod.splits)
  ultimately show "docker_inv (snd (on_world m s))"
    using keeps_shrink [of m] assms by (simp add: docker_inv_def keeps_def)
qed

lemma refresh_inv: "keeps docker_inv (refresh_containers env)"
proof (rule keepsI)
  fix s assume s: "docker_inv s"
  obtain r t where rt: "refresh_containers env s = (r, t)" by (cases "refresh_containers env s")
  show "docker_inv (snd (refresh_containers env s))"
  proof (cases "r = Return (Inr ())")
    case True
    then show ?thesis using refresh_covers [OF s] rt by (simp add: cover_inv)
  next
    case False
    with rt have "t = s \<or> \<not> d_updated t"
      by (auto simp: refresh_containers_def on_world_def focus_result split: if_splits elim!: attempt_cases)
    then show ?thesis using s rt by (auto simp: docker_inv_def)
  qed
qed

text \<open>The phases: a refreshing, then calls that keep the covering.\<close>

lemma refresh_then:
  assumes "\<And>x. keeps cover (k x)"
  shows "keeps docker_inv (attempt (refresh_containers env) w k)"
proof (rule keeps_attempt_after [OF refresh_inv])
  fix s x t
  assume "docker_inv s" "refresh_containers env s = (Return (Inr x), t)"
  then have "cover t" by (intro refresh_covers) simp_all
  then show "docker_inv (snd (k x t))"
    using assms by (simp add: keeps_def cover_inv)
qed

lemma execute_keeps: "keeps docker_inv (docker_execute ood env)"
  unfolding docker_execute_def
  by (intro refresh_then keeps_attempt keeps_deferring cover_monitor cover_stream_logs cover_context
      cover_close cover_set cover_rounds) simp_all

lemma write_stats_keeps: "keeps docker_inv (docker_write_stats env file)"
  unfolding docker_write_stats_def dio_fetch_stats_def
  by (intro keeps_attempt keeps_fetch inv_shrink keeps_give below_calm calm_mkdir calm_file calm_encode
      split_keeps)

lemma stop_all:
  assumes "stop_containers (env_stop env) cs errs w = (Return (Inr []), w')"
  shows "errs = []" and "below X w \<Longrightarrow> below (X - app_id ` set cs) w'"
  using assms
proof (induction cs arbitrary: errs w X)
  case Nil
  { case 1 then show ?case by simp }
  { case 2 then show ?case by simp }
next
  case (Cons c cs)
  have step: "\<exists>v. env_stop env (app_id c) w = (Return (Inr ()), v) \<and> errs = []
      \<and> stop_containers (env_stop env) cs [] v = (Return (Inr []), w')"
    if "stop_containers (env_stop env) (c # cs) errs w = (Return (Inr []), w')" for errs w
    unfolding stop_containers.simps using that [unfolded stop_containers.simps]
  proof (cases rule: observe_cases)
    case (returns x u)
    then have "(case x of Inl err \<Rightarrow> errs @ [err] | Inr _ \<Rightarrow> errs) = []" by (intro Cons.IH(1))
    with returns show ?thesis by (cases x) auto
  qed simp_all
  { case 1 then show ?case using step by blast }
  { case 2
    then obtain v where v: "env_stop env (app_id c) w = (Return (Inr ()), v)"
        "stop_containers (env_stop env) cs [] v = (Return (Inr []), w')"
      using step by blast
    then have "below (X - {app_id c}) v" using stop [OF v(1)] 2 by blast
    then have "below (X - {app_id c} - app_id ` set cs) w'" using Cons.IH(2) v(2) by blast
    then show ?case by auto }
qed

lemma below_stop: "keeps (below X) (stop_containers (env_stop env) cs errs)"
proof (induction cs arbitrary: errs)
  case (Cons c cs)
  have "keeps (below X) (env_stop env (app_id c))"
  proof (rule keepsI)
    fix w assume "below X w"
    then show "below X (snd (env_stop env (app_id c) w))"
      using stop [of "app_id c" w] by (cases "env_stop env (app_id c) w") auto
  qed
  then show ?case using Cons by (auto intro!: keeps_observe)
qed (auto intro: keeps_give)

lemma clean_keeps: "keeps docker_inv (docker_clean env)"
  unfolding docker_clean_def
  by (intro keeps_observe refresh_then keeps_attempt keeps_fetch keeps_if keeps_fail inv_shrink keeps_shrink
      below_calm calm_vpn below_stop cover_set) simp_all

lemma clean_stops_all:
  assumes "docker_inv s" and "docker_clean env s = (Return (Inr ()), t)"
  shows "live_ids live (d_world t) = {}"
proof -
  obtain r s1 where s1: "on_world (env_vpn_clean env) s = (Return r, s1)"
      and rest: "attempt (refresh_containers env) (errorf ''couldn't get running containers'') (\<lambda>_.
        attempt (fetch d_containers) (\<lambda>e. e) (\<lambda>cs.
        attempt (on_world (stop_containers (env_stop env) cs (case r of Inl err \<Rightarrow> [errorf ''vpn'' err] | Inr _ \<Rightarrow> [])))
       (\<lambda>e. e) (\<lambda>errs.
       if errs \<noteq> [] then fail (Msg (''couldn't remove the containers: '' @ error_list errs))
       else update (\<lambda>s. s\<lparr>d_updated := True\<rparr>)))) s1 = (Return (Inr ()), t)"
    using assms(2) by (auto simp: docker_clean_def elim: observe_cases)
  have "docker_inv s1"
    using keepsD [OF inv_shrink [OF below_calm [OF calm_vpn(2)]] assms(1) s1] .
  then obtain s2 s3 where "cover s2" and stopped: "on_world (stop_containers (env_stop env) (d_containers s2)
        (case r of Inl err \<Rightarrow> [errorf ''vpn'' err] | Inr _ \<Rightarrow> [])) s2 = (Return (Inr []), s3)"
      and t: "t = s3\<lparr>d_updated := True\<rparr>"
    using rest refresh_covers by (fastforce split: if_splits elim!: attempt_valueE)
  then have "below (app_id ` set (d_containers s2) - app_id ` set (d_containers s2)) (d_world s3)"
    using stop_all by (fastforce simp: on_world_def focus_result cover_def)
  then show ?thesis using t by simp
qed

text \<open>A deployment starts on a strategy whose list is not loaded, and loads it after the last start.\<close>

abbreviation unloaded :: "'w docker \<Rightarrow> bool" where
  "unloaded s \<equiv> \<not> d_updated s"

lemma unloaded_world: "keeps unloaded (on_world m)"
  unfolding on_world_def by (rule keeps_focus) simp

lemma unloaded_topo: "(\<And>t. keeps unloaded (k t)) \<Longrightarrow> keeps unloaded (with_topo k)"
  by (rule keepsI) (simp add: with_topo_def keeps_def split: option.splits)

lemma unloaded_refresh: "keeps unloaded (refresh_containers env)"
proof (rule keepsI)
  fix s :: "'w docker" assume "unloaded s"
  moreover have "keeps unloaded (attempt (on_world (env_list env (ContainerLabelKey, ContainerLabelValue)))
             (errorf ''failed refreshing containers'') (\<lambda>cs. update (\<lambda>s. s\<lparr>d_containers := cs\<rparr>)))"
    by (intro keeps_attempt unloaded_world keeps_update) simp
  ultimately show "unloaded (snd (refresh_containers env s))"
    by (simp add: refresh_containers_def keeps_def)
qed

lemma unloaded_create: "keeps unloaded (create_containers env)"
  unfolding create_containers_def create_container_def
  by (intro keeps_attempt keeps_fetch keeps_give keeps_for_calls unloaded_world unloaded_topo unloaded_refresh)

lemma unloaded_pull: "keeps unloaded (pull_image env img)"
  unfolding pull_image_def Let_def
  by (intro keeps_attempt keeps_of_result keeps_give unloaded_world)

lemma create_covers:
  assumes "unloaded s" and "create_containers env s = (Return (Inr ()), t)"
  shows "cover t"
proof -
  obtain tp s1 where tp: "for_calls (create_container env (d_options s)) (topo_nodes (env_node_order env) tp) s = (Return (Inr ()), s1)"
      and r: "refresh_containers env s1 = (Return (Inr ()), t)"
    using assms(2) by (auto simp: create_containers_def with_topo_def split: option.splits elim!: attempt_valueE)
  have "keeps unloaded (for_calls (create_container env (d_options s)) (topo_nodes (env_node_order env) tp))"
    unfolding create_container_def by (intro keeps_for_calls keeps_attempt keeps_give unloaded_world)
  then have "unloaded s1" using assms(1) tp unfolding keeps_def by (metis snd_conv)
  then show ?thesis using refresh_covers [OF _ r] by (simp add: docker_inv_def)
qed

lemma create_then:
  assumes "\<And>x. keeps cover (k x)" and "unloaded s"
  shows "docker_inv (snd (attempt (create_containers env) w k s))"
proof (rule attempt_inv_after [where P = docker_inv])
  show "docker_inv (snd (create_containers env s))"
    using unloaded_create assms(2) by (simp add: keeps_def docker_inv_def)
  fix x t assume "create_containers env s = (Return (Inr x), t)"
  then show "docker_inv (snd (k x t))"
    using create_covers [OF assms(2)] assms(1) by (simp add: keeps_def cover_inv)
qed

lemma deploy_loads:
  assumes "unloaded s"
  shows "docker_inv (snd (docker_deploy env s))"
proof -
  let ?rest = "\<lambda>_. attempt (stream_logs env) (errorf ''couldn't stream logs'') (\<lambda>_.
     attempt (configure_containers env) (errorf ''couldn't configure the containers'') (\<lambda>_.
     attempt (on_world (env_vpn_deploy env)) (errorf ''couldn't deploy the vpn'') (\<lambda>_.
     attempt make_execution_context (\<lambda>e. e) (\<lambda>nodes.
     attempt (on_round (env_before env nodes)) (errorf (''failed running '' @ quoted ''Before'')) (\<lambda>_.
     update (\<lambda>s. s\<lparr>d_updated := True\<rparr>))))))"
  have rest: "keeps cover (?rest x)" for x
    by (intro keeps_attempt cover_stream_logs cover_configure_containers cover_calm cover_context cover_rounds cover_set)
      simp_all
  let ?img = "opt_image (d_options s)"
  have "docker_inv (snd (attempt (pull_image env ?img) (errorf ''couldn't pull the image'') (\<lambda>_.
      attempt (create_containers env) (errorf ''couldn't create the container'') ?rest) s))"
  proof (rule attempt_inv_after [where P = docker_inv])
    show "docker_inv (snd (pull_image env ?img s))"
      using unloaded_pull assms by (simp add: keeps_def docker_inv_def)
    fix x t assume "pull_image env ?img s = (Return (Inr x), t)"
    then have "unloaded t" using unloaded_pull assms unfolding keeps_def by (metis snd_conv)
    then show "docker_inv (snd (attempt (create_containers env) (errorf ''couldn't create the container'') ?rest t))"
      by (rule create_then [OF rest])
  qed
  then show ?thesis
    by (simp add: docker_deploy_def attempt_def)
qed

lemma contract:
  "strategy_contract (docker_strategy ood env) unloaded docker_inv (\<lambda>s. live_ids live (d_world s) = {})"
  by unfold_locales
    (simp_all add: docker_strategy_def docker_option_def deploy_loads execute_keeps write_stats_keeps
      clean_keeps clean_stops_all, simp add: docker_inv_def)

end

section \<open>A daemon\<close>

text \<open>
  A daemon in memory: identifiers are counted, a started application container gets the address of
  its number, a stopped one is removed. Nothing else changes what runs.
\<close>

record engine =
  eng_created :: "(string \<times> container_config \<times> host_config \<times> string) list"
  eng_live :: "app list"
  eng_sent :: "(string \<times> rule list) list"

definition eng_configs :: "engine \<Rightarrow> string \<rightharpoonup> container_config" where
  "eng_configs w cid = map_option fst (map_of (eng_created w) cid)"

definition eng_hosts :: "engine \<Rightarrow> string \<rightharpoonup> host_config" where
  "eng_hosts w cid = map_option (fst \<circ> snd) (map_of (eng_created w) cid)"

definition eng_create :: "container_config \<Rightarrow> host_config \<Rightarrow> string \<Rightarrow> (engine, string) call" where
  "eng_create cfg hc name w =
     (let cid = show_nat (length (eng_created w))
      in if map_of (eng_created w) cid \<noteq> None then (Return (Inl (Msg ''conflict'')), w)
         else (Return (Inr cid), w\<lparr>eng_created := (cid, cfg, hc, name) # eng_created w\<rparr>))"

definition eng_start :: "string \<Rightarrow> (engine, unit) call" where
  "eng_start cid w =
     (case map_of (eng_created w) cid of
        None \<Rightarrow> (Return (Inl (Msg ''no such container'')), w)
      | Some (cfg, hc, name) \<Rightarrow>
          (Return (Inr ()),
           if is_app (Some cfg)
           then w\<lparr>eng_live := eng_live w @ [\<lparr>app_id = cid, app_names = [slash # name],
                  app_networks = [DefaultContainerNetwork \<mapsto> ''172.17.0.'' @ cid]\<rparr>]\<rparr>
           else w))"

definition eng_stop :: "string \<Rightarrow> (engine, unit) call" where
  "eng_stop cid w =
     (if cid \<in> app_id ` set (eng_live w)
      then (Return (Inr ()), w\<lparr>eng_live := filter (\<lambda>c. app_id c \<noteq> cid) (eng_live w)\<rparr>)
      else (Return (Inl (Msg ''no such container'')), w))"

definition engine_env :: "engine docker_env" where
  "engine_env =
     \<lparr>env_pull = \<lambda>ref. give [Inr '''', Inl EOF], env_list = \<lambda>filters. fetch eng_live, env_create = eng_create,
      env_start = eng_start, env_attach = \<lambda>cid. give (),
      env_send_rules = \<lambda>cid rules. update (\<lambda>w. w\<lparr>eng_sent := eng_sent w @ [(cid, rules)]\<rparr>),
      env_logs = \<lambda>cid. give (), env_stats = \<lambda>cid. give (), env_samples = \<lambda>c w. [], env_stop = eng_stop,
      env_remove_all = \<lambda>p. give (), env_mkdir_all = \<lambda>p. give (), env_create_file = \<lambda>p. give (),
      env_encode = \<lambda>p st. give (), env_now = \<lambda>w. 0, env_vpn_deploy = give (), env_vpn_clean = give (),
      env_before = \<lambda>nodes. give (), env_execute = \<lambda>nodes. give (), env_after = \<lambda>nodes. give (),
      env_node_order = \<lambda>n xs. xs, env_entry_order = \<lambda>n xs. xs\<rparr>"

interpretation memory: docker_daemon engine_env eng_live eng_configs
  by unfold_locales
    (auto simp: engine_env_def calm_def live_ids_def eng_configs_def eng_create_def eng_start_def eng_stop_def
      map_le_def Let_def is_app_def split: option.splits prod.splits if_splits)

interpretation memory_contract:
  strategy_contract "docker_strategy ood engine_env" memory.unloaded memory.docker_inv
    "\<lambda>s. live_ids eng_live (d_world s) = {}" for ood
  by (rule memory.contract)

section \<open>Properties\<close>

text \<open>
  C8: A run of the Docker strategy that cleans leaves no application container behind: whatever
  became of the deployment and of the round, if they returned and the cleaning reports no error, then
  nothing that carries the label of the simulation runs any more, and the result is that of the
  phases. This holds for every client that keeps the documented laws.
\<close>

theorem docker_run_releases:
  assumes "docker_daemon env live created" and "\<not> d_updated s"
    and "do_clean fl \<or> wants_all fl"
    and "run_steps (docker_strategy ood env) fl (docker_option (with_vpn (vpn_command fl)) s) = (r, t)" and "r \<noteq> Blocked"
    and "docker_clean env t = (Return (Inr ()), u)"
  shows "run_flagged (docker_strategy ood env) fl s = (r, u) \<and> live_ids live (d_world u) = {}"
proof -
  have "strategy_contract (docker_strategy ood env) (\<lambda>s. \<not> d_updated s) (docker_daemon.docker_inv live)
      (\<lambda>s. live_ids live (d_world s) = {})"
    using docker_daemon.contract [OF assms(1)] .
  from strategy_contract.run_releases [OF this, of s fl r t u] show ?thesis
    using assms(2-6) by (simp add: docker_strategy_def)
qed

text \<open>A simple topology of two nodes, and the exits of their traffic shaping containers.\<close>

definition two_nodes :: "engine docker" where
  "two_nodes =
     new_docker
       (fold (\<lambda>f. f)
         [with_topology (Simple (fold (simple_step 50) [0, 1]
            \<lparr>st_nodes = replicate 2 (named_node ''''), st_links = Map.empty\<rparr>)),
          with_image ''nginx'' [] [] [], with_output ''/root''] initial_options)
       [Event ''die'' ''2'' [''exitCode'' \<mapsto> ''0''], Event ''die'' ''3'' [''exitCode'' \<mapsto> ''0'']]
       \<lparr>eng_created = [], eng_live = [], eng_sent = []\<rparr>"

theorem docker_run_releases_witness:
  "\<exists>u. run ''openvpn'' (docker_strategy (\<lambda>_. 0) engine_env) [''simnet''] two_nodes = (Return (Inr ()), u)
     \<and> live_ids eng_live (d_world u) = {}
     \<and> map (map_prod id (map rule_ip)) (eng_sent (d_world u)) = [(''2'', []), (''3'', [''172.17.0.0''])]"
proof -
  let ?st = "docker_strategy (\<lambda>_. 0) engine_env" and ?fl = "default_flags ''openvpn''"
  let ?s = "docker_option (with_vpn (vpn_command ?fl)) two_nodes"
  have "(case run_steps ?st ?fl ?s of (r, t) \<Rightarrow> case docker_clean engine_env t of (q, u) \<Rightarrow>
      (r, q, map (map_prod id (map rule_ip)) (eng_sent (d_world u))))
    = (Return (Inr ()), Return (Inr ()), [(''2'', []), (''3'', [''172.17.0.0''])])"
    by code_simp
  then obtain t u where t: "run_steps ?st ?fl ?s = (Return (Inr ()), t)"
      and u: "docker_clean engine_env t = (Return (Inr ()), u)"
      and sent: "map (map_prod id (map rule_ip)) (eng_sent (d_world u)) = [(''2'', []), (''3'', [''172.17.0.0''])]"
    by (auto split: prod.splits)
  have "run_flagged ?st ?fl two_nodes = (Return (Inr ()), u) \<and> live_ids eng_live (d_world u) = {}"
    using docker_run_releases [OF memory.docker_daemon_axioms _ _ t _ u]
    by (simp add: wants_all_def default_flags_def two_nodes_def new_docker_def)
  then show ?thesis
    using sent by (auto simp: run_def)
qed

section \<open>The delivery of the rules\<close>

text \<open>
  The laws of the client for the traffic shaping containers: \<open>sent w\<close> are the rules received by
  containers, in order, and \<open>placed w\<close> the host configuration each container was created with.
\<close>

definition quiet :: "('w \<Rightarrow> (string \<times> rule list) list) \<Rightarrow> ('w \<Rightarrow> string \<rightharpoonup> host_config) \<Rightarrow> ('w, 'a) call \<Rightarrow> bool" where
  "quiet sent placed m \<longleftrightarrow>
     (\<forall>w r w'. m w = (r, w') \<longrightarrow> sent w' = sent w \<and> placed w \<subseteq>\<^sub>m placed w')"

locale docker_shaper =
  fixes env :: "'w docker_env" and sent :: "'w \<Rightarrow> (string \<times> rule list) list"
    and placed :: "'w \<Rightarrow> string \<rightharpoonup> host_config"
  assumes quiet_pull: "quiet sent placed (env_pull env ref)"
    and quiet_create: "quiet sent placed (env_create env cfg hc name)"
    and quiet_attach: "quiet sent placed (env_attach env cid)"
    and quiet_start: "quiet sent placed (env_start env cid)"
    and placed_create: "env_create env cfg hc name w = (Return (Inr cid), w') \<Longrightarrow> placed w' cid = Some hc"
    and send: "env_send_rules env cid rules w = (Return (Inr ()), w') \<Longrightarrow>
      sent w' = sent w @ [(cid, rules)] \<and> placed w \<subseteq>\<^sub>m placed w'"
begin

lemma quietD: "quiet sent placed m \<Longrightarrow> m w = (r, w') \<Longrightarrow> sent w' = sent w \<and> placed w \<subseteq>\<^sub>m placed w'"
  unfolding quiet_def by blast

lemma configured:
  assumes "configure_container env m c s = (Return (Inr ()), t)"
  obtains cid name tp where "container_name c = Return name" and "opt_topology (d_options s) = Some tp"
    and "sent (d_world t) = sent (d_world s) @ [(cid, topo_rules (env_entry_order env) tp name m)]"
    and "placed (d_world s) \<subseteq>\<^sub>m placed (d_world t)" and "placed (d_world t) cid = Some (netem_host_config c)"
    and "d_options t = d_options s"
proof -
  obtain cid w1 w2 w3 w4 name tp where w1: "env_create env netem_config (netem_host_config c) '''' (d_world s) = (Return (Inr cid), w1)"
      and w2: "env_attach env cid w1 = (Return (Inr ()), w2)" and w3: "env_start env cid w2 = (Return (Inr ()), w3)"
      and name: "container_name c = Return name" and tp: "opt_topology (d_options s) = Some tp"
      and w4: "env_send_rules env cid (topo_rules (env_entry_order env) tp name m) w3 = (Return (Inr ()), w4)"
      and t: "d_world t = w4" "d_options t = d_options s"
    using assms
    by (cases "container_name c")
      (auto simp: configure_container_def on_world_def focus_result with_topo_def wait_exec_call_def
        split: option.splits prod.splits elim!: attempt_valueE)
  have "placed w1 cid = Some (netem_host_config c)" "placed (d_world s) \<subseteq>\<^sub>m placed w1"
      "sent w1 = sent (d_world s)"
    using placed_create [OF w1] quietD [OF quiet_create w1] by simp_all
  moreover have "placed w1 \<subseteq>\<^sub>m placed w4" "sent w4 = sent w1 @ [(cid, topo_rules (env_entry_order env) tp name m)]"
    using quietD [OF quiet_attach w2] quietD [OF quiet_start w3] send [OF w4] by (auto intro: map_le_trans)
  ultimately show thesis
    using that name tp t by (auto simp: map_le_def dom_def intro: map_le_trans)
qed

text \<open>
  \<open>delivered\<close>: each of the containers has a traffic shaping container in its network namespace,
  and these are the ones that have received rules, each those of its node, once and in order.
\<close>

definition delivered :: "(app \<Rightarrow> rule list) \<Rightarrow> 'w docker \<Rightarrow> app list \<Rightarrow> 'w docker \<Rightarrow> bool" where
  "delivered rules s cs t \<longleftrightarrow>
     d_options t = d_options s \<and>
     (\<exists>cids. list_all2 (\<lambda>cid c. placed (d_world t) cid = Some (netem_host_config c)) cids cs
       \<and> sent (d_world t) = sent (d_world s) @ zip cids (map rules cs))"

definition app_rules :: "topology \<Rightarrow> mapping \<Rightarrow> app \<Rightarrow> rule list" where
  "app_rules tp m c =
     (case container_name c of Return name \<Rightarrow> topo_rules (env_entry_order env) tp name m | _ \<Rightarrow> [])"

lemma delivered_step:
  assumes "opt_topology (d_options s) = Some tp"
  shows "succeeds (delivered (app_rules tp m) s cs) (configure_one env m c) (\<lambda>_. delivered (app_rules tp m) s (cs @ [c]))"
proof (rule succeedsI)
  fix u x t assume u: "delivered (app_rules tp m) s cs u" and "configure_one env m c u = (Return (Inr x), t)"
  then have "configure_container env m c u = (Return (Inr ()), t)"
    by (auto simp: configure_one_def elim!: attempt_valueE)
  then obtain cid name tp' where name: "container_name c = Return name" and "opt_topology (d_options u) = Some tp'"
      and sent: "sent (d_world t) = sent (d_world u) @ [(cid, topo_rules (env_entry_order env) tp' name m)]"
      and mono: "placed (d_world u) \<subseteq>\<^sub>m placed (d_world t)"
      and placed: "placed (d_world t) cid = Some (netem_host_config c)"
      and opts: "d_options t = d_options u"
    by (rule configured)
  moreover have "tp' = tp" using assms u \<open>opt_topology (d_options u) = Some tp'\<close> by (simp add: delivered_def)
  ultimately have step: "sent (d_world t) = sent (d_world u) @ [(cid, app_rules tp m c)]"
    by (simp add: app_rules_def)
  from u obtain cids where cids: "list_all2 (\<lambda>cid c. placed (d_world u) cid = Some (netem_host_config c)) cids cs"
      and su: "sent (d_world u) = sent (d_world s) @ zip cids (map (app_rules tp m) cs)"
    by (auto simp: delivered_def)
  have "list_all2 (\<lambda>cid c. placed (d_world t) cid = Some (netem_host_config c)) cids cs"
    using cids mono by (elim list_all2_mono) (auto simp: map_le_def dom_def)
  then have "list_all2 (\<lambda>cid c. placed (d_world t) cid = Some (netem_host_config c)) (cids @ [cid]) (cs @ [c])"
    using placed by (simp add: list_all2_appendI)
  moreover have "sent (d_world t) = sent (d_world s) @ zip (cids @ [cid]) (map (app_rules tp m) (cs @ [c]))"
    using su step list_all2_lengthD [OF cids] by simp
  ultimately show "delivered (app_rules tp m) s (cs @ [c]) t"
    using u opts by (auto simp: delivered_def)
qed

lemma configure_delivers:
  assumes "configure_containers env s = (Return (Inr ()), t)" and "opt_topology (d_options s) = Some tp"
  obtains m where "make_mapping (d_containers s) Map.empty = Return m"
    and "delivered (app_rules tp m) s (d_containers s) t"
proof -
  obtain items u m where pull: "on_world (env_pull env (ImageBaseURL @ ''/'' @ ImageMonitor @ '':'' @ daemon_version)) s
        = (Return (Inr items), u)"
      and m: "make_mapping (d_containers s) Map.empty = Return m"
      and loop: "for_calls (configure_one env m) (d_containers s) u = (Return (Inr ()), t)"
  proof -
    from assms(1) obtain items u where p: "on_world (env_pull env (ImageBaseURL @ ''/'' @ ImageMonitor @ '':'' @ daemon_version)) s
        = (Return (Inr items), u)"
        and k: "attempt (of_result (wait_image_pull items)) (errorf ''couldn't complete pull'') (\<lambda>_.
     attempt (fetch d_containers) (\<lambda>e. e) (\<lambda>cs.
     attempt (of_outcome (make_mapping cs Map.empty)) (\<lambda>e. e) (\<lambda>m.
     for_calls (configure_one env m) cs))) u = (Return (Inr ()), t)"
      unfolding configure_containers_def by (rule attempt_valueE)
    moreover have "d_containers u = d_containers s"
      using p by (auto simp: on_world_def focus_result)
    ultimately show thesis
      using that [OF p] by (cases "wait_image_pull items"; cases "make_mapping (d_containers s) Map.empty")
        (auto elim!: attempt_valueE)
  qed
  have start: "delivered (app_rules tp m) s [] u"
    using pull quietD [OF quiet_pull] by (auto simp: delivered_def on_world_def focus_result)
  have "succeeds (delivered (app_rules tp m) s []) (for_calls (configure_one env m) (d_containers s))
      (\<lambda>_. delivered (app_rules tp m) s ([] @ d_containers s))"
    by (rule succeeds_for_calls) (rule delivered_step [OF assms(2)])
  then have "delivered (app_rules tp m) s ([] @ d_containers s) t"
    using start loop unfolding succeeds_def by blast
  then show thesis
    using that [OF m] by simp
qed

end

text \<open>The mapping sends the name of every container to its address; of equal names the last one counts.\<close>

lemma make_mapping_entries:
  assumes "make_mapping cs m0 = Return m"
  shows "\<exists>kvs. list_all2 (\<lambda>(k, v) c. container_name c = Return k \<and> container_address c = Return v) kvs cs
    \<and> m = m0 ++ map_of (rev kvs)"
  using assms
proof (induction cs arbitrary: m0)
  case (Cons c cs)
  then obtain k v where "container_name c = Return k" "container_address c = Return v"
      and "make_mapping cs (m0(k \<mapsto> v)) = Return m"
    by (cases "container_name c"; cases "container_address c") auto
  moreover from this obtain kvs where
      "list_all2 (\<lambda>(k, v) c. container_name c = Return k \<and> container_address c = Return v) kvs cs"
      "m = m0(k \<mapsto> v) ++ map_of (rev kvs)"
    using Cons.IH by blast
  ultimately have "list_all2 (\<lambda>(k, v) c. container_name c = Return k \<and> container_address c = Return v) ((k, v) # kvs) (c # cs)
      \<and> m = m0 ++ map_of (rev ((k, v) # kvs))"
    by (auto simp: map_add_def fun_eq_iff split: option.splits)
  then show ?case by blast
qed simp

interpretation memory_shaper: docker_shaper engine_env eng_sent eng_hosts
  by unfold_locales
    (auto simp: engine_env_def quiet_def eng_create_def eng_start_def eng_hosts_def map_le_def Let_def
      split: option.splits prod.splits if_splits)

lemma delivered_rules:
  assumes "docker_shaper env sent placed" and "opt_topology (d_options s) = Some tp"
    and "configure_containers env s = (Return (Inr ()), t)"
  shows "\<exists>cids kvs.
    list_all2 (\<lambda>(name, address) c. container_name c = Return name \<and> container_address c = Return address)
      kvs (d_containers s)
    \<and> list_all2 (\<lambda>cid c. placed (d_world t) cid = Some (netem_host_config c)) cids (d_containers s)
    \<and> sent (d_world t) = sent (d_world s)
        @ zip cids (map (\<lambda>(name, _). topo_rules (env_entry_order env) tp name (map_of (rev kvs))) kvs)"
proof -
  obtain m where m: "make_mapping (d_containers s) Map.empty = Return m"
      and d: "docker_shaper.delivered sent placed (docker_shaper.app_rules env tp m) s (d_containers s) t"
    using docker_shaper.configure_delivers [OF assms(1) assms(3) assms(2)] .
  obtain kvs where kvs: "list_all2 (\<lambda>(k, v) c. container_name c = Return k \<and> container_address c = Return v) kvs (d_containers s)"
      "m = map_of (rev kvs)"
    using make_mapping_entries [OF m] by auto
  have "map (docker_shaper.app_rules env tp m) (d_containers s)
      = map (\<lambda>(name, _). topo_rules (env_entry_order env) tp name m) kvs"
    using kvs(1) by (induction rule: list_all2_induct) (auto simp: docker_shaper.app_rules_def [OF assms(1)])
  then show ?thesis
    using d kvs by (auto simp: docker_shaper.delivered_def [OF assms(1)])
qed

text \<open>
  C9: A deployment that succeeds has delivered the rules. Every listed container has a traffic
  shaping container of its own in its network namespace; these containers, in the order of the list,
  are the ones that received rules, each exactly those of its node in the topology, computed with the
  mapping from the names of all containers to their addresses; nothing else was sent.
\<close>

theorem rules_delivered:
  assumes "docker_shaper env sent placed" and "opt_topology (d_options s) = Some tp"
    and "configure_containers env s = (Return (Inr ()), t)"
  shows "\<exists>cids kvs.
    list_all2 (\<lambda>(name, address) c. container_name c = Return name \<and> container_address c = Return address)
      kvs (d_containers s)
    \<and> list_all2 (\<lambda>cid c. placed (d_world t) cid = Some (netem_host_config c)) cids (d_containers s)
    \<and> sent (d_world t) = sent (d_world s)
        @ zip cids (map (\<lambda>(name, _). topo_rules (env_entry_order env) tp name (map_of (rev kvs))) kvs)"
  using assms by (rule delivered_rules)

theorem rules_delivered_witness:
  "\<exists>t cids kvs. configure_containers engine_env (two_nodes\<lparr>d_containers := [web_container], d_events :=
        [Event ''die'' ''0'' [''exitCode'' \<mapsto> ''0'']]\<rparr>) = (Return (Inr ()), t)
     \<and> list_all2 (\<lambda>(name, address) c. container_name c = Return name \<and> container_address c = Return address) kvs [web_container]
     \<and> list_all2 (\<lambda>cid c. eng_hosts (d_world t) cid = Some (netem_host_config c)) cids [web_container]"
proof -
  let ?s = "two_nodes\<lparr>d_containers := [web_container], d_events := [Event ''die'' ''0'' [''exitCode'' \<mapsto> ''0'']]\<rparr>"
  have "fst (configure_containers engine_env ?s) = Return (Inr ())"
    by code_simp
  then obtain t where t: "configure_containers engine_env ?s = (Return (Inr ()), t)"
    by (cases "configure_containers engine_env ?s") auto
  obtain tp where tp: "opt_topology (d_options ?s) = Some tp"
    by (simp add: two_nodes_def new_docker_def with_topology_def with_image_def with_output_def Let_def)
  from rules_delivered [OF memory_shaper.docker_shaper_axioms tp t] obtain cids kvs where
      "list_all2 (\<lambda>(name, address) c. container_name c = Return name \<and> container_address c = Return address)
        kvs (d_containers ?s)"
      "list_all2 (\<lambda>cid c. eng_hosts (d_world t) cid = Some (netem_host_config c)) cids (d_containers ?s)"
    by blast
  moreover have "d_containers ?s = [web_container]" by simp
  ultimately show ?thesis
    using t by (intro exI conjI) simp_all
qed

section \<open>The loaded list\<close>

definition loaded :: "app list \<Rightarrow> 'w docker \<Rightarrow> bool" where
  "loaded cs s \<longleftrightarrow> d_updated s \<and> d_containers s = cs"

lemma loaded_update: "(\<And>s. d_updated (f s) \<longleftrightarrow> d_updated s) \<Longrightarrow> (\<And>s. d_containers (f s) = d_containers s)
    \<Longrightarrow> keeps (loaded cs) (update f)"
  by (rule keepsI) (simp add: loaded_def)

lemma loaded_done: "keeps (loaded cs) (update (\<lambda>s. s\<lparr>d_updated := True\<rparr>))"
  by (rule keepsI) (simp add: loaded_def)

lemma loaded_world: "keeps (loaded cs) (on_world m)"
  unfolding on_world_def by (rule keeps_focus) (simp add: loaded_def)

lemma loaded_round: "keeps (loaded cs) (on_round m)"
  unfolding on_round_def by (rule keeps_focus) (auto simp: loaded_def)

lemma loaded_topo: "(\<And>t. keeps (loaded cs) (k t)) \<Longrightarrow> keeps (loaded cs) (with_topo k)"
  by (rule keepsI) (simp add: with_topo_def keeps_def split: option.splits)

lemma loaded_refresh: "keeps (loaded cs) (refresh_containers env)"
  by (rule keepsI) (simp add: refresh_containers_def loaded_def)

lemma loaded_wait: "keeps (loaded cs) (wait_exec_call cid)"
  by (rule keepsI) (simp add: wait_exec_call_def loaded_def split: prod.splits)

lemma loaded_context: "keeps (loaded cs) make_execution_context"
proof (rule keepsI)
  fix s assume "loaded cs s"
  then show "loaded cs (snd (make_execution_context s))"
    unfolding make_execution_context_def by (cases "execution_context (d_containers s)") simp_all
qed

lemma loaded_stream_logs:
  fixes env :: "'w docker_env"
  shows "keeps (loaded cs) (stream_logs env)"
proof (rule keepsI)
  fix s :: "'w docker" assume s: "loaded cs s"
  have "keeps (loaded cs) (stream_log env folder c)" for folder c
    unfolding stream_log_def
    by (cases "app_names c") (auto intro!: keeps_attempt loaded_world keeps_panic keeps_give)
  then have "keeps (loaded cs) (attempt (update (\<lambda>s. s\<lparr>d_streaming := True\<rparr>)) (\<lambda>e. e) (\<lambda>_.
        attempt (fetch (\<lambda>s. path_join [output_dir (d_options s), ''logs''])) (\<lambda>e. e) (\<lambda>folder.
        attempt (on_world (env_remove_all env folder)) (errorf ''failed removing logs'') (\<lambda>_.
        attempt (on_world (env_mkdir_all env folder)) (errorf ''failed creating log directory'') (\<lambda>_.
        attempt (fetch d_containers) (\<lambda>e. e) (\<lambda>cs. for_calls (stream_log env folder) cs))))))"
    by (intro keeps_attempt keeps_fetch keeps_for_calls loaded_update loaded_world) simp_all
  with s show "loaded cs (snd (stream_logs env s))"
    by (simp add: stream_logs_def keeps_def)
qed

lemmas loaded_calls = keeps_attempt keeps_observe keeps_fetch keeps_give keeps_fail keeps_if keeps_for_calls keeps_of_outcome
  loaded_world loaded_round loaded_topo loaded_refresh loaded_wait loaded_context keeps_of_result loaded_stream_logs loaded_done

lemma loaded_deploy: "keeps (loaded cs) (docker_deploy env)"
  unfolding docker_deploy_def pull_image_def create_containers_def create_container_def configure_containers_def
    configure_one_def configure_container_def Let_def
  by (intro loaded_calls)

lemma loaded_clean: "keeps (loaded cs) (docker_clean env)"
  unfolding docker_clean_def by (intro loaded_calls)

text \<open>
  The laws of the client that tell what a deployment leaves alone: only the traffic shaping containers
  receive rules, and to stop a container stops no other one. \<open>live w\<close> are the application
  containers that were started and not stopped.
\<close>

locale docker_network = docker_shaper +
  fixes live :: "'a \<Rightarrow> app list"
  assumes quiet_logs: "quiet sent placed (env_logs env cid)"
    and quiet_remove: "quiet sent placed (env_remove_all env path)"
    and quiet_mkdir: "quiet sent placed (env_mkdir_all env path)"
    and quiet_file: "quiet sent placed (env_create_file env path)"
    and quiet_vpn: "quiet sent placed (env_vpn_deploy env)"
    and quiet_before: "env_before env nodes (st, w) = (r, st', w') \<Longrightarrow> sent w' = sent w \<and> placed w \<subseteq>\<^sub>m placed w'"
    and stop_others: "env_stop env cid w = (r, w') \<Longrightarrow> live_ids live w - {cid} \<subseteq> live_ids live w'"
    and vpn_others: "env_vpn_clean env w = (r, w') \<Longrightarrow> live_ids live w \<subseteq> live_ids live w'"
begin

text \<open>The list is loaded, and nothing was sent since the rules \<open>l\<close>.\<close>

definition undisturbed :: "app list \<Rightarrow> options \<Rightarrow> (string \<times> rule list) list \<Rightarrow> (string \<rightharpoonup> host_config)
    \<Rightarrow> 'a docker \<Rightarrow> bool" where
  "undisturbed cs opts l p s \<longleftrightarrow>
     loaded cs s \<and> d_options s = opts \<and> sent (d_world s) = l \<and> p \<subseteq>\<^sub>m placed (d_world s)"

lemma undisturbed_world: "quiet sent placed m \<Longrightarrow> keeps (undisturbed cs opts l p) (on_world m)"
  by (rule keepsI)
    (auto simp: undisturbed_def on_world_def focus_def loaded_def quiet_def intro: map_le_trans split: prod.splits)

lemma undisturbed_list: "keeps (undisturbed cs opts l p) (refresh_containers env)"
  by (rule keepsI) (simp add: undisturbed_def refresh_containers_def loaded_def)

lemma undisturbed_update:
  "(\<And>s. loaded cs s \<Longrightarrow> loaded cs (f s)) \<Longrightarrow> (\<And>s. d_options (f s) = d_options s) \<Longrightarrow> (\<And>s. d_world (f s) = d_world s)
    \<Longrightarrow> keeps (undisturbed cs opts l p) (update f)"
  by (rule keepsI) (simp add: undisturbed_def)

lemma undisturbed_topo: "(\<And>t. keeps (undisturbed cs opts l p) (k t)) \<Longrightarrow> keeps (undisturbed cs opts l p) (with_topo k)"
  by (rule keepsI) (simp add: with_topo_def keeps_def split: option.splits)

lemmas undisturbed_calls = keeps_attempt keeps_fetch keeps_give keeps_for_calls keeps_of_result undisturbed_topo
  undisturbed_list undisturbed_world quiet_pull quiet_create quiet_start quiet_logs quiet_remove quiet_mkdir
  quiet_file quiet_vpn

lemma undisturbed_pull: "keeps (undisturbed cs opts l p) (pull_image env img)"
  unfolding pull_image_def Let_def by (intro undisturbed_calls)

lemma undisturbed_create: "keeps (undisturbed cs opts l p) (create_containers env)"
  unfolding create_containers_def create_container_def by (intro undisturbed_calls)

lemma undisturbed_stream: "keeps (undisturbed cs opts l p) (stream_logs env)"
proof (rule keepsI)
  fix s assume s: "undisturbed cs opts l p s"
  have "keeps (undisturbed cs opts l p) (stream_log env folder c)" for folder c
    unfolding stream_log_def by (cases "app_names c") (auto intro!: undisturbed_calls keeps_panic)
  then have "keeps (undisturbed cs opts l p) (attempt (update (\<lambda>s. s\<lparr>d_streaming := True\<rparr>)) (\<lambda>e. e) (\<lambda>_.
        attempt (fetch (\<lambda>s. path_join [output_dir (d_options s), ''logs''])) (\<lambda>e. e) (\<lambda>folder.
        attempt (on_world (env_remove_all env folder)) (errorf ''failed removing logs'') (\<lambda>_.
        attempt (on_world (env_mkdir_all env folder)) (errorf ''failed creating log directory'') (\<lambda>_.
        attempt (fetch d_containers) (\<lambda>e. e) (\<lambda>cs. for_calls (stream_log env folder) cs))))))"
    by (intro undisturbed_calls undisturbed_update) (simp_all add: loaded_def)
  with s show "undisturbed cs opts l p (snd (stream_logs env s))"
    by (simp add: stream_logs_def keeps_def)
qed

lemma undisturbed_context: "keeps (undisturbed cs opts l p) make_execution_context"
proof (rule keepsI)
  fix s assume "undisturbed cs opts l p s"
  then show "undisturbed cs opts l p (snd (make_execution_context s))"
    unfolding make_execution_context_def by (cases "execution_context (d_containers s)") simp_all
qed

lemma undisturbed_before: "keeps (undisturbed cs opts l p) (on_round (env_before env nodes))"
proof (rule keepsI)
  fix s assume "undisturbed cs opts l p s"
  moreover obtain r st w where w: "env_before env nodes (d_stats s, d_world s) = (r, st, w)"
    by (cases "env_before env nodes (d_stats s, d_world s)") auto
  ultimately show "undisturbed cs opts l p (snd (on_round (env_before env nodes) s))"
    using quiet_before [OF w]
    by (auto simp: undisturbed_def on_round_def focus_def loaded_def intro: map_le_trans)
qed

text \<open>A deployment on a strategy whose list is loaded: the containers of that list are configured.\<close>

lemma redeployed:
  assumes "d_updated s" and "docker_deploy env s = (Return (Inr ()), t)"
  shows "\<exists>cids rules. length rules = length (d_containers s)
    \<and> list_all2 (\<lambda>cid c. placed (d_world t) cid = Some (netem_host_config c)) cids (d_containers s)
    \<and> sent (d_world t) = sent (d_world s) @ zip cids rules"
proof -
  let ?cs = "d_containers s" and ?opts = "d_options s"
  obtain s1 s2 s3 s4 s5 s6 nodes where
      pull: "pull_image env (opt_image ?opts) s = (Return (Inr ()), s1)"
      and create: "create_containers env s1 = (Return (Inr ()), s2)"
      and stream: "stream_logs env s2 = (Return (Inr ()), s3)"
      and conf: "configure_containers env s3 = (Return (Inr ()), s4)"
      and vpn: "on_world (env_vpn_deploy env) s4 = (Return (Inr ()), s5)"
      and ctx: "make_execution_context s5 = (Return (Inr nodes), s6)"
      and rest: "attempt (on_round (env_before env nodes)) (errorf (''failed running '' @ quoted ''Before''))
          (\<lambda>_. update (\<lambda>s. s\<lparr>d_updated := True\<rparr>)) s6 = (Return (Inr ()), t)"
    using assms(2) unfolding docker_deploy_def by (auto elim!: attempt_valueE)
  let ?U = "undisturbed ?cs ?opts (sent (d_world s)) Map.empty"
  have "?U s" using assms(1) by (simp add: undisturbed_def loaded_def)
  then have "?U s1" by (rule keepsD [OF undisturbed_pull]) (rule pull)
  then have "?U s2" by (rule keepsD [OF undisturbed_create]) (rule create)
  then have U3: "?U s3" by (rule keepsD [OF undisturbed_stream]) (rule stream)
  obtain tp where tp: "opt_topology ?opts = Some tp"
    using \<open>?U s1\<close> create
    by (auto simp: create_containers_def with_topo_def undisturbed_def split: option.splits elim!: attempt_valueE)
  from U3 have at3: "d_options s3 = ?opts" "d_containers s3 = ?cs" "sent (d_world s3) = sent (d_world s)" "loaded ?cs s3"
    by (simp_all add: undisturbed_def loaded_def)
  obtain m where "delivered (app_rules tp m) s3 ?cs s4"
    using configure_delivers [OF conf] tp at3 by auto
  then obtain cids where opts4: "d_options s4 = ?opts"
      and cids: "list_all2 (\<lambda>cid c. placed (d_world s4) cid = Some (netem_host_config c)) cids ?cs"
      and sent: "sent (d_world s4) = sent (d_world s) @ zip cids (map (app_rules tp m) ?cs)"
    using at3 by (auto simp: delivered_def)
  have "keeps (loaded ?cs) (configure_containers env)"
    unfolding configure_containers_def configure_one_def configure_container_def by (intro loaded_calls)
  then have "loaded ?cs s4" using at3(4) conf by (rule keepsD)
  let ?V = "undisturbed ?cs ?opts (sent (d_world s4)) (placed (d_world s4))"
  have "?V s4" using opts4 \<open>loaded ?cs s4\<close> by (simp add: undisturbed_def)
  then have "?V s5" by (rule keepsD [OF undisturbed_world [OF quiet_vpn]]) (rule vpn)
  then have V6: "?V s6" by (rule keepsD [OF undisturbed_context]) (rule ctx)
  have "keeps ?V (attempt (on_round (env_before env nodes)) (errorf (''failed running '' @ quoted ''Before''))
          (\<lambda>_. update (\<lambda>s. s\<lparr>d_updated := True\<rparr>)))"
    by (intro keeps_attempt undisturbed_before undisturbed_update) (simp_all add: loaded_def)
  then have "?V t" using V6 rest by (rule keepsD)
  then have "sent (d_world t) = sent (d_world s4)" "placed (d_world s4) \<subseteq>\<^sub>m placed (d_world t)"
    by (simp_all add: undisturbed_def)
  moreover have "list_all2 (\<lambda>cid c. placed (d_world t) cid = Some (netem_host_config c)) cids ?cs"
    using cids calculation(2) by (elim list_all2_mono) (auto simp: map_le_def dom_def)
  ultimately show ?thesis
    using sent by (intro exI [of _ cids] exI [of _ "map (app_rules tp m) ?cs"]) simp
qed

lemma stop_only:
  "Y \<inter> app_id ` set cs = {} \<Longrightarrow> keeps (\<lambda>w. Y \<subseteq> live_ids live w) (stop_containers (env_stop env) cs errs)"
proof (induction cs arbitrary: errs)
  case (Cons c cs)
  have "keeps (\<lambda>w. Y \<subseteq> live_ids live w) (env_stop env (app_id c))"
  proof (rule keepsI)
    fix w assume "Y \<subseteq> live_ids live w"
    then show "Y \<subseteq> live_ids live (snd (env_stop env (app_id c) w))"
      using Cons.prems stop_others [of "app_id c" w] by (cases "env_stop env (app_id c) w") auto
  qed
  then show ?case using Cons by (auto intro!: keeps_observe)
qed (auto intro: keeps_give)

text \<open>A cleaning stops the containers of the loaded list only.\<close>

lemma clean_only:
  assumes "d_updated s" and "docker_clean env s = (r, t)"
  shows "live_ids live (d_world s) - app_id ` set (d_containers s) \<subseteq> live_ids live (d_world t)"
proof -
  let ?cs = "d_containers s"
  let ?P = "\<lambda>t. loaded ?cs t \<and> live_ids live (d_world s) - app_id ` set ?cs \<subseteq> live_ids live (d_world t)"
  have world: "keeps ?P (on_world m)"
    if "keeps (\<lambda>w. live_ids live (d_world s) - app_id ` set ?cs \<subseteq> live_ids live w) m" for m :: "('a, 'b) call"
  proof (rule keepsI)
    fix t assume t: "?P t"
    obtain q v where v: "m (d_world t) = (q, v)" by (cases "m (d_world t)")
    then have "live_ids live (d_world s) - app_id ` set ?cs \<subseteq> live_ids live v"
      using t by (intro keepsD [OF that _ v]) simp
    then show "?P (snd (on_world m t))" using t v by (simp add: on_world_def focus_def loaded_def)
  qed
  have stopping: "keeps ?P (attempt (fetch d_containers) (\<lambda>e. e) (\<lambda>cs.
        attempt (on_world (stop_containers (env_stop env) cs errs)) (\<lambda>e. e) (\<lambda>errs.
        if errs \<noteq> [] then fail (Msg (''couldn't remove the containers: '' @ error_list errs))
        else update (\<lambda>s. s\<lparr>d_updated := True\<rparr>))))" for errs
  proof (rule keeps_attempt_after)
    fix u cs v assume u: "?P u" and "fetch d_containers u = (Return (Inr cs), v)"
    then have cs: "v = u" "cs = ?cs" by (auto simp: loaded_def)
    have "keeps ?P (attempt (on_world (stop_containers (env_stop env) ?cs errs)) (\<lambda>e. e) (\<lambda>errs.
        if errs \<noteq> [] then fail (Msg (''couldn't remove the containers: '' @ error_list errs))
        else update (\<lambda>s. s\<lparr>d_updated := True\<rparr>)))"
      by (intro keeps_attempt keeps_if keeps_fail keeps_update world stop_only) (auto simp: loaded_def)
    then show "?P (snd (attempt (on_world (stop_containers (env_stop env) cs errs)) (\<lambda>e. e) (\<lambda>errs.
        if errs \<noteq> [] then fail (Msg (''couldn't remove the containers: '' @ error_list errs))
        else update (\<lambda>s. s\<lparr>d_updated := True\<rparr>)) v))"
      unfolding cs keeps_def using u by blast
  qed (rule keeps_fetch)
  have vpn: "keeps ?P (on_world (env_vpn_clean env))"
    by (intro world keepsI) (metis dual_order.trans prod.collapse vpn_others)
  have "keeps ?P (refresh_containers env)"
    by (rule keepsI) (simp add: refresh_containers_def loaded_def)
  then have "keeps ?P (docker_clean env)"
    unfolding docker_clean_def by (rule keeps_observe [OF vpn keeps_attempt [OF _ stopping]])
  then have "?P t" using assms by (elim keepsD) (simp_all add: loaded_def)
  then show ?thesis by blast
qed

end

interpretation memory_network: docker_network engine_env eng_sent eng_hosts eng_live
  by unfold_locales
    (auto simp: engine_env_def quiet_def live_ids_def eng_stop_def split: if_splits)

text \<open>
  C16: Once a phase has succeeded the list of containers is never read again. A later deployment on
  the same strategy keeps the old list: the only containers that receive rules are traffic shaping
  containers in the namespaces of the old list, one each, so no container of the new deployment is
  configured; and the cleaning after it, whatever its result, stops no container outside the old list,
  so what the second deployment started goes on running.
\<close>

theorem docker_redeploy_stale:
  assumes "docker_network env sent placed live" and "d_updated s"
    and "docker_deploy env s = (Return (Inr ()), t)" and "docker_clean env t = (r, u)"
  shows "d_containers t = d_containers s \<and> d_containers u = d_containers s
    \<and> (\<exists>cids rules. length rules = length (d_containers s)
        \<and> list_all2 (\<lambda>cid c. placed (d_world t) cid = Some (netem_host_config c)) cids (d_containers s)
        \<and> sent (d_world t) = sent (d_world s) @ zip cids rules)
    \<and> live_ids live (d_world t) - app_id ` set (d_containers s) \<subseteq> live_ids live (d_world u)"
proof -
  have "loaded (d_containers s) s" using assms(2) by (simp add: loaded_def)
  then have t: "loaded (d_containers s) t" using assms(3) by (rule keepsD [OF loaded_deploy])
  then have "loaded (d_containers s) u" using assms(4) by (rule keepsD [OF loaded_clean])
  with t show ?thesis
    using docker_network.redeployed [OF assms(1-3)] docker_network.clean_only [OF assms(1) _ assms(4)]
    by (simp add: loaded_def)
qed

text \<open>The first round is deployed and cleaned; the nodes of the second one stay.\<close>

theorem docker_redeploy_stale_witness:
  "\<exists>t u v w r. docker_deploy engine_env (two_nodes\<lparr>d_events :=
        map (\<lambda>cid. Event ''die'' cid [''exitCode'' \<mapsto> ''0'']) [''2'', ''3'', ''6'', ''7'']\<rparr>) = (Return (Inr ()), t)
     \<and> docker_clean engine_env t = (Return (Inr ()), u) \<and> docker_deploy engine_env u = (Return (Inr ()), v)
     \<and> docker_clean engine_env v = (r, w) \<and> map app_id (d_containers w) = [''0'', ''1'']
     \<and> map app_id (eng_live (d_world v)) = [''4'', ''5''] \<and> {''4'', ''5''} \<subseteq> live_ids eng_live (d_world w)"
proof -
  let ?s = "two_nodes\<lparr>d_events := map (\<lambda>cid. Event ''die'' cid [''exitCode'' \<mapsto> ''0'']) [''2'', ''3'', ''6'', ''7'']\<rparr>"
  obtain r1 t where t: "docker_deploy engine_env ?s = (r1, t)" by (cases "docker_deploy engine_env ?s")
  obtain r2 u where u: "docker_clean engine_env t = (r2, u)" by (cases "docker_clean engine_env t")
  obtain r3 v where v: "docker_deploy engine_env u = (r3, v)" by (cases "docker_deploy engine_env u")
  obtain r4 w where w: "docker_clean engine_env v = (r4, w)" by (cases "docker_clean engine_env v")
  have "(case docker_deploy engine_env ?s of (r1, t) \<Rightarrow> case docker_clean engine_env t of (r2, u) \<Rightarrow>
      case docker_deploy engine_env u of (r3, v) \<Rightarrow>
        (r1, r2, r3, d_updated u, map app_id (d_containers u), map app_id (eng_live (d_world v))))
    = (Return (Inr ()), Return (Inr ()), Return (Inr ()), True, [''0'', ''1''], [''4'', ''5''])"
    by code_simp
  then have "(r1, r2, r3, d_updated u, map app_id (d_containers u), map app_id (eng_live (d_world v)))
      = (Return (Inr ()), Return (Inr ()), Return (Inr ()), True, [''0'', ''1''], [''4'', ''5''])"
    unfolding t u v prod.case .
  then have run: "r1 = Return (Inr ())" "r2 = Return (Inr ())" "r3 = Return (Inr ())" "d_updated u"
      "map app_id (d_containers u) = [''0'', ''1'']" "map app_id (eng_live (d_world v)) = [''4'', ''5'']"
    by simp_all
  have "docker_deploy engine_env u = (Return (Inr ()), v)" using v run(3) by simp
  from docker_redeploy_stale [OF memory_network.docker_network_axioms run(4) this w]
  have stale: "d_containers w = d_containers u"
      "live_ids eng_live (d_world v) - app_id ` set (d_containers u) \<subseteq> live_ids eng_live (d_world w)"
    by simp_all
  have "live_ids eng_live (d_world v) = set (map app_id (eng_live (d_world v)))"
      "app_id ` set (d_containers u) = set (map app_id (d_containers u))"
    by (simp_all add: live_ids_def)
  with stale(2) have "{''4'', ''5''} \<subseteq> live_ids eng_live (d_world w)"
    unfolding run by simp
  with t u v w run stale(1) show ?thesis
    by (intro exI [of _ t] exI [of _ u] exI [of _ v] exI [of _ w] exI [of _ r4] conjI) simp_all
qed

text \<open>
  A failure of the log streaming is reported once: the call marks the streaming as started before
  it does anything, so after an error the next phase finds nothing to do and runs without logs.
\<close>

theorem stream_logs_not_retried:
  assumes "stream_logs env s = (Return (Inl e), t)"
  shows "stream_logs env t = (Return (Inr ()), t)"
proof -
  let ?on = "\<lambda>s. d_streaming s"
  have world: "keeps ?on (on_world m)" for m :: "('w, 'b) call"
    unfolding on_world_def by (rule keeps_focus) simp
  have log: "keeps ?on (stream_log env folder c)" for folder c
    unfolding stream_log_def by (cases "app_names c") (auto intro!: keeps_attempt world keeps_panic keeps_give)
  have "keeps ?on (attempt (fetch (\<lambda>s. path_join [output_dir (d_options s), ''logs''])) (\<lambda>e. e) (\<lambda>folder.
        attempt (on_world (env_remove_all env folder)) (errorf ''failed removing logs'') (\<lambda>_.
        attempt (on_world (env_mkdir_all env folder)) (errorf ''failed creating log directory'') (\<lambda>_.
        attempt (fetch d_containers) (\<lambda>e. e) (\<lambda>cs. for_calls (stream_log env folder) cs)))))"
    by (intro keeps_attempt keeps_fetch keeps_for_calls log world)
  from keepsD [OF this, of "s\<lparr>d_streaming := True\<rparr>"] have "d_streaming t"
    using assms by (auto simp: stream_logs_def attempt_value [of "update f" for f] split: if_splits)
  then show ?thesis by (simp add: stream_logs_def)
qed

theorem stream_logs_not_retried_witness:
  "let env = engine_env\<lparr>env_mkdir_all := \<lambda>p. fail (Msg ''denied'')\<rparr>; (r, t) = stream_logs env two_nodes
   in r = Return (Inl (Msg ''failed creating log directory: denied'')) \<and> stream_logs env t = (Return (Inr ()), t)"
proof -
  let ?env = "engine_env\<lparr>env_mkdir_all := \<lambda>p. fail (Msg ''denied'')\<rparr>"
  have "fst (stream_logs ?env two_nodes) = Return (Inl (Msg ''failed creating log directory: denied''))"
    by code_simp
  then obtain t where t: "stream_logs ?env two_nodes = (Return (Inl (Msg ''failed creating log directory: denied'')), t)"
    by (cases "stream_logs ?env two_nodes") auto
  then show ?thesis
    using stream_logs_not_retried [OF t] by simp
qed

end
