(* ===== verification/Tunnel.thy ===== *)
theory Tunnel
  imports Go_Bufio Go_Calls Options
begin

text \<open>
  The VPN tunnel (\<open>sim/tunnel.go\<close>): its options, the command line of the VPN client, the polling
  of its log until the tunnel is open or the timer fires, and the stop by the process identifiers of
  the PID file. Files, processes, the user and the timer are the record \<open>tunnel_env\<close>.
\<close>

section \<open>Options\<close>

definition LogFileName :: string where "LogFileName = ''vpn.log''"
definition PIDFileName :: string where "PIDFileName = ''running_pid''"
definition MessageInitDone :: string where "MessageInitDone = ''Initialization Sequence Completed''"
definition err_tunnel_timeout :: gerror where "err_tunnel_timeout = Msg ''tunnel timeout''"

record certificates =
  cert_ca :: string
  cert_key :: string
  cert_cert :: string

record tun_options =
  tun_cmd :: string
  tun_host :: string
  tun_port :: int
  tun_certificates :: certificates

type_synonym tun_option = "tun_options \<Rightarrow> tun_options"

definition with_command :: "string \<Rightarrow> tun_option" where
  "with_command c opts = opts\<lparr>tun_cmd := c\<rparr>"

definition with_host :: "string \<Rightarrow> tun_option" where
  "with_host h opts = opts\<lparr>tun_host := h\<rparr>"

definition with_port :: "int \<Rightarrow> tun_option" where
  "with_port p opts = opts\<lparr>tun_port := p\<rparr>"

definition with_certificate :: "certificates \<Rightarrow> tun_option" where
  "with_certificate certs opts = opts\<lparr>tun_certificates := certs\<rparr>"

definition initial_tun_options :: tun_options where
  "initial_tun_options =
     \<lparr>tun_cmd = ''openvpn'', tun_host = '''', tun_port = 0,
      tun_certificates = \<lparr>cert_ca = '''', cert_key = '''', cert_cert = ''''\<rparr>\<rparr>"

section \<open>The tunnel\<close>

text \<open>
  \<open>te_spawn\<close> and \<open>te_wait\<close> are the two halves of \<open>cmd.Run\<close>. \<open>te_polls\<close> is what the
  successive scanners read of the log before the timer fires, a piece for each.
\<close>

record 'w tunnel_env =
  te_create :: "string \<Rightarrow> ('w, unit) call"
  te_user :: "('w, string) call"
  te_spawn :: "string list \<Rightarrow> ('w, unit) call"
  te_wait :: "('w, unit) call"
  te_polls :: "'w \<Rightarrow> string list"
  te_open :: "string \<Rightarrow> ('w, string) call"
  te_find :: "int \<Rightarrow> ('w, unit) call"
  te_kill :: "int \<Rightarrow> ('w, unit) call"

text \<open>The one command of a tunnel is started at most once; \<open>tn_process\<close> says that it was.\<close>

record 'w tunnel =
  tn_out_dir :: string
  tn_process :: bool
  tn_world :: 'w

definition new_tunnel :: "string \<Rightarrow> 'w \<Rightarrow> 'w tunnel" where
  "new_tunnel out w = \<lparr>tn_out_dir = out, tn_process = False, tn_world = w\<rparr>"

definition on_host :: "('w, 'a) call \<Rightarrow> ('w tunnel, 'a) call" where
  "on_host = focus tn_world (\<lambda>w s. s\<lparr>tn_world := w\<rparr>)"

definition cmd_run :: "'w tunnel_env \<Rightarrow> string list \<Rightarrow> ('w tunnel, unit) call" where
  "cmd_run env args s =
     (if tn_process s then fail (Msg ''exec: already started'') s
      else attempt (on_host (te_spawn env args)) (\<lambda>e. e) (\<lambda>_.
           attempt (update (\<lambda>s. s\<lparr>tn_process := True\<rparr>)) (\<lambda>e. e) (\<lambda>_.
           on_host (te_wait env))) s)"

definition tun_args :: "tun_options \<Rightarrow> string \<Rightarrow> string \<Rightarrow> string list" where
  "tun_args opts user out =
     [tun_cmd opts, ''--client'', ''--dev'', ''tun'', ''--ca'', cert_ca (tun_certificates opts),
      ''--cert'', cert_cert (tun_certificates opts), ''--key'', cert_key (tun_certificates opts),
      ''--proto'', ''udp'', ''--remote'', tun_host opts, ''--port'', show_int (tun_port opts),
      ''--remote-cert-tls'', ''server'', ''--nobind'', ''--persist-key'', ''--persist-tun'', ''--comp-lzo'',
      ''--user'', user, ''--daemon'', ''--log'', path_join [out, LogFileName], ''--machine-readable-output'',
      ''--writepid'', path_join [out, PIDFileName], ''--verb'', ''3'']"

text \<open>Every poll scans what was appended to the file since the last one, with a scanner of its own.\<close>

fun poll_log :: "string list \<Rightarrow> gerror + unit" where
  "poll_log [] = Inl err_tunnel_timeout"
| "poll_log (chunk # chunks) =
     (if list_ex (\<lambda>l. str_contains l MessageInitDone) (scan_lines chunk) then Inr () else poll_log chunks)"

text \<open>The error of the command is printed, the one that is returned names the log.\<close>

definition tunnel_launch :: "'w tunnel_env \<Rightarrow> tun_option list \<Rightarrow> ('w tunnel, unit) call" where
  "tunnel_launch env opts =
     attempt (fetch tn_out_dir) (\<lambda>e. e) (\<lambda>out.
     attempt (on_host (te_create env (path_join [out, LogFileName]))) (errorf ''failed creating VPN log'') (\<lambda>_.
     attempt (on_host (te_user env)) (errorf ''failed getting current user'') (\<lambda>user.
     attempt (cmd_run env (''sudo'' # tun_args (fold (\<lambda>f. f) opts initial_tun_options) user out))
       (\<lambda>_. Msg (''vpn initialization failed: see '' @ path_join [out, LogFileName])) (\<lambda>_. give ()))))"

definition tunnel_start :: "'w tunnel_env \<Rightarrow> tun_option list \<Rightarrow> ('w tunnel, unit) call" where
  "tunnel_start env opts =
     attempt (tunnel_launch env opts) (\<lambda>e. e) (\<lambda>_. (\<lambda>s. (Return (poll_log (te_polls env (tn_world s))), s)))"

fun kill_lines :: "'w tunnel_env \<Rightarrow> string list \<Rightarrow> ('w, unit) call" where
  "kill_lines env [] = give ()"
| "kill_lines env (l # ls) =
     (case atoi l of
        Inl err \<Rightarrow> kill_lines env ls
      | Inr pid \<Rightarrow>
          attempt (te_find env pid) (errorf ''failed to find process'') (\<lambda>_.
          observe (te_kill env pid) (\<lambda>r.
            case r of
              Inl err \<Rightarrow> if error_text err = ''os: process already finished'' then give ()
                         else fail (errorf ''failed to kill'' err)
            | Inr _ \<Rightarrow> kill_lines env ls)))"

definition tunnel_stop :: "'w tunnel_env \<Rightarrow> ('w tunnel, unit) call" where
  "tunnel_stop env =
     attempt (fetch tn_out_dir) (\<lambda>e. e) (\<lambda>out.
     attempt (on_host (te_open env (path_join [out, PIDFileName]))) (errorf ''couldn't read PID'') (\<lambda>content.
     on_host (kill_lines env (scan_lines content))))"

section \<open>The log\<close>

lemma contains_append_newline:
  assumes "newline \<notin> set p" and "p \<noteq> []"
  shows "str_contains (l @ [newline] @ s) p \<longleftrightarrow> str_contains l p \<or> str_contains s p"
proof
  assume "str_contains (l @ [newline] @ s) p"
  then obtain u v where uv: "l @ [newline] @ s = u @ p @ v" by (auto simp: str_contains_iff)
  then consider (left) us where "l = u @ us" "us @ [newline] @ s = p @ v"
    | (right) us where "u = l @ us" "[newline] @ s = us @ p @ v"
    by (auto simp: append_eq_append_conv2)
  then show "str_contains l p \<or> str_contains s p"
  proof cases
    case left
    then consider ps where "us = p @ ps" | ps where "p = us @ ps" "[newline] @ s = ps @ v"
      by (auto simp: append_eq_append_conv2)
    then show ?thesis
    proof cases
      case 1 then show ?thesis using left by (auto simp: str_contains_iff)
    next
      case 2
      then have "ps = []" using assms(1) by (cases ps) auto
      then have "l = u @ p @ []" using 2 left by simp
      then show ?thesis unfolding str_contains_iff by blast
    qed
  next
    case right
    then obtain us' where "us = newline # us'" using assms by (cases us) (auto simp: append_eq_Cons_conv Cons_eq_append_conv)
    then show ?thesis using right by (auto simp: str_contains_iff)
  qed
next
  assume "str_contains l p \<or> str_contains s p"
  then show "str_contains (l @ [newline] @ s) p"
    by (auto simp: str_contains_iff) (metis append_assoc append_Cons)+
qed

abbreviation written :: "string list \<Rightarrow> string" where
  "written ls \<equiv> concat (map (\<lambda>l. l @ [newline]) ls)"

lemma contains_written:
  assumes "newline \<notin> set p" and "p \<noteq> []"
  shows "str_contains (written ls @ s) p \<longleftrightarrow> (\<exists>l \<in> set ls. str_contains l p) \<or> str_contains s p"
  using contains_append_newline [OF assms] by (induction ls) auto

lemma message_no_newline: "newline \<notin> set MessageInitDone" "MessageInitDone \<noteq> []"
  by (simp_all add: MessageInitDone_def)

lemma poll_written:
  assumes "\<forall>ls \<in> set lss. \<forall>l \<in> set ls. plain_line l"
  shows "poll_log (map written lss) =
    (if str_contains (concat (map written lss)) MessageInitDone then Inr () else Inl err_tunnel_timeout)"
  using assms
proof (induction lss)
  case Nil
  show ?case by (simp add: message_no_newline)
next
  case (Cons ls lss)
  then have "scan_lines (written ls) = ls" by (intro scan_written_lines) simp
  then show ?case
    using Cons contains_written [OF message_no_newline, of ls "concat (map written lss)"]
    by (auto simp: list_ex_iff)
qed

section \<open>Properties\<close>

text \<open>
  C21: The tunnel is reported open when the log says so. If every poll finds whole lines, the start
  succeeds exactly when the text written to the log before the timer contains the message of the
  VPN client, and ends with the timeout otherwise; but a message that reaches the log in two pieces
  with a poll in between is never seen, and the start times out on an open tunnel.
\<close>

theorem tunnel_opens_iff:
  assumes "tunnel_launch env opts s = (Return (Inr ()), t)"
    and "te_polls env (tn_world t) = map written lss" and "\<forall>ls \<in> set lss. \<forall>l \<in> set ls. plain_line l"
  shows "tunnel_start env opts s =
      (Return (if str_contains (concat (te_polls env (tn_world t))) MessageInitDone then Inr () else Inl err_tunnel_timeout), t)
    \<and> (\<lambda>k. poll_log [take k MessageInitDone, drop k MessageInitDone @ [newline]]) ` {0 <..< length MessageInitDone}
        \<subseteq> {Inl err_tunnel_timeout}"
proof (intro conjI subsetI)
  show "tunnel_start env opts s =
      (Return (if str_contains (concat (te_polls env (tn_world t))) MessageInitDone then Inr () else Inl err_tunnel_timeout), t)"
    using assms(1,2) poll_written [OF assms(3)] by (simp add: tunnel_start_def)
  fix x assume "x \<in> (\<lambda>k. poll_log [take k MessageInitDone, drop k MessageInitDone @ [newline]]) ` {0 <..< length MessageInitDone}"
  then obtain k where k: "0 < k" "k < length MessageInitDone"
      and x: "x = poll_log [take k MessageInitDone, drop k MessageInitDone @ [newline]]"
    by auto
  let ?a = "take k MessageInitDone" and ?b = "drop k MessageInitDone"
  have sub: "set ?a \<subseteq> set MessageInitDone" "set ?b \<subseteq> set MessageInitDone"
    by (rule set_take_subset, rule set_drop_subset)
  have plain: "newline \<notin> set MessageInitDone" "carriage_return \<notin> set MessageInitDone"
    by (simp_all add: MessageInitDone_def)
  have len: "length MessageInitDone < max_scan_token" by (simp add: MessageInitDone_def max_scan_token_def)
  have "scan_lines (written [?b]) = [?b]"
    using sub plain len by (intro scan_written_lines) auto
  moreover have "scan_lines ?a = [?a]"
  proof -
    have "newline \<notin> set ?a" "carriage_return \<notin> set ?a" "?a \<noteq> []" using sub plain k by auto
    moreover from this have "last ?a \<noteq> carriage_return" using last_in_set by metis
    ultimately have "raw_lines ?a = [?a]" "drop_cr ?a = ?a"
      by (simp_all add: raw_lines_def split_on_absent Let_def drop_cr_def)
    then show ?thesis using len by (simp add: scan_lines_def)
  qed
  moreover have short: "\<not> str_contains l MessageInitDone" if "length l < length MessageInitDone" for l
    using that by (auto simp: str_contains_iff)
  ultimately have "poll_log [?a, ?b @ [newline]] = Inl err_tunnel_timeout"
    using short [of ?a] short [of ?b] k by simp
  then show "x \<in> {Inl err_tunnel_timeout}" using x by simp
qed

text \<open>A host that records what is run and killed, with the VPN client open at the second poll.\<close>

definition recording_host :: "string \<Rightarrow> (string list) tunnel_env" where
  "recording_host pids =
     \<lparr>te_create = \<lambda>p. update (\<lambda>w. w @ [p]), te_user = give ''root'', te_spawn = \<lambda>args. update (\<lambda>w. w @ take 2 args),
      te_wait = give (), te_polls = \<lambda>w. [written [''OpenVPN 2.4''], written [''1 Initialization Sequence Completed'']],
      te_open = \<lambda>p. give pids, te_find = \<lambda>pid. give (),
      te_kill = \<lambda>pid. if pid = 7 then fail (Msg ''os: process already finished'')
        else update (\<lambda>w. w @ [show_int pid])\<rparr>"

theorem tunnel_opens_iff_witness:
  "\<exists>t. tunnel_start (recording_host '''') [with_command ''vpn''] (new_tunnel ''/tmp'' []) = (Return (Inr ()), t)
     \<and> tn_world t = [''/tmp/vpn.log'', ''sudo'', ''vpn'']
     \<and> poll_log [''Initialization Se'', ''quence Completed'' @ [newline]] = Inl err_tunnel_timeout"
proof -
  let ?s = "new_tunnel ''/tmp'' [] :: string list tunnel"
  have "(case tunnel_launch (recording_host '''') [with_command ''vpn''] ?s of (r, t) \<Rightarrow> (r, tn_world t))
      = (Return (Inr ()), [''/tmp/vpn.log'', ''sudo'', ''vpn''])"
    by code_simp
  then obtain t where t: "tunnel_launch (recording_host '''') [with_command ''vpn''] ?s = (Return (Inr ()), t)"
      and w: "tn_world t = [''/tmp/vpn.log'', ''sudo'', ''vpn'']"
    by (auto split: prod.splits)
  have polls: "te_polls (recording_host '''') (tn_world t)
      = map written [[''OpenVPN 2.4''], [''1 Initialization Sequence Completed'']]"
    by (simp add: recording_host_def)
  have "\<forall>ls \<in> set [[''OpenVPN 2.4''], [''1 Initialization Sequence Completed'']]. \<forall>l \<in> set ls. plain_line l"
    by (simp add: max_scan_token_def)
  note spec = tunnel_opens_iff [OF t polls this]
  have "17 \<in> {0 <..< length MessageInitDone}" by (simp add: MessageInitDone_def)
  then have "poll_log [take 17 MessageInitDone, drop 17 MessageInitDone @ [newline]] = Inl err_tunnel_timeout"
    using spec by blast
  moreover have "take 17 MessageInitDone = ''Initialization Se''" "drop 17 MessageInitDone = ''quence Completed''"
    by (simp_all add: MessageInitDone_def)
  moreover have "str_contains (concat (te_polls (recording_host '''') (tn_world t))) MessageInitDone"
    unfolding polls by code_simp
  ultimately show ?thesis
    using spec w by (intro exI [of _ t]) simp
qed

lemma show_int_plain: "in_int64 i \<Longrightarrow> plain_line (show_int i)"
proof -
  assume "in_int64 i"
  then have n: "nat \<bar>i\<bar> < 10 ^ 19" by (auto simp: in_int64_def)
  then have "length (show_nat (nat \<bar>i\<bar>)) \<le> 19" by (rule length_show_nat) simp
  then show ?thesis
    by (cases "i < 0") (auto simp: show_int_def show_nat_no_char max_scan_token_def)
qed

text \<open>
  C40: The stop kills the processes of the PID file in order. For a file with one identifier per
  line, all of them are killed when each can be; the first process that has already finished ends
  the stop without an error and leaves those after it running.
\<close>

theorem tunnel_stop_spec:
  assumes "te_open env (path_join [tn_out_dir s, PIDFileName]) (tn_world s)
      = (Return (Inr (written (map show_int (alive @ rest)))), w)"
    and "in_int64 ` set (alive @ rest) \<subseteq> {True}"
    and "\<And>pid v. te_find env pid v = (Return (Inr ()), v)"
    and "\<And>pid v. pid \<in> set alive \<Longrightarrow> te_kill env pid v = (Return (Inr ()), killed pid v)"
    and "\<And>pid v. rest \<noteq> [] \<Longrightarrow> pid = hd rest \<Longrightarrow> te_kill env pid v = (Return (Inl (Msg ''os: process already finished'')), v)"
  shows "tunnel_stop env s = (Return (Inr ()), s\<lparr>tn_world := fold killed alive w\<rparr>)"
proof -
  have plain: "\<forall>l \<in> set (map show_int (alive @ rest)). plain_line l"
    using assms(2) show_int_plain by auto
  have "kill_lines env (map show_int (alive @ rest)) v = (Return (Inr ()), fold killed alive v)" for v
    using assms(2,4)
  proof (induction alive arbitrary: v)
    case Nil
    then show ?case
      using assms(3,5) by (cases rest) (auto simp: atoi_show_int attempt_def observe_def)
  next
    case (Cons pid alive)
    then show ?case
      using assms(3) by (auto simp: atoi_show_int attempt_def observe_def)
  qed
  then show ?thesis
    using assms(1) scan_written_lines [OF plain]
    by (simp add: tunnel_stop_def on_host_def focus_def attempt_def)
qed

theorem tunnel_stop_spec_witness:
  "tunnel_stop (recording_host (written [''12'', ''34'', ''7'', ''9''])) (new_tunnel ''/tmp'' [])
     = (Return (Inr ()), (new_tunnel ''/tmp'' [])\<lparr>tn_world := [''12'', ''34'']\<rparr>)"
proof -
  have shown: "map show_int [12, 34, 7, 9] = [''12'', ''34'', ''7'', ''9'']" by code_simp
  have "tunnel_stop (recording_host (written [''12'', ''34'', ''7'', ''9''])) (new_tunnel ''/tmp'' [])
     = (Return (Inr ()), (new_tunnel ''/tmp'' [])\<lparr>tn_world := fold (\<lambda>pid w. w @ [show_int pid]) [12, 34] []\<rparr>)"
  proof (rule tunnel_stop_spec [where rest = "[7, 9]"])
    show "te_open (recording_host (written [''12'', ''34'', ''7'', ''9'']))
        (path_join [tn_out_dir (new_tunnel ''/tmp'' []), PIDFileName]) (tn_world (new_tunnel ''/tmp'' []))
      = (Return (Inr (written (map show_int ([12, 34] @ [7, 9])))), [])"
      using shown by (simp add: recording_host_def new_tunnel_def)
  qed (auto simp: recording_host_def in_int64_def)
  then show ?thesis using shown by simp
qed

text \<open>The command of a tunnel that has been opened is never run again.\<close>

lemma launched_process:
  assumes "tunnel_launch env opts s = (Return (Inr ()), t)"
  shows "tn_process t \<and> tn_out_dir t = tn_out_dir s"
  using assms unfolding tunnel_launch_def cmd_run_def on_host_def
  by (auto simp: focus_result elim!: attempt_valueE split: if_splits)

lemma stopped_process: "tunnel_stop env s = (r, t) \<Longrightarrow> tn_process t = tn_process s \<and> tn_out_dir t = tn_out_dir s"
proof -
  have "keeps (\<lambda>t. tn_process t = tn_process s \<and> tn_out_dir t = tn_out_dir s) (tunnel_stop env)"
    unfolding tunnel_stop_def on_host_def by (auto intro!: keeps_intros)
  then show "tunnel_stop env s = (r, t) \<Longrightarrow> tn_process t = tn_process s \<and> tn_out_dir t = tn_out_dir s"
    unfolding keeps_def by (metis snd_conv)
qed

text \<open>
  C38: A tunnel opens once: after it has been started and stopped without an error, no later start
  succeeds, whatever its options. The log is created anew, but the command is the one that was already
  started, so the VPN client is not run and the start ends with the error that points to the empty log.
\<close>

theorem tunnel_starts_once:
  assumes "tunnel_start env opts s = (Return (Inr ()), t)" and "tunnel_stop env t = (Return (Inr ()), u)"
    and "te_create env (path_join [tn_out_dir s, LogFileName]) (tn_world u) = (Return (Inr ()), w1)"
    and "te_user env w1 = (Return (Inr user), w2)"
  shows "tunnel_start env opts' u =
    (Return (Inl (Msg (''vpn initialization failed: see '' @ path_join [tn_out_dir s, LogFileName]))), u\<lparr>tn_world := w2\<rparr>)"
proof -
  have "tunnel_launch env opts s = (Return (Inr ()), t)"
    using assms(1) by (auto simp: tunnel_start_def elim!: attempt_valueE)
  then have "tn_process u \<and> tn_out_dir u = tn_out_dir s"
    using launched_process stopped_process [OF assms(2)] by metis
  then show ?thesis
    using assms(3,4) by (simp add: tunnel_start_def tunnel_launch_def cmd_run_def on_host_def focus_def attempt_def)
qed

lemma recording_polls: "poll_log (te_polls (recording_host pids) w) = Inr ()"
proof -
  let ?lss = "[[''OpenVPN 2.4''], [''1 Initialization Sequence Completed'']]"
  have "te_polls (recording_host pids) w = map written ?lss" by (simp add: recording_host_def)
  moreover have "\<forall>ls \<in> set ?lss. \<forall>l \<in> set ls. plain_line l" by (simp add: max_scan_token_def)
  moreover have "str_contains (concat (map written ?lss)) MessageInitDone" by code_simp
  ultimately show ?thesis by (simp only: poll_written if_True)
qed

theorem tunnel_starts_once_witness:
  "\<exists>t u. tunnel_start (recording_host '''') [] (new_tunnel ''/tmp'' []) = (Return (Inr ()), t)
     \<and> tunnel_stop (recording_host '''') t = (Return (Inr ()), u)
     \<and> fst (tunnel_start (recording_host '''') [] u)
        = Return (Inl (Msg (''vpn initialization failed: see '' @ path_join [''/tmp'', LogFileName])))"
proof -
  let ?h = "recording_host ''''" and ?s = "new_tunnel ''/tmp'' [] :: string list tunnel"
  have "fst (tunnel_launch ?h [] ?s) = Return (Inr ())"
    by code_simp
  then obtain t where "tunnel_launch ?h [] ?s = (Return (Inr ()), t)" by (cases "tunnel_launch ?h [] ?s") auto
  then have t: "tunnel_start ?h [] ?s = (Return (Inr ()), t)" by (simp add: tunnel_start_def recording_polls)
  obtain u where u: "tunnel_stop ?h t = (Return (Inr ()), u)"
    by (simp add: tunnel_stop_def on_host_def focus_def attempt_def recording_host_def scan_lines_def raw_lines_def)
  have out: "tn_out_dir ?s = ''/tmp''" by (simp add: new_tunnel_def)
  have "te_create ?h (path_join [tn_out_dir ?s, LogFileName]) (tn_world u)
      = (Return (Inr ()), tn_world u @ [path_join [tn_out_dir ?s, LogFileName]])"
    and "te_user ?h v = (Return (Inr ''root''), v)" for v
    by (simp_all add: recording_host_def)
  from tunnel_starts_once [OF t u this(1) this(2), of "[]"]
  have "fst (tunnel_start ?h [] u) = Return (Inl (Msg (''vpn initialization failed: see '' @ path_join [''/tmp'', LogFileName])))"
    by (simp only: out fst_conv)
  with t u show ?thesis by blast
qed

end
