(* ===== verification/Docker_VPN.thy ===== *)
theory Docker_VPN
  imports Docker_Daemon Tunnel
begin

text \<open>
  The VPN of the Docker strategy: on Linux it does nothing (\<open>sim/docker/vpn_linux.go\<close>), on macOS it
  runs a router container and opens a tunnel to it (\<open>sim/docker/vpn_darwin.go\<close>). Client, directory and
  tunnel are the record \<open>vpn_env\<close>.
\<close>

section \<open>Linux\<close>

definition linux_vpn_deploy :: "('w, unit) call" where
  "linux_vpn_deploy = give ()"

definition linux_vpn_clean :: "('w, unit) call" where
  "linux_vpn_clean = give ()"

section \<open>macOS\<close>

definition routerContainerName :: string where "routerContainerName = ''simnet-router''"
definition initContainerName :: string where "initContainerName = ''simnet-router-init''"
definition simnetRouterImage :: string where "simnetRouterImage = ''dedis/simnet-router''"
definition simnetRouterInitImage :: string where "simnetRouterInitImage = ''dedis/simnet-router-init''"

text \<open>The host configuration of these containers: bind mounts and published ports.\<close>

record router_host =
  rh_auto_remove :: bool
  rh_privileged :: bool
  rh_cap_add :: "string list"
  rh_ports :: "(string \<times> string \<times> string) list"
  rh_binds :: "(string \<times> string) list"

record 'w vpn_env =
  ve_pull :: "string \<Rightarrow> ('w, (gerror + string) list) call"
  ve_mkdir :: "string \<Rightarrow> ('w, unit) call"
  ve_create :: "string \<Rightarrow> router_host \<Rightarrow> string \<Rightarrow> ('w, string) call"
  ve_start :: "string \<Rightarrow> ('w, unit) call"
  ve_wait :: "string \<Rightarrow> ('w, unit) call"
  ve_stop :: "string \<Rightarrow> ('w, unit) call"
  ve_tun_start :: "tun_option list \<Rightarrow> ('w, unit) call"
  ve_tun_stop :: "('w, unit) call"

definition vpn_out_dir :: "options \<Rightarrow> string" where
  "vpn_out_dir opts = path_join [output_dir opts, ''vpn'']"

definition vpn_pull :: "'w vpn_env \<Rightarrow> string \<Rightarrow> ('w, unit) call" where
  "vpn_pull env img =
     (let ref = ImageBaseURL @ ''/'' @ img in
      attempt (ve_pull env ref) (errorf (''failed pulling image '' @ quoted ref)) (\<lambda>items.
      attempt (of_result (wait_image_pull items)) (errorf ''couldn't complete pull'') (\<lambda>_. give ())))"

definition init_host :: "string \<Rightarrow> router_host" where
  "init_host out = \<lparr>rh_auto_remove = True, rh_privileged = False, rh_cap_add = [], rh_ports = [],
     rh_binds = [(out, ''/etc/openvpn'')]\<rparr>"

definition router_host_config :: "string \<Rightarrow> router_host" where
  "router_host_config out = \<lparr>rh_auto_remove = True, rh_privileged = True, rh_cap_add = [''NET_ADMIN''],
     rh_ports = [(''1194/udp'', ''127.0.0.1'', ''1194'')], rh_binds = [(out, ''/etc/openvpn'')]\<rparr>"

text \<open>An existing directory is fine.\<close>

definition make_vpn_dir :: "'w vpn_env \<Rightarrow> string \<Rightarrow> ('w, unit) call" where
  "make_vpn_dir env out =
     observe (ve_mkdir env out) (\<lambda>r.
       case r of
         Inl (ErrExist m) \<Rightarrow> give ()
       | Inl err \<Rightarrow> fail (errorf ''failed creating VPN dir'' err)
       | Inr _ \<Rightarrow> give ())"

definition generate_certs :: "'w vpn_env \<Rightarrow> string \<Rightarrow> ('w, unit) call" where
  "generate_certs env out =
     attempt (make_vpn_dir env out) (\<lambda>e. e) (\<lambda>_.
     attempt (ve_create env simnetRouterInitImage (init_host out) initContainerName)
       (errorf ''failed creating router init container'') (\<lambda>cid.
     attempt (ve_start env cid) (errorf ''failed starting router init container'') (\<lambda>_.
     attempt (ve_wait env initContainerName) (errorf ''failed waiting for router init container'') (\<lambda>_. give ()))))"

definition create_router_container :: "'w vpn_env \<Rightarrow> string \<Rightarrow> ('w, unit) call" where
  "create_router_container env out =
     attempt (ve_create env simnetRouterImage (router_host_config out) routerContainerName)
       (errorf ''failed creating router container'') (\<lambda>cid.
     attempt (ve_start env cid) (errorf ''failed starting router container'') (\<lambda>_. give ()))"

definition vpn_certificates :: "string \<Rightarrow> certificates" where
  "vpn_certificates out =
     \<lparr>cert_ca = path_join [out, ''pki'', ''ca.crt''],
      cert_key = path_join [out, ''pki'', ''private'', ''client1.key''],
      cert_cert = path_join [out, ''pki'', ''issued'', ''client1.crt'']\<rparr>"

definition vpn_connect :: "'w vpn_env \<Rightarrow> string \<Rightarrow> string \<Rightarrow> ('w, unit) call" where
  "vpn_connect env out executable =
     attempt (ve_tun_start env [with_host ''127.0.0.1'', with_port 1194, with_certificate (vpn_certificates out),
         with_command executable])
       (errorf ''failed starting VPN tunnel'') (\<lambda>_. give ())"

definition vpn_deploy :: "'w vpn_env \<Rightarrow> options \<Rightarrow> string \<Rightarrow> ('w, unit) call" where
  "vpn_deploy env opts out =
     attempt (vpn_pull env simnetRouterImage) (errorf ''failed pulling router image'') (\<lambda>_.
     attempt (vpn_pull env simnetRouterInitImage) (errorf ''failed pulling router init image'') (\<lambda>_.
     attempt (generate_certs env out) (errorf ''failed generating certs'') (\<lambda>_.
     attempt (create_router_container env out) (errorf ''failed creating router container'') (\<lambda>_.
     attempt (vpn_connect env out (vpn_executable opts)) (errorf ''failed connecting over VPN'') (\<lambda>_. give ())))))"

text \<open>The errors are collected and dropped.\<close>

definition vpn_clean :: "'w vpn_env \<Rightarrow> ('w, unit) call" where
  "vpn_clean env =
     observe (ve_tun_stop env) (\<lambda>r1.
     observe (ve_stop env routerContainerName) (\<lambda>r2.
       let errs = (case r1 of Inl e \<Rightarrow> [e] | Inr _ \<Rightarrow> []) @ (case r2 of Inl e \<Rightarrow> [e] | Inr _ \<Rightarrow> [])
       in give ()))"

section \<open>Properties\<close>

text \<open>
  C37: On macOS the cleaning reports success even when the tunnel is still open and the router still
  runs: the errors of stopping them are collected and dropped, so only the application containers
  decide the result of the cleaning of the Docker strategy.
\<close>

theorem docker_clean_ignores_vpn:
  assumes "env_vpn_clean env = vpn_clean venv"
    and "ve_tun_stop venv (d_world s) = (Return r1, w1)" and "ve_stop venv routerContainerName w1 = (Return r2, w2)"
    and "refresh_containers env (s\<lparr>d_world := w2\<rparr>) = (Return (Inr ()), t)"
    and "stop_containers (env_stop env) (d_containers t) [] (d_world t) = (Return (Inr []), w3)"
  shows "docker_clean env s = (Return (Inr ()), t\<lparr>d_world := w3, d_updated := True\<rparr>)"
proof -
  have "vpn_clean venv (d_world s) = (Return (Inr ()), w2)"
    using assms(2,3) by (simp add: vpn_clean_def observe_def Let_def)
  then show ?thesis
    using assms(1,4,5) by (simp add: docker_clean_def on_world_def focus_def observe_def attempt_def)
qed

definition stuck_vpn :: "engine vpn_env" where
  "stuck_vpn =
     \<lparr>ve_pull = \<lambda>ref. give [], ve_mkdir = \<lambda>p. give (), ve_create = \<lambda>img hc name. give name, ve_start = \<lambda>cid. give (),
      ve_wait = \<lambda>name. give (), ve_stop = \<lambda>name. fail (Msg ''permission denied''), ve_tun_start = \<lambda>opts. give (),
      ve_tun_stop = fail (Msg ''failed to kill: operation not permitted'')\<rparr>"

theorem docker_clean_ignores_vpn_witness:
  "\<exists>u. docker_clean (engine_env\<lparr>env_vpn_clean := vpn_clean stuck_vpn\<rparr>) two_nodes = (Return (Inr ()), u)"
proof -
  let ?env = "engine_env\<lparr>env_vpn_clean := vpn_clean stuck_vpn\<rparr>" and ?w = "d_world two_nodes"
  have "refresh_containers ?env (two_nodes\<lparr>d_world := ?w\<rparr>) = (Return (Inr ()), two_nodes\<lparr>d_containers := []\<rparr>)"
    by (simp add: two_nodes_def new_docker_def refresh_containers_def engine_env_def on_world_def focus_def attempt_def)
  from docker_clean_ignores_vpn [OF _ _ _ this, of stuck_vpn _ ?w _ ?w] show ?thesis
    by (auto simp: stuck_vpn_def)
qed

end
