(* ===== verification/Sim_IO.thy ===== *)
theory Sim_IO
  imports Simulation
begin

text \<open>
  What a round works with (\<open>sim/mod.go\<close>): the interface \<open>sim.IO\<close> to the nodes and the interface
  \<open>sim.Round\<close> of the three steps of a simulation, as records of calls. A reader is its content and the
  error it ends with; the writers given to \<open>Exec\<close> only print. The locale \<open>io_frame\<close> is what a round
  that touches the nodes through \<open>sim.IO\<close> alone can rely on: a predicate that the operations keep is
  kept by the round. The locale \<open>network_faults\<close> is the contract of \<open>Disconnect\<close> and \<open>Reconnect\<close>.
\<close>

section \<open>The interfaces\<close>

type_synonym reader = "string \<times> gerror option"

record 's sim_io =
  io_tag :: "string \<Rightarrow> ('s, unit) call"
  io_read :: "string \<Rightarrow> string \<Rightarrow> ('s, reader) call"
  io_write :: "string \<Rightarrow> string \<Rightarrow> reader \<Rightarrow> ('s, unit) call"
  io_exec :: "string \<Rightarrow> string list \<Rightarrow> reader option \<Rightarrow> ('s, unit) call"
  io_disconnect :: "string \<Rightarrow> string list \<Rightarrow> ('s, unit) call"
  io_reconnect :: "string \<Rightarrow> ('s, unit) call"
  io_fetch_stats :: "int \<Rightarrow> int \<Rightarrow> string \<Rightarrow> ('s, unit) call"

record 's sim_round =
  round_before :: "'s sim_io \<Rightarrow> node_info list \<Rightarrow> ('s, unit) call"
  round_execute :: "'s sim_io \<Rightarrow> node_info list \<Rightarrow> ('s, unit) call"
  round_after :: "'s sim_io \<Rightarrow> node_info list \<Rightarrow> ('s, unit) call"

section \<open>What a round keeps\<close>

locale io_frame =
  fixes io :: "'s sim_io" and P :: "'s \<Rightarrow> bool"
  assumes keeps_tag: "keeps P (io_tag io name)"
    and keeps_read: "keeps P (io_read io node path)"
    and keeps_write: "keeps P (io_write io node path content)"
    and keeps_exec: "keeps P (io_exec io node cmd stdin)"
    and keeps_disconnect: "keeps P (io_disconnect io src targets)"
    and keeps_reconnect: "keeps P (io_reconnect io node)"
    and keeps_fetch_stats: "keeps P (io_fetch_stats io from until file)"
begin

lemmas keeps_io = keeps_tag keeps_read keeps_write keeps_exec keeps_disconnect keeps_reconnect keeps_fetch_stats

text \<open>A round is well behaved when it keeps whatever the operations keep.\<close>

definition framed :: "'s sim_round \<Rightarrow> bool" where
  "framed r \<longleftrightarrow> (\<forall>nodes. keeps P (round_before r io nodes) \<and> keeps P (round_execute r io nodes)
     \<and> keeps P (round_after r io nodes))"

end

section \<open>Partitions of the network\<close>

text \<open>The abstract network: the ordered pairs of nodes that are severed, and two operations on it.\<close>

type_synonym network = "(string \<times> string) set"

definition sever :: "string \<Rightarrow> string list \<Rightarrow> network \<Rightarrow> network" where
  "sever src targets net = net \<union> {src} \<times> set targets"

definition heal :: "string \<Rightarrow> network \<Rightarrow> network" where
  "heal node net = net - {node} \<times> UNIV"

datatype fault = Sever string "string list" | Heal string

fun fault_step :: "fault \<Rightarrow> network \<Rightarrow> network" where
  "fault_step (Sever src targets) = sever src targets"
| "fault_step (Heal node) = heal node"

fun fault_call :: "'s sim_io \<Rightarrow> fault \<Rightarrow> ('s, unit) call" where
  "fault_call io (Sever src targets) = io_disconnect io src targets"
| "fault_call io (Heal node) = io_reconnect io node"

text \<open>An interface that implements the abstract network, as long as its state is \<open>ready\<close>.\<close>

locale network_faults =
  fixes io :: "'s sim_io" and net :: "'s \<Rightarrow> network" and ready :: "'s \<Rightarrow> bool"
  assumes disconnect_ready: "keeps ready (io_disconnect io src targets)"
    and reconnect_ready: "keeps ready (io_reconnect io node)"
    and disconnect: "ready s \<Longrightarrow> io_disconnect io src targets s = (Return (Inr ()), t) \<Longrightarrow> net t = sever src targets (net s)"
    and reconnect: "ready s \<Longrightarrow> io_reconnect io node s = (Return (Inr ()), t) \<Longrightarrow> net t = heal node (net s)"
begin

lemma fault_ready: "keeps ready (fault_call io f)"
  by (cases f) (simp_all add: disconnect_ready reconnect_ready)

lemma fault_refines:
  "ready s \<Longrightarrow> fault_call io f s = (Return (Inr ()), t) \<Longrightarrow> net t = fault_step f (net s)"
  by (cases f) (simp_all add: disconnect reconnect)

text \<open>Every successful sequence of faults is simulated by the abstract one.\<close>

lemma faults_refine:
  assumes "ready s" and "for_calls (fault_call io) fs s = (Return (Inr ()), t)"
  shows "net t = fold fault_step fs (net s) \<and> ready t"
  using assms
proof (induction fs arbitrary: s)
  case (Cons f fs)
  from Cons.prems(2) obtain u where u: "fault_call io f s = (Return (Inr ()), u)"
      and rest: "for_calls (fault_call io) fs u = (Return (Inr ()), t)"
    by (auto elim: attempt_valueE)
  have "ready u" using fault_ready Cons.prems(1) u unfolding keeps_def by (metis snd_conv)
  then show ?case using Cons.IH rest fault_refines [OF Cons.prems(1) u] by simp
qed simp

end

end
