(* ===== verification/Kube_Objects.thy ===== *)
theory Kube_Objects
  imports Simulation
begin

text \<open>
  The Kubernetes objects that the engine creates and reads (\<open>sim/kubernetes/engine.go\<close>): containers,
  deployments and the router service with the fields the engine sets, pods and watch events with the
  fields it reads. Quantities are the texts given to \<open>resource.MustParse\<close>.
\<close>

section \<open>Constants\<close>

definition LabelApp :: string where "LabelApp = ''go.dedis.ch.app''"
definition AppName :: string where "AppName = ''simnet''"
definition LabelID :: string where "LabelID = ''go.dedis.ch.id''"
definition AppID :: string where "AppID = ''simnet-app''"
definition RouterID :: string where "RouterID = ''simnet-router''"
definition LabelNode :: string where "LabelNode = ''go.dedis.ch.node.id''"
definition TimeoutRouterDeployment :: int where "TimeoutRouterDeployment = 300"
definition TimeoutAppDeployment :: int where "TimeoutAppDeployment = 300"
definition ClientCertificateDistantPath :: string where
  "ClientCertificateDistantPath = ''/etc/openvpn/pki/issued/client1.crt''"
definition ClientKeyDistantPath :: string where "ClientKeyDistantPath = ''/etc/openvpn/pki/private/client1.key''"
definition CADistantPath :: string where "CADistantPath = ''/etc/openvpn/pki/ca.crt''"
definition MonitorDataFilepath :: string where "MonitorDataFilepath = ''/root/data''"
definition DefaultNetworkDevice :: string where "DefaultNetworkDevice = ''eth0''"
definition DefaultNetworkMask :: string where "DefaultNetworkMask = ''255.255.0.0''"
definition DeamonRequestMemory :: string where "DeamonRequestMemory = ''64Mi''"
definition DeamonRequestCPU :: string where "DeamonRequestCPU = ''20m''"
definition AppRequestMemory :: string where "AppRequestMemory = ''128Mi''"
definition AppRequestCPU :: string where "AppRequestCPU = ''100m''"
definition commandNetEm :: "string list" where "commandNetEm = [''sh'', ''-c'', ''./netem -log /proc/1/fd/1 -'']"

definition ContainerAppName :: string where "ContainerAppName = ''app''"
definition ContainerMonitorName :: string where "ContainerMonitorName = ''monitor''"
definition ContainerRouterName :: string where "ContainerRouterName = ''router''"
definition OptionMemoryAlloc :: string where "OptionMemoryAlloc = ''memory-alloc''"
definition OptionCPUAlloc :: string where "OptionCPUAlloc = ''cpu-alloc''"

text \<open>\<open>fmt.Sprintf("%s=%s", key, value)\<close>\<close>

definition label_selector :: "string \<Rightarrow> string \<Rightarrow> string" where
  "label_selector key value = key @ ''='' @ value"

section \<open>Objects that are created\<close>

record kube_container =
  kc_name :: string
  kc_image :: string
  kc_command :: "string list"
  kc_args :: "string list"
  kc_env :: "(string \<times> string) list"
  kc_ports :: "(string \<times> int) list"
  kc_mounts :: "(string \<times> string) list"
  kc_privileged :: bool
  kc_caps :: "string list"
  kc_requests :: "string \<rightharpoonup> string"

datatype volume_source = Host_path string | Memory_dir int

record deployment =
  dp_name :: string
  dp_labels :: "string \<rightharpoonup> string"
  dp_replicas :: int
  dp_selector :: "string \<rightharpoonup> string"
  dp_deadline :: int
  dp_pod_labels :: "string \<rightharpoonup> string"
  dp_hostname :: string
  dp_init_containers :: "kube_container list"
  dp_containers :: "kube_container list"
  dp_volumes :: "(string \<times> volume_source) list"
  dp_node_selector :: "string \<rightharpoonup> string"

record kube_service =
  sv_name :: string
  sv_ports :: "(int \<times> string) list"
  sv_type :: string
  sv_selector :: "string \<rightharpoonup> string"

definition plain_container :: "string \<Rightarrow> string \<Rightarrow> kube_container" where
  "plain_container name img =
     \<lparr>kc_name = name, kc_image = img, kc_command = [], kc_args = [], kc_env = [], kc_ports = [], kc_mounts = [],
      kc_privileged = False, kc_caps = [], kc_requests = Map.empty\<rparr>"

definition tmpfs_name :: "nat \<Rightarrow> string" where
  "tmpfs_name i = ''tmpfs-'' @ show_nat i"

definition container_port :: "port \<Rightarrow> string \<times> int" where
  "container_port p =
     (if port_protocol p = ''TCP'' then (''TCP'', port_value p)
      else if port_protocol p = ''UDP'' then (''UDP'', port_value p)
      else ('''', 0))"

text \<open>The type assertions panic when a quantity is missing.\<close>

definition make_container :: "options \<Rightarrow> kube_container outcome" where
  "make_container opts =
     (case (opt_data opts OptionMemoryAlloc, opt_data opts OptionCPUAlloc) of
        (Some memory, Some cpu) \<Rightarrow>
          Return ((plain_container ContainerAppName (opt_image opts))
            \<lparr>kc_command := opt_cmd opts, kc_args := opt_args opts, kc_ports := map container_port (opt_ports opts),
             kc_mounts := map (\<lambda>(i, v). (tmpfs_name i, tmp_destination v)) (List.enumerate 0 (opt_tmpfs opts)),
             kc_requests := [''memory'' \<mapsto> memory, ''cpu'' \<mapsto> cpu]\<rparr>)
      | _ \<Rightarrow> Panic ''interface conversion: interface {} is nil, not resource.Quantity'')"

definition monitor_container :: "node \<Rightarrow> kube_container" where
  "monitor_container n =
     (plain_container ContainerMonitorName (''dedis/simnet-monitor:'' @ daemon_version))
       \<lparr>kc_args := [''--container'', ''simnet-'' @ node_name n],
        kc_mounts := [(''dockersocket'', ''/var/run/docker.sock'')], kc_caps := [''NET_ADMIN''],
        kc_requests := [''memory'' \<mapsto> DeamonRequestMemory, ''cpu'' \<mapsto> DeamonRequestCPU]\<rparr>"

definition make_deployment :: "options \<Rightarrow> node \<Rightarrow> kube_container \<Rightarrow> deployment" where
  "make_deployment opts n c =
     (let labels = [LabelApp \<mapsto> AppName, LabelID \<mapsto> AppID, LabelNode \<mapsto> node_name n];
          volumes = (''dockersocket'', Host_path ''/var/run/docker.sock'')
            # map (\<lambda>(i, v). (tmpfs_name i, Memory_dir (tmp_size v))) (List.enumerate 0 (opt_tmpfs opts))
      in \<lparr>dp_name = ''simnet-'' @ node_name n, dp_labels = labels, dp_replicas = 1, dp_selector = labels,
          dp_deadline = TimeoutAppDeployment, dp_pod_labels = labels, dp_hostname = node_name n,
          dp_init_containers = [], dp_containers = [c, monitor_container n], dp_volumes = volumes,
          dp_node_selector = Map.empty\<rparr>)"

definition fill_node_selector :: "string \<Rightarrow> string \<Rightarrow> deployment \<Rightarrow> deployment" where
  "fill_node_selector key val d = d\<lparr>dp_node_selector := [key \<mapsto> val]\<rparr>"

definition make_router_deployment :: deployment where
  "make_router_deployment =
     (let labels = [LabelApp \<mapsto> AppName, LabelID \<mapsto> RouterID]
      in \<lparr>dp_name = ''simnet-router'', dp_labels = labels, dp_replicas = 1, dp_selector = labels,
          dp_deadline = TimeoutRouterDeployment, dp_pod_labels = labels, dp_hostname = '''',
          dp_init_containers =
            [(plain_container ''router-init'' (''dedis/simnet-router-init:'' @ daemon_version))
               \<lparr>kc_mounts := [(''openvpn'', ''/etc/openvpn'')]\<rparr>],
          dp_containers =
            [(plain_container ContainerRouterName (''dedis/simnet-router:'' @ daemon_version))
               \<lparr>kc_env := [(''NETDEV'', DefaultNetworkDevice), (''DEFAULT_MASK'', DefaultNetworkMask)],
                kc_ports := [(''UDP'', 1194)], kc_privileged := True, kc_caps := [''NET_ADMIN''],
                kc_mounts := [(''openvpn'', ''/etc/openvpn'')]\<rparr>],
          dp_volumes = [(''openvpn'', Host_path ''/etc/openvpn'')], dp_node_selector = Map.empty\<rparr>)"

definition make_router_service :: kube_service where
  "make_router_service =
     \<lparr>sv_name = ''simnet-router'', sv_ports = [(1194, ''UDP'')], sv_type = ''NodePort'',
      sv_selector = [LabelID \<mapsto> RouterID]\<rparr>"

section \<open>Objects that are read\<close>

text \<open>A condition is its type, status and reason; a waiting container its reason and message.\<close>

record pod =
  pod_name :: string
  pod_labels :: "string \<rightharpoonup> string"
  pod_ip :: string
  pod_conditions :: "(string \<times> string \<times> string) list"
  pod_waiting :: "(string \<times> string) option list"

text \<open>
  The object of a watch event: a pod, a service with its node ports, a deployment with its available
  and unavailable replicas, another object, or nil, which is what a closed channel yields.
\<close>

datatype kube_object =
    Pod_object pod
  | Service_object "int list"
  | Deployment_object string int int
  | Other_object
  | Nil_object

text \<open>The label of a pod: a missing key of a Go map reads as the empty string.\<close>

definition pod_label :: "pod \<Rightarrow> string \<Rightarrow> string" where
  "pod_label p key = get_or (pod_labels p) key ''''"

fun check_conditions :: "(string \<times> string \<times> string) list \<Rightarrow> (gerror + bool) option" where
  "check_conditions [] = None"
| "check_conditions ((type, status, reason) # cs) =
     (if type = ''PodScheduled'' \<and> status = ''False'' then Some (Inl (Msg (''scheduled failed: '' @ reason)))
      else if type = ''Ready'' \<and> status = ''True'' then Some (Inr True)
      else check_conditions cs)"

fun check_waiting :: "(string \<times> string) option list \<Rightarrow> gerror + bool" where
  "check_waiting [] = Inr False"
| "check_waiting (None # cs) = check_waiting cs"
| "check_waiting (Some (reason, message) # cs) =
     (if str_contains reason ''Error'' then Inl (Msg message) else check_waiting cs)"

definition check_pod_status :: "pod \<Rightarrow> gerror + bool" where
  "check_pod_status p =
     (case check_conditions (pod_conditions p) of
        Some r \<Rightarrow> r
      | None \<Rightarrow> check_waiting (pod_waiting p))"

end
