(* ===== verification/Kube_Engine.thy ===== *)
theory Kube_Engine
  imports Kube_Objects Metrics Tunnel
begin

text \<open>
  The operations of the Kubernetes engine (\<open>sim/kubernetes/engine.go\<close>) and the access to the
  containers (\<open>sim/kubernetes/io.go\<close>). The client of the cluster, the executor of commands, the files
  and the clock are the record \<open>kube_env\<close> over a world of any type. A watch is a name; \<open>ke_events\<close>
  are the objects that it delivers from now on. Goroutines that are joined run one after the other in
  the order of \<open>ke_schedule\<close>, any order of the pods. What is only printed is left out.
\<close>

section \<open>The cluster and the engine\<close>

record 'w kube_env =
  ke_watch_pods :: "string \<Rightarrow> ('w, string) call"
  ke_watch_services :: "('w, string) call"
  ke_watch_deployments :: "string \<Rightarrow> ('w, string) call"
  ke_events :: "string \<Rightarrow> 'w \<Rightarrow> kube_object list"
  ke_stop :: "string \<Rightarrow> 'w \<Rightarrow> 'w"
  ke_create_deployment :: "deployment \<Rightarrow> ('w, unit) call"
  ke_create_service :: "kube_service \<Rightarrow> ('w, unit) call"
  ke_list_pods :: "string \<Rightarrow> ('w, pod list) call"
  ke_list_nodes :: "('w, (string \<times> string) list list) call"
  ke_delete_service :: "string \<Rightarrow> ('w, unit) call"
  ke_delete_deployments :: "string \<Rightarrow> ('w, unit) call"
  ke_logs :: "string \<Rightarrow> string \<Rightarrow> ('w, unit) call"
  ke_executor :: "string \<Rightarrow> string \<Rightarrow> string list \<Rightarrow> ('w, unit) call"
  ke_stream :: "string \<Rightarrow> string \<Rightarrow> string list \<Rightarrow> (string \<times> gerror option) option
    \<Rightarrow> 'w \<Rightarrow> (string \<times> string \<times> gerror option) outcome \<times> 'w"
  ke_remove_all :: "string \<Rightarrow> ('w, unit) call"
  ke_mkdir_all :: "string \<Rightarrow> ('w, unit) call"
  ke_create_file :: "string \<Rightarrow> ('w, unit) call"
  ke_open_file :: "string \<Rightarrow> ('w, unit) call"
  ke_write_file :: "string \<Rightarrow> string \<Rightarrow> ('w, unit) call"
  ke_encode_stats :: "string \<Rightarrow> stats \<Rightarrow> ('w, unit) call"
  ke_encode_rules :: "rule list \<Rightarrow> gerror + string"
  ke_now :: "'w \<Rightarrow> int"
  ke_schedule :: "pod list \<Rightarrow> pod list"
  ke_file_order :: "(string \<times> string) list \<Rightarrow> (string \<times> string) list"
  ke_node_order :: node_order
  ke_entry_order :: entry_order

record 'w kube =
  k_options :: options
  k_host :: string
  k_namespace :: string
  k_pods :: "pod list"
  k_tags :: "(int \<times> string) list"
  k_streaming :: bool
  k_world :: 'w

definition on_cluster :: "('w, 'a) call \<Rightarrow> ('w kube, 'a) call" where
  "on_cluster = focus k_world (\<lambda>w s. s\<lparr>k_world := w\<rparr>)"

text \<open>The client and the parsing of the host are results; unset quantities get their defaults.\<close>

definition new_kube_engine ::
  "gerror + unit \<Rightarrow> gerror + string \<Rightarrow> string \<Rightarrow> options \<Rightarrow> 'w \<Rightarrow> gerror + 'w kube" where
  "new_kube_engine client host ns opts w =
     (case client of
        Inl err \<Rightarrow> Inl (errorf ''client'' err)
      | Inr _ \<Rightarrow>
          (case host of
             Inl err \<Rightarrow> Inl (errorf ''couldn't parse the host'' err)
           | Inr h \<Rightarrow>
               let opts = (if opt_data opts OptionMemoryAlloc = None
                 then opts\<lparr>opt_data := (opt_data opts)
                   (OptionMemoryAlloc \<mapsto> AppRequestMemory, OptionCPUAlloc \<mapsto> AppRequestCPU)\<rparr>
                 else opts)
               in Inr \<lparr>k_options = opts, k_host = h, k_namespace = ns, k_pods = [], k_tags = [],
                       k_streaming = False, k_world = w\<rparr>))"

definition with_topology_of :: "(topology \<Rightarrow> ('w kube, 'a) call) \<Rightarrow> ('w kube, 'a) call" where
  "with_topology_of k s =
     (case opt_topology (k_options s) of
        None \<Rightarrow> panic ''nil pointer dereference'' s | Some t \<Rightarrow> k t s)"

section \<open>Containers\<close>

definition stream_result :: "(string \<times> string \<times> gerror option) outcome \<times> 'w \<Rightarrow> (string \<times> string \<times> gerror option \<Rightarrow> gerror + 'a)
    \<Rightarrow> (gerror + 'a) outcome \<times> 'w" where
  "stream_result rw f =
     (case rw of
        (Return x, w) \<Rightarrow> (Return (f x), w)
      | (Panic p, w) \<Rightarrow> (Panic p, w)
      | (Blocked, w) \<Rightarrow> (Blocked, w))"

text \<open>
  A reader is its content and the error it ends with, if any: an error of the command, or what the
  command wrote to its standard error, is delivered at the end of the content.
\<close>

definition kio_read :: "'w kube_env \<Rightarrow> string \<Rightarrow> string \<Rightarrow> string \<Rightarrow> ('w, string \<times> gerror option) call" where
  "kio_read env p c path =
     attempt (ke_executor env p c [''cat'', path]) (errorf ''couldn't make executor'') (\<lambda>_ w.
       stream_result (ke_stream env p c [''cat'', path] None w) (\<lambda>(out, errs, e).
         Inr (out, case e of
           None \<Rightarrow> None
         | Some err \<Rightarrow> Some (if errs \<noteq> '''' then Msg (''command stderr: '' @ errs) else errorf ''command error'' err))))"

definition kio_exec ::
  "'w kube_env \<Rightarrow> string \<Rightarrow> string \<Rightarrow> string list \<Rightarrow> (string \<times> gerror option) option \<Rightarrow> ('w, unit) call" where
  "kio_exec env p c cmd stdin =
     (if cmd = [] then fail (Msg ''no command to execute'')
      else attempt (ke_executor env p c cmd) (errorf (''failed executing cmd '' @ quoted (hd cmd) @ '' on pod'')) (\<lambda>_ w.
        stream_result (ke_stream env p c cmd stdin w) (\<lambda>(out, errs, e).
          case e of None \<Rightarrow> Inr () | Some err \<Rightarrow> Inl err)))"

definition kio_write :: "'w kube_env \<Rightarrow> string \<Rightarrow> string \<Rightarrow> string \<Rightarrow> string \<times> gerror option \<Rightarrow> ('w, unit) call" where
  "kio_write env p c path content = kio_exec env p c [''sh'', ''-c'', ''cat - >> '' @ path] (Some content)"

definition find_pod :: "string \<Rightarrow> pod list \<Rightarrow> pod option" where
  "find_pod n pods = find (\<lambda>p. pod_label p LabelNode = n) pods"

definition with_pod :: "string \<Rightarrow> string \<Rightarrow> (pod \<Rightarrow> ('w kube, 'a) call) \<Rightarrow> ('w kube, 'a) call" where
  "with_pod what n k s =
     (case find_pod n (k_pods s) of
        None \<Rightarrow> fail (Msg (''unknown '' @ what @ '' '' @ quoted n)) s
      | Some p \<Rightarrow> k p s)"

definition kube_read :: "'w kube_env \<Rightarrow> string \<Rightarrow> string \<Rightarrow> ('w kube, string \<times> gerror option) call" where
  "kube_read env n path = with_pod ''node'' n (\<lambda>p. on_cluster (kio_read env (pod_name p) ContainerAppName path))"

definition kube_write :: "'w kube_env \<Rightarrow> string \<Rightarrow> string \<Rightarrow> string \<times> gerror option \<Rightarrow> ('w kube, unit) call" where
  "kube_write env n path content =
     with_pod ''node'' n (\<lambda>p.
     attempt (on_cluster (kio_write env (pod_name p) ContainerAppName path content))
       (errorf ''couldn't open stream'') (\<lambda>_. give ()))"

definition kube_exec :: "'w kube_env \<Rightarrow> string \<Rightarrow> string list \<Rightarrow> (string \<times> gerror option) option \<Rightarrow> ('w kube, unit) call" where
  "kube_exec env n cmd stdin =
     with_pod ''node'' n (\<lambda>p.
     attempt (on_cluster (kio_exec env (pod_name p) ContainerAppName cmd stdin))
       (errorf ''couldn't open stream'') (\<lambda>_. give ()))"

fun drop_commands :: "pod list \<Rightarrow> string list \<Rightarrow> gerror + string list" where
  "drop_commands pods [] = Inr []"
| "drop_commands pods (t # ts) =
     (case find_pod t pods of
        None \<Rightarrow> Inl (Msg (''unknown distant node '' @ quoted t))
      | Some p \<Rightarrow>
          (case drop_commands pods ts of
             Inl err \<Rightarrow> Inl err
           | Inr cmds \<Rightarrow> Inr ((''iptables -I OUTPUT -d '' @ pod_ip p @ '' -j DROP'') # cmds)))"

definition kube_disconnect :: "'w kube_env \<Rightarrow> string \<Rightarrow> string list \<Rightarrow> ('w kube, unit) call" where
  "kube_disconnect env src targets =
     attempt (fetch k_pods) (\<lambda>e. e) (\<lambda>pods.
     attempt (of_result (drop_commands pods targets)) (\<lambda>e. e) (\<lambda>cmds.
     with_pod ''source node'' src (\<lambda>p.
     attempt (on_cluster (kio_exec env (pod_name p) ContainerMonitorName [''/bin/sh'', ''-c'', join '' && '' cmds] None))
       (errorf ''couldn't execute command'') (\<lambda>_. give ()))))"

definition kube_reconnect :: "'w kube_env \<Rightarrow> string \<Rightarrow> ('w kube, unit) call" where
  "kube_reconnect env n =
     with_pod ''node'' n (\<lambda>p.
     attempt (on_cluster (kio_exec env (pod_name p) ContainerMonitorName [''iptables'', ''-F''] None))
       (errorf ''couldn't execute command'') (\<lambda>_. give ()))"

section \<open>Deployment\<close>

definition get_tags :: "'w kube \<Rightarrow> (int \<times> string) list" where
  "get_tags s = k_tags s"

definition kube_tag :: "'w kube_env \<Rightarrow> string \<Rightarrow> ('w kube, unit) call" where
  "kube_tag env name = update (\<lambda>s. s\<lparr>k_tags := AList.update (ke_now env (k_world s)) name (k_tags s)\<rparr>)"

definition selected :: "topology \<Rightarrow> node \<Rightarrow> deployment \<Rightarrow> deployment" where
  "selected t n d = (case t of Cloud ct \<Rightarrow> fill_node_selector (ct_key ct) (node_selector n) d | _ \<Rightarrow> d)"

definition create_one :: "'w kube_env \<Rightarrow> options \<Rightarrow> topology \<Rightarrow> node \<Rightarrow> ('w kube, unit) call" where
  "create_one env opts t n =
     attempt (of_outcome (make_container opts)) (\<lambda>e. e) (\<lambda>c.
     attempt (on_cluster (ke_create_deployment env (selected t n (make_deployment opts n c))))
       (errorf ''deployment creation failed'') (\<lambda>_. give ()))"

definition create_deployment :: "'w kube_env \<Rightarrow> ('w kube, string) call" where
  "create_deployment env =
     attempt (on_cluster (ke_watch_pods env (label_selector LabelID AppID))) (errorf ''pods could not be watched'') (\<lambda>w.
     attempt (fetch k_options) (\<lambda>e. e) (\<lambda>opts.
     with_topology_of (\<lambda>t.
     attempt (for_calls (create_one env opts t) (topo_nodes (ke_node_order env) t)) (\<lambda>e. e) (\<lambda>_. give w))))"

text \<open>
  The loop of \<open>WaitDeployment\<close>: the names of the pods that have been ready at some event. An event
  without a pod fails the type assertion; when no further event comes the loop does not return.
\<close>

fun wait_ready :: "nat \<Rightarrow> string set \<Rightarrow> kube_object list \<Rightarrow> (gerror + unit) outcome" where
  "wait_ready n ready [] = Blocked"
| "wait_ready n ready (Pod_object p # es) =
     (case check_pod_status p of
        Inl err \<Rightarrow> Return (Inl (errorf ''check pod status failed'' err))
      | Inr is_ready \<Rightarrow>
          (let ready = (if is_ready then insert (pod_name p) ready else ready)
           in if card ready = n then Return (Inr ()) else wait_ready n ready es))"
| "wait_ready n ready (_ # es) = Panic ''interface conversion''"

definition wait_deployment :: "'w kube_env \<Rightarrow> string \<Rightarrow> ('w kube, unit) call" where
  "wait_deployment env w =
     with_topology_of (\<lambda>t s. (wait_ready (topo_len t) {} (ke_events env w (k_world s)), s))"

definition fetch_pods :: "'w kube_env \<Rightarrow> ('w kube, pod list) call" where
  "fetch_pods env =
     attempt (on_cluster (ke_list_pods env (label_selector LabelID AppID))) (errorf ''error when listing pods'') (\<lambda>pods.
     with_topology_of (\<lambda>t.
       if length pods \<noteq> topo_len t
       then fail (Msg (''invalid number of pods: '' @ show_nat (length pods) @ '' vs '' @ show_nat (topo_len t)))
       else attempt (update (\<lambda>s. s\<lparr>k_pods := pods\<rparr>)) (\<lambda>e. e) (\<lambda>_. give pods)))"

section \<open>Configuration\<close>

definition host_aliases :: "pod list \<Rightarrow> string" where
  "host_aliases pods = concat (map (\<lambda>p. pod_ip p @ [CHR 0x09] @ pod_label p LabelNode @ [newline]) pods)"

text \<open>The joined goroutines, one per pod; the first error sent to the channel is the result.\<close>

definition for_pods :: "'w kube_env \<Rightarrow> (pod \<Rightarrow> ('w kube, unit) call) \<Rightarrow> pod list \<Rightarrow> ('w kube, unit) call" where
  "for_pods env f pods =
     attempt (collect_errors f (ke_schedule env pods) []) (\<lambda>e. e) (\<lambda>errs.
       case errs of [] \<Rightarrow> give () | err # _ \<Rightarrow> fail err)"

definition configure_pods :: "'w kube_env \<Rightarrow> pod list \<Rightarrow> ('w kube, unit) call" where
  "configure_pods env pods =
     attempt (for_pods env (\<lambda>p. kube_write env (pod_label p LabelNode) ''/etc/hosts'' (host_aliases pods, None)) pods)
       (errorf ''couldn't configure pod'') (\<lambda>_. give ())"

definition node_mapping :: "pod list \<Rightarrow> mapping" where
  "node_mapping pods =
     fold (\<lambda>p m. let n = pod_label p LabelNode in if n \<noteq> '''' then m(n \<mapsto> pod_ip p) else m) pods Map.empty"

text \<open>The encoded rules are piped to the command; a failed encoding ends the pipe with its error.\<close>

definition piped :: "gerror + string \<Rightarrow> string \<times> gerror option" where
  "piped r = (case r of Inl err \<Rightarrow> ('''', Some err) | Inr s \<Rightarrow> (s, None))"

definition upload_rules :: "'w kube_env \<Rightarrow> mapping \<Rightarrow> pod \<Rightarrow> ('w kube, unit) call" where
  "upload_rules env m p =
     with_topology_of (\<lambda>t.
     attempt (on_cluster (kio_exec env (pod_name p) ContainerMonitorName commandNetEm
         (Some (piped (ke_encode_rules env (topo_rules (ke_entry_order env) t (pod_label p LabelNode) m))))))
       (errorf ''couldn't execute command'') (\<lambda>_. give ()))"

definition upload_config :: "'w kube_env \<Rightarrow> ('w kube, unit) call" where
  "upload_config env =
     attempt (fetch k_pods) (\<lambda>e. e) (\<lambda>pods.
     attempt (configure_pods env pods) (errorf ''couldn't configure container'') (\<lambda>_.
     attempt (for_pods env (upload_rules env (node_mapping pods)) pods) (errorf ''couldn't write topology'') (\<lambda>_. give ())))"

section \<open>The router\<close>

definition deploy_router :: "'w kube_env \<Rightarrow> ('w kube, string) call" where
  "deploy_router env =
     attempt (on_cluster (ke_watch_pods env (label_selector LabelID RouterID))) (errorf ''failed watching pods'') (\<lambda>w.
     attempt (on_cluster (ke_create_deployment env make_router_deployment)) (errorf ''failed creating deployment'') (\<lambda>_.
     give w))"

fun wait_node_port :: "kube_object list \<Rightarrow> int outcome" where
  "wait_node_port [] = Blocked"
| "wait_node_port (Service_object ports # es) =
     (case find (\<lambda>p. 0 < p) ports of Some p \<Rightarrow> Return p | None \<Rightarrow> wait_node_port es)"
| "wait_node_port (_ # es) = Panic ''interface conversion''"

definition create_vpn_service :: "'w kube_env \<Rightarrow> ('w kube, int) call" where
  "create_vpn_service env =
     attempt (on_cluster (ke_watch_services env)) (errorf ''failed watching svc interface'') (\<lambda>w.
     attempt (on_cluster (ke_create_service env make_router_service)) (errorf ''failed creating router service'') (\<lambda>_.
     (\<lambda>s. of_outcome (wait_node_port (ke_events env w (k_world s))) s)))"

text \<open>The last external address of the first node, if the nodes can be listed.\<close>

definition external_host :: "string \<Rightarrow> gerror + (string \<times> string) list list \<Rightarrow> string" where
  "external_host host r =
     (case r of
        Inr (addrs # _) \<Rightarrow> fold (\<lambda>(type, addr) h. if type = ''ExternalIP'' then addr else h) addrs host
      | _ \<Rightarrow> host)"

fun wait_router_pod :: "kube_object list \<Rightarrow> (gerror + unit) outcome" where
  "wait_router_pod [] = Blocked"
| "wait_router_pod (Pod_object p # es) =
     (case check_pod_status p of
        Inl err \<Rightarrow> Return (Inl (errorf ''couldn't wait router'' err))
      | Inr True \<Rightarrow> Return (Inr ())
      | Inr False \<Rightarrow> wait_router_pod es)"
| "wait_router_pod (_ # es) = Panic ''interface conversion''"

definition wait_router :: "'w kube_env \<Rightarrow> string \<Rightarrow> ('w kube, int \<times> string) call" where
  "wait_router env w =
     attempt (fetch k_host) (\<lambda>e. e) (\<lambda>host.
     observe (on_cluster (ke_list_nodes env)) (\<lambda>nodes.
     attempt (\<lambda>s. (wait_router_pod (ke_events env w (k_world s)), s)) (\<lambda>e. e) (\<lambda>_.
     attempt (create_vpn_service env) (errorf ''failed creating vpn'') (\<lambda>port.
     give (port, external_host host nodes)))))"

definition write_certificate :: "'w kube_env \<Rightarrow> string \<Rightarrow> string \<times> string \<Rightarrow> ('w kube, unit) call" where
  "write_certificate env p = (\<lambda>(out, dst).
     attempt (on_cluster (kio_read env p ContainerRouterName dst)) (errorf ''failed reading pod'') (\<lambda>(content, err).
     attempt (on_cluster (ke_open_file env out)) (errorf ''failed opening file'') (\<lambda>_.
     attempt (on_cluster (ke_write_file env out content)) (errorf ''failed copying file'') (\<lambda>_.
       case err of None \<Rightarrow> give () | Some e \<Rightarrow> fail (errorf ''failed copying file'' e)))))"

definition write_certificates :: "'w kube_env \<Rightarrow> string \<Rightarrow> certificates \<Rightarrow> ('w kube, unit) call" where
  "write_certificates env p certs =
     for_calls (write_certificate env p)
       (ke_file_order env (AList.update (cert_ca certs) CADistantPath
         (AList.update (cert_key certs) ClientKeyDistantPath
           (AList.update (cert_cert certs) ClientCertificateDistantPath []))))"

definition fetch_certificates :: "'w kube_env \<Rightarrow> ('w kube, certificates) call" where
  "fetch_certificates env =
     attempt (fetch (\<lambda>s. output_dir (k_options s))) (\<lambda>e. e) (\<lambda>out.
     let certs = \<lparr>cert_ca = path_join [out, ''ca.crt''], cert_key = path_join [out, ''client.key''],
                  cert_cert = path_join [out, ''client.crt'']\<rparr>
     in attempt (on_cluster (ke_list_pods env (label_selector LabelID RouterID))) (\<lambda>e. e) (\<lambda>pods.
        case pods of
          [p] \<Rightarrow> attempt (write_certificates env (pod_name p) certs) (\<lambda>e. e) (\<lambda>_. give certs)
        | _ \<Rightarrow> fail (Msg ''missing router pod'')))"

section \<open>Deletion\<close>

definition delete_service :: "'w kube_env \<Rightarrow> ('w kube, unit) call" where
  "delete_service env =
     attempt (on_cluster (ke_delete_service env ''simnet-router'')) (errorf ''failed deleting router'') (\<lambda>_. give ())"

text \<open>The tolerance for a service that does not exist, as the code tests it.\<close>

fun tolerate_not_found :: "gerror + unit \<Rightarrow> gerror + unit" where
  "tolerate_not_found (Inr _) = Inr ()"
| "tolerate_not_found (Inl (StatusErr reason m)) =
     (if reason \<noteq> ''NotFound'' then Inl (StatusErr reason m) else Inr ())"
| "tolerate_not_found (Inl err) = Inl (errorf ''couldn't delete router'' err)"

definition stop_watch :: "'w kube_env \<Rightarrow> string \<Rightarrow> ('w kube, unit) call" where
  "stop_watch env w = update (\<lambda>s. s\<lparr>k_world := ke_stop env w (k_world s)\<rparr>)"

definition delete_all :: "'w kube_env \<Rightarrow> ('w kube, string) call" where
  "delete_all env =
     observe (delete_service env) (\<lambda>r.
     attempt (of_result (tolerate_not_found r)) (\<lambda>e. e) (\<lambda>_.
     attempt (on_cluster (ke_watch_deployments env (label_selector LabelApp AppName))) (errorf ''couldn't watch'') (\<lambda>w.
     observe (on_cluster (ke_delete_deployments env (label_selector LabelApp AppName))) (\<lambda>r.
       case r of
         Inl err \<Rightarrow> attempt (stop_watch env w) (\<lambda>e. e) (\<lambda>_. fail (errorf ''couldn't delete pods'' err))
       | Inr _ \<Rightarrow> give w))))"

text \<open>
  The loop of \<open>WaitDeletion\<close>: the deployments that were seen, and those seen without replicas. The
  timer fires when the events that come before it are used up.
\<close>

fun wait_gone :: "string set \<Rightarrow> string set \<Rightarrow> kube_object list \<Rightarrow> gerror + unit" where
  "wait_gone seen gone [] = Inl (Msg ''timeout'')"
| "wait_gone seen gone (Deployment_object name available unavailable # es) =
     (let seen = insert name seen;
          gone = (if available = 0 \<and> unavailable = 0 then insert name gone else gone)
      in if card seen \<le> card gone then Inr () else wait_gone seen gone es)"
| "wait_gone seen gone (_ # es) = wait_gone seen gone es"

definition wait_deletion :: "'w kube_env \<Rightarrow> string \<Rightarrow> ('w kube, unit) call" where
  "wait_deletion env w s = (Return (wait_gone {} {} (ke_events env w (k_world s))), s)"

section \<open>Logs and statistics\<close>

definition kube_stream_log :: "'w kube_env \<Rightarrow> string \<Rightarrow> pod \<Rightarrow> ('w kube, unit) call" where
  "kube_stream_log env dir p =
     attempt (on_cluster (ke_create_file env (path_join [dir, pod_name p @ ''.log'']))) (errorf ''couldn't create log file'') (\<lambda>_.
     attempt (on_cluster (ke_logs env (pod_name p) ContainerAppName)) (errorf ''couldn't open the stream'') (\<lambda>_. give ()))"

definition kube_stream_logs :: "'w kube_env \<Rightarrow> ('w kube, unit) call" where
  "kube_stream_logs env s =
     (if k_streaming s then give () s
      else
        attempt (update (\<lambda>s. s\<lparr>k_streaming := True\<rparr>)) (\<lambda>e. e) (\<lambda>_.
        attempt (fetch (\<lambda>s. path_join [output_dir (k_options s), ''logs''])) (\<lambda>e. e) (\<lambda>dir.
        attempt (on_cluster (ke_remove_all env dir)) (errorf ''couldn't clean log folder'') (\<lambda>_.
        attempt (on_cluster (ke_mkdir_all env dir)) (errorf ''couldn't create log folder'') (\<lambda>_.
        attempt (fetch k_pods) (\<lambda>e. e) (\<lambda>pods. for_calls (kube_stream_log env dir) pods))))) s)"

text \<open>The error a reader ends with is not looked at by \<open>NewNodeStats\<close>.\<close>

definition read_pod_stats :: "'w kube_env \<Rightarrow> string \<Rightarrow> int \<Rightarrow> int \<Rightarrow> ('w kube, node_stats) call" where
  "read_pod_stats env p start end =
     attempt (on_cluster (kio_read env p ContainerMonitorName MonitorDataFilepath)) (errorf ''failed reading stats'')
       (\<lambda>(content, err). give (new_node_stats content start end))"

fun collect_stats :: "'w kube_env \<Rightarrow> int \<Rightarrow> int \<Rightarrow> pod list \<Rightarrow> (string \<times> node_stats) list
    \<Rightarrow> ('w kube, (string \<times> node_stats) list) call" where
  "collect_stats env start end [] nodes = give nodes"
| "collect_stats env start end (p # ps) nodes =
     attempt (read_pod_stats env (pod_name p) start end)
       (errorf (''failed reading stats from pod '' @ quoted (pod_name p))) (\<lambda>ns.
     collect_stats env start end ps (AList.update (pod_label p LabelNode) ns nodes))"

definition kube_fetch_stats :: "'w kube_env \<Rightarrow> int \<Rightarrow> int \<Rightarrow> string \<Rightarrow> ('w kube, unit) call" where
  "kube_fetch_stats env start end filename =
     attempt (fetch (\<lambda>s. (k_pods s, get_tags s))) (\<lambda>e. e) (\<lambda>(pods, tags).
     attempt (collect_stats env start end pods []) (\<lambda>e. e) (\<lambda>nodes.
     attempt (on_cluster (ke_create_file env filename)) (errorf ''failed creating stats file'') (\<lambda>_.
     attempt (on_cluster (ke_encode_stats env filename
         \<lparr>stats_timestamp = start, stats_tags = tags, stats_nodes = nodes\<rparr>))
       (errorf ''failed encoding stats'') (\<lambda>_. give ()))))"

end
