(* ===== verification/Kube_Strategy.thy ===== *)
theory Kube_Strategy
  imports Kube_Engine
begin

text \<open>
  The Kubernetes strategy (\<open>sim/kubernetes/mod.go\<close>) over its engine, a round and a tunnel, as an
  implementation of the interface of \<open>Simulation\<close>. Times are seconds.
\<close>

section \<open>The strategy\<close>

record 'w kube_strategy =
  ks_engine :: "'w kube"
  ks_pods :: "pod list"
  ks_execute_time :: int
  ks_done_time :: int
  ks_updated :: bool

record 'w kube_round =
  kr_before :: "node_info list \<Rightarrow> ('w kube, unit) call"
  kr_execute :: "node_info list \<Rightarrow> ('w kube, unit) call"
  kr_after :: "node_info list \<Rightarrow> ('w kube, unit) call"
  kr_tun_start :: "tun_option list \<Rightarrow> ('w, unit) call"
  kr_tun_stop :: "('w, unit) call"

definition on_engine :: "('w kube, 'a) call \<Rightarrow> ('w kube_strategy, 'a) call" where
  "on_engine = focus ks_engine (\<lambda>k s. s\<lparr>ks_engine := k\<rparr>)"

text \<open>The second of the zero time.\<close>

definition zero_time :: int where "zero_time = - 62135596800"

text \<open>
  \<open>NewStrategy\<close>: the directory, the configuration of the client, its namespace and the engine.
\<close>

definition new_kube_strategy ::
  "gerror + unit \<Rightarrow> gerror + unit \<Rightarrow> gerror + string \<Rightarrow> gerror + unit \<Rightarrow> gerror + string
    \<Rightarrow> options \<Rightarrow> 'w \<Rightarrow> gerror + 'w kube_strategy" where
  "new_kube_strategy mkdir config namespace client host opts w =
     (case mkdir of
        Inl err \<Rightarrow> Inl (errorf ''couldn't create the data folder'' err)
      | Inr _ \<Rightarrow>
        (case config of
           Inl err \<Rightarrow> Inl (errorf ''config'' err)
         | Inr _ \<Rightarrow>
           (case namespace of
              Inl err \<Rightarrow> Inl (errorf ''couldn't read the namespace'' err)
            | Inr ns \<Rightarrow>
              (case new_kube_engine client host ns opts w of
                 Inl err \<Rightarrow> Inl (errorf ''couldn't create the engine'' err)
               | Inr k \<Rightarrow> Inr \<lparr>ks_engine = k, ks_pods = [], ks_execute_time = zero_time, ks_done_time = zero_time,
                              ks_updated = False\<rparr>))))"

definition kube_option :: "option_fun \<Rightarrow> 'w kube_strategy \<Rightarrow> 'w kube_strategy" where
  "kube_option f s = s\<lparr>ks_engine := (ks_engine s)\<lparr>k_options := f (k_options (ks_engine s))\<rparr>\<rparr>"

text \<open>\<open>resource.MustParse\<close> panics on a text that is not a quantity.\<close>

definition with_resources :: "(string \<Rightarrow> bool) \<Rightarrow> string \<Rightarrow> string \<Rightarrow> options \<Rightarrow> options outcome" where
  "with_resources quantity cpu memory opts =
     (if quantity memory \<and> quantity cpu
      then Return (opts\<lparr>opt_data := (opt_data opts)(OptionMemoryAlloc \<mapsto> memory, OptionCPUAlloc \<mapsto> cpu)\<rparr>)
      else Panic ''cannot parse'')"

definition make_context :: "pod list \<Rightarrow> node_info list" where
  "make_context pods = map (\<lambda>p. \<lparr>ni_name = pod_label p LabelNode, ni_address = pod_ip p\<rparr>) pods"

text \<open>\<open>x, err := wait(w); w.Stop(); if err != nil\<close>\<close>

definition then_stop :: "'w kube_env \<Rightarrow> string \<Rightarrow> ('w kube, 'a) call \<Rightarrow> ('w kube, 'a) call" where
  "then_stop env w m =
     observe m (\<lambda>r. attempt (stop_watch env w) (\<lambda>e. e) (\<lambda>_. of_result r))"

definition on_tunnel :: "('w, 'a) call \<Rightarrow> ('w kube_strategy, 'a) call" where
  "on_tunnel m = on_engine (on_cluster m)"

definition kube_deploy :: "'w kube_env \<Rightarrow> 'w kube_round \<Rightarrow> ('w kube_strategy, unit) call" where
  "kube_deploy env round1 =
     attempt (on_engine (create_deployment env)) (errorf ''failed creating deployment'') (\<lambda>w.
     attempt (on_engine (then_stop env w (wait_deployment env w))) (errorf ''failed waiting deployment'') (\<lambda>_.
     attempt (on_engine (fetch_pods env)) (errorf ''failed fetching pods'') (\<lambda>pods.
     attempt (on_engine (kube_stream_logs env)) (errorf ''failed streaming logs'') (\<lambda>_.
     attempt (on_engine (upload_config env)) (errorf ''failed uploading config'') (\<lambda>_.
     attempt (update (\<lambda>s. s\<lparr>ks_pods := pods\<rparr>)) (\<lambda>e. e) (\<lambda>_.
     attempt (on_engine (deploy_router env)) (errorf ''failed deploying router'') (\<lambda>w.
     attempt (on_engine (then_stop env w (wait_router env w))) (errorf ''failed waiting router'') (\<lambda>(port, host).
     attempt (on_engine (fetch_certificates env)) (errorf ''failed fetching certs'') (\<lambda>certs.
     attempt (fetch (\<lambda>s. vpn_executable (k_options (ks_engine s)))) (\<lambda>e. e) (\<lambda>vpn.
     attempt (on_tunnel (kr_tun_start round1 [with_port port, with_host host, with_certificate certs, with_command vpn]))
       (errorf ''failed starting tunnel'') (\<lambda>_.
     attempt (fetch (\<lambda>s. make_context (ks_pods s))) (\<lambda>e. e) (\<lambda>nodes.
     attempt (on_engine (kr_before round1 nodes)) (errorf (''failed running '' @ quoted ''Before'')) (\<lambda>_.
     update (\<lambda>s. s\<lparr>ks_updated := True\<rparr>))))))))))))))"

text \<open>
  The pods are fetched unless a deployment has loaded them; a failure leaves none. \<open>after\<close> is
  what else is set with them.
\<close>

definition refresh_pods ::
  "'w kube_env \<Rightarrow> ('w kube_strategy \<Rightarrow> 'w kube_strategy) \<Rightarrow> ('w kube_strategy, unit) call" where
  "refresh_pods env after s =
     (if ks_updated s then give () s
      else observe (on_engine (fetch_pods env)) (\<lambda>r.
        case r of
          Inl err \<Rightarrow> attempt (update (\<lambda>s. s\<lparr>ks_pods := []\<rparr>)) (\<lambda>e. e) (\<lambda>_. fail (errorf ''couldn't fetch pods'' err))
        | Inr pods \<Rightarrow> update (\<lambda>s. after (s\<lparr>ks_pods := pods\<rparr>))) s)"

text \<open>The clock in seconds.\<close>

definition clock :: "'w kube_env \<Rightarrow> 'w kube_strategy \<Rightarrow> int" where
  "clock env s = ke_now env (k_world (ks_engine s)) div 1000000000"

definition kube_execute :: "'w kube_env \<Rightarrow> 'w kube_round \<Rightarrow> ('w kube_strategy, unit) call" where
  "kube_execute env round1 =
     attempt (refresh_pods env (\<lambda>s. s)) (\<lambda>e. e) (\<lambda>_.
     attempt (on_engine (kube_stream_logs env)) (errorf ''couldn't stream logs'') (\<lambda>_.
     attempt (update (\<lambda>s. s\<lparr>ks_execute_time := clock env s\<rparr>)) (\<lambda>e. e) (\<lambda>_.
     attempt (fetch (\<lambda>s. make_context (ks_pods s))) (\<lambda>e. e) (\<lambda>nodes.
     attempt (on_engine (kr_execute round1 nodes)) (errorf ''couldn't perform execute step'') (\<lambda>_.
     attempt (update (\<lambda>s. s\<lparr>ks_done_time := clock env s\<rparr>)) (\<lambda>e. e) (\<lambda>_.
     attempt (on_engine (kr_after round1 nodes)) (errorf ''couldn't perform after step'') (\<lambda>_. give ())))))))"

text \<open>Without the pods of an earlier phase the window is everything up to now.\<close>

definition kube_write_stats :: "'w kube_env \<Rightarrow> string \<Rightarrow> ('w kube_strategy, unit) call" where
  "kube_write_stats env filename =
     attempt (refresh_pods env (\<lambda>s. s\<lparr>ks_execute_time := 0, ks_done_time := clock env s\<rparr>)) (\<lambda>e. e) (\<lambda>_.
     attempt (fetch (\<lambda>s. (ks_execute_time s, ks_done_time s, path_join [output_dir (k_options (ks_engine s)), filename])))
       (\<lambda>e. e) (\<lambda>(start, done, out).
     attempt (on_engine (kube_fetch_stats env start done out)) (errorf ''couldn't fetch the stats'') (\<lambda>_. give ())))"

definition kube_error_list :: "gerror list \<Rightarrow> string" where
  "kube_error_list errs = ''['' @ join '' '' (map error_text errs) @ '']''"

text \<open>Deleting, and waiting for the deletion: the error of either.\<close>

definition delete_and_wait :: "'w kube_env \<Rightarrow> ('w kube, unit) call" where
  "delete_and_wait env =
     attempt (delete_all env) (\<lambda>e. e) (\<lambda>w. deferring (wait_deletion env w) (stop_watch env w))"

definition errors_of :: "gerror + unit \<Rightarrow> gerror list" where
  "errors_of r = (case r of Inl err \<Rightarrow> [err] | Inr _ \<Rightarrow> [])"

definition kube_clean :: "'w kube_env \<Rightarrow> 'w kube_round \<Rightarrow> ('w kube_strategy, unit) call" where
  "kube_clean env round1 =
     observe (on_tunnel (kr_tun_stop round1)) (\<lambda>r1.
     observe (on_engine (delete_and_wait env)) (\<lambda>r2.
       let errs = errors_of r1 @ errors_of r2
       in if errs \<noteq> [] then fail (Msg (''cleaning error: '' @ kube_error_list errs)) else give ()))"

definition kube_strategy_of :: "'w kube_env \<Rightarrow> 'w kube_round \<Rightarrow> 'w kube_strategy strategy" where
  "kube_strategy_of env round1 =
     \<lparr>strategy_option = kube_option, strategy_deploy = kube_deploy env round1,
      strategy_execute = kube_execute env round1, strategy_write_stats = kube_write_stats env,
      strategy_clean = kube_clean env round1\<rparr>"

end
