(* ===== verification/Kube_Waits.thy ===== *)
theory Kube_Waits
  imports Kube_Engine
begin

text \<open>
  The waits of the Kubernetes engine: which events end the wait for the pods of a deployment and the
  wait for the deletion of the deployments.
\<close>

section \<open>Pods that become ready\<close>

definition ready_names :: "pod list \<Rightarrow> string set" where
  "ready_names ps = pod_name ` {p \<in> set ps. check_pod_status p = Inr True}"

definition healthy :: "pod \<Rightarrow> bool" where
  "healthy p \<longleftrightarrow> (\<exists>b. check_pod_status p = Inr b)"

lemma finite_ready [simp]: "finite (ready_names ps)"
  by (simp add: ready_names_def)

lemma ready_names_Cons:
  "ready_names (p # ps) = (if check_pod_status p = Inr True then {pod_name p} else {}) \<union> ready_names ps"
  by (auto simp: ready_names_def)

lemma wait_ready_healthy:
  assumes "\<forall>p \<in> set ps. healthy p" and "card ready < n" and "finite ready"
  shows "wait_ready n ready (map Pod_object ps) =
    (if n \<le> card (ready \<union> ready_names ps) then Return (Inr ()) else Blocked)"
  using assms
proof (induction ps arbitrary: ready)
  case Nil
  then show ?case by (simp add: ready_names_def)
next
  case (Cons p ps)
  then obtain b where b: "check_pod_status p = Inr b" by (auto simp: healthy_def)
  define r where "r = (if b then insert (pod_name p) ready else ready)"
  have r: "r \<union> ready_names ps = ready \<union> ready_names (p # ps)" and fin: "finite r"
    using b Cons.prems(3) by (auto simp: r_def ready_names_Cons)
  have small: "card r \<le> n"
    using Cons.prems(2,3) by (auto simp: r_def card_insert_if)
  have step: "wait_ready n ready (map Pod_object (p # ps)) =
      (if card r = n then Return (Inr ()) else wait_ready n r (map Pod_object ps))"
    using b by (simp add: r_def Let_def)
  show ?case
  proof (cases "card r = n")
    case True
    have "card r \<le> card (r \<union> ready_names ps)" using fin by (intro card_mono) auto
    then show ?thesis using True step r by simp
  next
    case False
    then show ?thesis using Cons.IH [of r] Cons.prems(1) small fin step r by simp
  qed
qed

text \<open>
  C18: Waiting for the deployment of a topology with nodes: as long as no pod reports an error, the
  wait returns exactly when as many pods as the topology has nodes have been ready at some event, and
  otherwise never. It is pods that are counted: one that has failed since stays counted, and a pod
  that replaces another of the same node counts again.
\<close>

theorem wait_deployment_spec:
  assumes "ke_events env w (k_world s) = map Pod_object ps" and "\<forall>p \<in> set ps. healthy p"
    and "opt_topology (k_options s) = Some t" and "topo_len t \<noteq> 0"
  shows "wait_deployment env w s =
    (if topo_len t \<le> card (ready_names ps) then Return (Inr ()) else Blocked, s)"
  using assms wait_ready_healthy [OF assms(2), of "{}" "topo_len t"]
  by (simp add: wait_deployment_def with_topology_of_def)

definition pod_of :: "string \<Rightarrow> string \<Rightarrow> string \<Rightarrow> bool \<Rightarrow> pod" where
  "pod_of name n ip ready =
     \<lparr>pod_name = name, pod_labels = [LabelNode \<mapsto> n], pod_ip = ip,
      pod_conditions = [(''Ready'', if ready then ''True'' else ''False'', '''')], pod_waiting = []\<rparr>"

definition two_node_engine :: "kube_object list \<Rightarrow> (kube_object list) kube" where
  "two_node_engine w =
     \<lparr>k_options = with_topology (Simple (fold (simple_step 50) [0, 1]
          \<lparr>st_nodes = replicate 2 (named_node ''''), st_links = Map.empty\<rparr>)) initial_options,
      k_host = ''cluster'', k_namespace = ''default'', k_pods = [], k_tags = [], k_streaming = False, k_world = w\<rparr>"

text \<open>The crashed pod of node 0 and the one that replaces it end the wait for two nodes.\<close>

theorem wait_deployment_spec_witness:
  "let s = two_node_engine (map Pod_object
         [pod_of ''simnet-node0-a'' ''node0'' ''10.0.0.1'' True, pod_of ''simnet-node0-a'' ''node0'' ''10.0.0.1'' False,
          pod_of ''simnet-node0-b'' ''node0'' ''10.0.0.2'' True])
   in wait_deployment (undefined\<lparr>ke_events := \<lambda>_ w. w\<rparr>) ''pods'' s = (Return (Inr ()), s)"
proof -
  let ?ps = "[pod_of ''simnet-node0-a'' ''node0'' ''10.0.0.1'' True, pod_of ''simnet-node0-a'' ''node0'' ''10.0.0.1'' False,
          pod_of ''simnet-node0-b'' ''node0'' ''10.0.0.2'' True]"
  let ?s = "two_node_engine (map Pod_object ?ps)" and ?env = "undefined\<lparr>ke_events := \<lambda>_ w. w\<rparr>"
  have status: "check_pod_status (pod_of name n ip b) = Inr b" for name n ip b
    by (simp add: pod_of_def check_pod_status_def)
  have events: "ke_events ?env ''pods'' (k_world ?s) = map Pod_object ?ps"
    by (simp add: two_node_engine_def)
  have healthy: "\<forall>p \<in> set ?ps. healthy p"
    by (auto simp: healthy_def status)
  obtain t where t: "opt_topology (k_options ?s) = Some t" and len: "topo_len t = 2"
    by (simp add: two_node_engine_def with_topology_def simple_step_def simple_len_def Let_def)
  have "ready_names ?ps = {''simnet-node0-a'', ''simnet-node0-b''}"
    by (auto simp: ready_names_Cons ready_names_def [of "[]"] status) (simp_all add: pod_of_def)
  then have "topo_len t \<le> card (ready_names ?ps)" using len by simp
  then show ?thesis
    using wait_deployment_spec [OF events healthy t] len by simp
qed

section \<open>Deployments that are gone\<close>

definition seen_names :: "kube_object list \<Rightarrow> string set" where
  "seen_names es = {n. \<exists>a u. Deployment_object n a u \<in> set es}"

definition gone_names :: "kube_object list \<Rightarrow> string set" where
  "gone_names es = {n. Deployment_object n 0 0 \<in> set es}"

lemma seen_names_Cons:
  "seen_names (e # es) = (case e of Deployment_object n a u \<Rightarrow> {n} | _ \<Rightarrow> {}) \<union> seen_names es"
  "gone_names (e # es) = (case e of Deployment_object n a u \<Rightarrow> if a = 0 \<and> u = 0 then {n} else {} | _ \<Rightarrow> {}) \<union> gone_names es"
  by (auto simp: seen_names_def gone_names_def split: kube_object.splits)

lemma names_Nil [simp]: "seen_names [] = {}" "gone_names [] = {}"
  by (simp_all add: seen_names_def gone_names_def)

text \<open>The names gone are among those seen, so comparing their numbers compares the sets.\<close>

lemma wait_gone_prefix:
  assumes "finite seen" and "gone \<subseteq> seen"
  shows "wait_gone seen gone es =
    (if \<exists>k < length es. (\<exists>n a u. es ! k = Deployment_object n a u)
        \<and> seen \<union> seen_names (take (Suc k) es) \<subseteq> gone \<union> gone_names (take (Suc k) es)
     then Inr () else Inl (Msg ''timeout''))"
  using assms
proof (induction es arbitrary: seen gone)
  case (Cons e es)
  show ?case
  proof (cases e)
    case (Deployment_object n a u)
    define s' where "s' = insert n seen"
    define g' where "g' = (if a = 0 \<and> u = 0 then insert n gone else gone)"
    have fin: "finite s'" "g' \<subseteq> s'" using Cons.prems by (auto simp: s'_def g'_def)
    have all: "card s' \<le> card g' \<longleftrightarrow> s' \<subseteq> g'"
      using fin card_seteq [of s' g'] by (auto intro: card_mono finite_subset)
    have sets: "seen \<union> seen_names (take (Suc k) (e # es)) = s' \<union> seen_names (take k es)"
        "gone \<union> gone_names (take (Suc k) (e # es)) = g' \<union> gone_names (take k es)" for k
      using Deployment_object by (auto simp: seen_names_Cons s'_def g'_def)
    have "wait_gone seen gone (e # es) = (if s' \<subseteq> g' then Inr () else wait_gone s' g' es)"
      using Deployment_object all by (simp add: s'_def g'_def Let_def)
    also have "\<dots> = (if \<exists>k < length (e # es). (\<exists>n a u. (e # es) ! k = Deployment_object n a u)
        \<and> s' \<union> seen_names (take k es) \<subseteq> g' \<union> gone_names (take k es)
     then Inr () else Inl (Msg ''timeout''))"
      unfolding Cons.IH [OF fin] using Deployment_object by (auto simp: Ex_less_Suc2)
    finally show ?thesis by (simp only: sets)
  qed (use Cons in \<open>simp_all add: Ex_less_Suc2 seen_names_Cons\<close>)
qed simp

lemma wait_gone_timeout: "wait_gone {} {} es \<noteq> Inr () \<Longrightarrow> wait_gone {} {} es = Inl (Msg ''timeout'')"
  using wait_gone_prefix [of "{}" "{}" es] by (simp split: if_splits)

text \<open>The wait is over with the m-th event, and not before.\<close>

definition over_with :: "kube_object list \<Rightarrow> nat \<Rightarrow> bool" where
  "over_with es m \<longleftrightarrow>
     wait_gone {} {} (take m es) = Inr () \<and> (\<forall>j < m. wait_gone {} {} (take j es) = Inl (Msg ''timeout''))"

lemma wait_gone_over:
  assumes "wait_gone {} {} es = Inr ()"
  obtains m where "over_with es m" and "m \<le> length es"
proof -
  let ?over = "\<lambda>m. wait_gone {} {} (take m es) = Inr ()"
  have "?over (length es)" using assms by simp
  then obtain m where "m \<le> length es" "?over m" "\<forall>j < m. \<not> ?over j"
    using ex_least_nat_le [of ?over "length es"] by blast
  moreover from this have "over_with es m"
    by (simp add: over_with_def wait_gone_timeout)
  ultimately show thesis using that by blast
qed

lemma over_covers:
  assumes "over_with es m"
  obtains k where "k < m" and "k < length es" and "\<exists>n a u. es ! k = Deployment_object n a u"
    and "seen_names (take (Suc k) es) \<subseteq> gone_names (take (Suc k) es)"
proof -
  have "wait_gone {} {} (take m es) = Inr ()" using assms by (simp add: over_with_def)
  then obtain k where k: "k < length (take m es)" "\<exists>n a u. take m es ! k = Deployment_object n a u"
      "seen_names (take (Suc k) (take m es)) \<subseteq> gone_names (take (Suc k) (take m es))"
    unfolding wait_gone_prefix [of "{}" "{}" "take m es", simplified] by (auto split: if_splits)
  then show thesis using that [of k] by (simp add: min_absorb1)
qed

definition deployment_event :: "string \<times> int \<times> int \<Rightarrow> kube_object" where
  "deployment_event = (\<lambda>(n, available, unavailable). Deployment_object n available unavailable)"

lemma names_of_events:
  "seen_names (map deployment_event ds) = fst ` set ds"
  "gone_names (map deployment_event ds) = {n. (n, 0, 0) \<in> set ds}"
  by (force simp: seen_names_def gone_names_def deployment_event_def)+

lemma names_mono: "m \<le> k \<Longrightarrow> gone_names (take m es) \<subseteq> gone_names (take k es)"
    "m \<le> k \<Longrightarrow> seen_names (take m es) \<subseteq> seen_names (take k es)"
  using set_take_subset_set_take [of m k es] by (auto simp: gone_names_def seen_names_def)

text \<open>
  When the first events are those of deployments that have replicas, the wait is not over before each
  of these has been seen without.
\<close>

lemma over_after_all:
  assumes "over_with (map deployment_event ds @ later) m" and "\<forall>n. (n, 0, 0) \<notin> set ds"
  shows "fst ` set ds \<subseteq> gone_names (take m (map deployment_event ds @ later))"
proof -
  let ?es = "map deployment_event ds @ later"
  obtain k where k: "k < m" "k < length ?es" "\<exists>n a u. ?es ! k = Deployment_object n a u"
      and covered: "seen_names (take (Suc k) ?es) \<subseteq> gone_names (take (Suc k) ?es)"
    using over_covers [OF assms(1)] .
  have "length ds \<le> k"
  proof (rule ccontr)
    assume "\<not> length ds \<le> k"
    then have first: "take (Suc k) ?es = map deployment_event (take (Suc k) ds)" "take (Suc k) ds \<noteq> []"
      by (auto simp: take_map)
    have "gone_names (take (Suc k) ?es) = {}"
      unfolding first(1) names_of_events using assms(2) by (auto dest: in_set_takeD)
    moreover have "seen_names (take (Suc k) ?es) \<noteq> {}"
      using first(2) by (simp only: first(1) names_of_events) simp
    ultimately show False using covered by simp
  qed
  then have "seen_names (take (length ds) ?es) \<subseteq> gone_names (take m ?es)"
    using covered names_mono(1) [of "Suc k" m ?es] names_mono(2) [of "length ds" "Suc k" ?es] k(1) by auto
  then show ?thesis by (simp add: names_of_events)
qed

text \<open>
  C19: Waiting for the deletion: it succeeds at the first event of a deployment at which every
  deployment seen so far has been seen without replicas, and times out if there is none. Deployments
  that no event has shown yet do not count, so a first event without replicas ends the wait at once,
  whatever is still running.
\<close>

theorem wait_deletion_spec:
  "wait_deletion env w s =
     (let es = ke_events env w (k_world s)
      in (Return (if \<exists>k < length es. (\<exists>n a u. es ! k = Deployment_object n a u)
              \<and> seen_names (take (Suc k) es) \<subseteq> gone_names (take (Suc k) es)
            then Inr () else Inl (Msg ''timeout'')), s))
   \<and> wait_gone {} {} (Deployment_object n 0 0 # Deployment_object m 1 0 # es) = Inr ()"
proof
  have "wait_gone {} {} es' = (if \<exists>k < length es'. (\<exists>n a u. es' ! k = Deployment_object n a u)
              \<and> seen_names (take (Suc k) es') \<subseteq> gone_names (take (Suc k) es')
            then Inr () else Inl (Msg ''timeout''))" for es'
    using wait_gone_prefix [of "{}" "{}" es'] by simp
  then show "wait_deletion env w s =
     (let es = ke_events env w (k_world s)
      in (Return (if \<exists>k < length es. (\<exists>n a u. es ! k = Deployment_object n a u)
              \<and> seen_names (take (Suc k) es) \<subseteq> gone_names (take (Suc k) es)
            then Inr () else Inl (Msg ''timeout'')), s))"
    by (simp add: wait_deletion_def Let_def)
qed simp

end
