(* ===== verification/Kube_Cluster.thy ===== *)
theory Kube_Cluster
  imports Kube_Strategy Kube_Waits
begin

text \<open>
  What the Kubernetes strategy promises. The laws of the cluster are the locales \<open>kube_cluster\<close> (which
  services are left and how a watch of the deployments begins) and \<open>kube_executor\<close> (what containers
  have executed); under them the strategy fulfils the contract of \<open>Simulation\<close> and delivers hosts and
  rules. A cluster in memory keeps both.
\<close>

section \<open>Cleaning\<close>

text \<open>
  The deletion from the world \<open>w\<close> to \<open>w'\<close>: the deployments are watched, their deletion is
  accepted, and the wait is over with the m-th event of the watch, which is then stopped. If all
  deployments had replicas when the watch began, each of them has been seen without by then.
\<close>

definition deletion_seen :: "'w kube_env \<Rightarrow> ('w \<Rightarrow> string \<rightharpoonup> int \<times> int) \<Rightarrow> 'w \<Rightarrow> 'w \<Rightarrow> bool" where
  "deletion_seen env status w w' \<longleftrightarrow>
     (\<exists>x v v' m. ke_watch_deployments env (label_selector LabelApp AppName) w = (Return (Inr x), v)
        \<and> ke_delete_deployments env (label_selector LabelApp AppName) v = (Return (Inr ()), v')
        \<and> w' = ke_stop env x v' \<and> over_with (ke_events env x v') m
        \<and> ((0, 0) \<notin> ran (status v) \<longrightarrow> dom (status v) \<subseteq> gone_names (take m (ke_events env x v'))))"

text \<open>
  The laws of the cluster: \<open>services w\<close> are the services and \<open>status w\<close> the deployments of the
  simulation with their available and unavailable replicas. A watch begins with an event for each
  deployment that exists, in some order. A deletion in the foreground leaves the deployments for
  the time being: what becomes of them is told by the later events, of which nothing is assumed.
\<close>

locale kube_cluster =
  fixes env :: "'w kube_env" and status :: "'w \<Rightarrow> string \<rightharpoonup> int \<times> int" and services :: "'w \<Rightarrow> string set"
  assumes delete_service: "ke_delete_service env name w = (Return (Inr ()), w') \<Longrightarrow> name \<notin> services w'"
    and watch: "ke_watch_deployments env sel w = (watching, w') \<Longrightarrow> services w' \<subseteq> services w"
    and delete: "ke_delete_deployments env sel w = (deleting, w') \<Longrightarrow> services w' \<subseteq> services w"
    and stop: "services (ke_stop env watched w) \<subseteq> services w"
    and announced: "ke_watch_deployments env (label_selector LabelApp AppName) w = (Return (Inr x), v)
      \<Longrightarrow> ke_delete_deployments env (label_selector LabelApp AppName) v = (Return (Inr ()), v')
      \<Longrightarrow> \<exists>ds later. ke_events env x v' = map deployment_event ds @ later
        \<and> (\<forall>n a u. (n, a, u) \<in> set ds \<longleftrightarrow> status v n = Some (a, u))"
begin

lemma deletion:
  assumes "deferring (wait_deletion env x) (stop_watch env x) k = (Return (Inr ()), k')"
    and "ke_watch_deployments env (label_selector LabelApp AppName) w = (Return (Inr x), v)"
    and "ke_delete_deployments env (label_selector LabelApp AppName) v = (Return (Inr ()), k_world k)"
  shows "deletion_seen env status w (k_world k')"
proof -
  have "wait_gone {} {} (ke_events env x (k_world k)) = Inr ()" and k': "k_world k' = ke_stop env x (k_world k)"
    using assms(1) by (auto simp: deferring_def wait_deletion_def stop_watch_def split: sum.splits)
  then obtain m where m: "over_with (ke_events env x (k_world k)) m" by (metis wait_gone_over)
  obtain ds later where ds: "ke_events env x (k_world k) = map deployment_event ds @ later"
      "\<And>n a u. (n, a, u) \<in> set ds \<longleftrightarrow> status v n = Some (a, u)"
    using announced [OF assms(2,3)] by blast
  have "dom (status v) \<subseteq> gone_names (take m (ke_events env x (k_world k)))" if "(0, 0) \<notin> ran (status v)"
  proof -
    have "\<forall>n. (n, 0, 0) \<notin> set ds"
      using that unfolding ds(2) ran_def by blast
    then have "fst ` set ds \<subseteq> gone_names (take m (ke_events env x (k_world k)))"
      using m unfolding ds(1) by (intro over_after_all)
    moreover have "dom (status v) \<subseteq> fst ` set ds" using ds(2) by force
    ultimately show ?thesis by blast
  qed
  then show ?thesis
    unfolding deletion_seen_def using assms(2,3) m k' by blast
qed

definition emptied :: "'w kube_strategy \<Rightarrow> bool" where
  "emptied s \<longleftrightarrow> ''simnet-router'' \<notin> services (k_world (ks_engine s))
     \<and> (\<exists>w. deletion_seen env status w (k_world (ks_engine s)))"

text \<open>A cleaning without an error, step by step.\<close>

lemma clean_deletes:
  assumes "kube_clean env round1 s = (Return (Inr ()), t)"
  shows "\<exists>w0 w1. kr_tun_stop round1 (k_world (ks_engine s)) = (Return (Inr ()), w0)
    \<and> ke_delete_service env ''simnet-router'' w0 = (Return (Inr ()), w1)
    \<and> deletion_seen env status w1 (k_world (ks_engine t)) \<and> ''simnet-router'' \<notin> services (k_world (ks_engine t))"
proof -
  obtain r1 r2 s1 where s1: "on_tunnel (kr_tun_stop round1) s = (Return r1, s1)"
      and s2: "on_engine (delete_and_wait env) s1 = (Return r2, t)" and "errors_of r1 @ errors_of r2 = []"
    using assms unfolding kube_clean_def by (auto elim!: observe_cases simp: Let_def split: if_splits)
  then obtain k where r1: "r1 = Inr ()" and k: "delete_and_wait env (ks_engine s1) = (Return (Inr ()), k)" and t: "ks_engine t = k"
    by (auto simp: errors_of_def on_engine_def focus_result split: sum.splits)
  obtain x k1 where del: "delete_all env (ks_engine s1) = (Return (Inr x), k1)"
      and wait: "deferring (wait_deletion env x) (stop_watch env x) k1 = (Return (Inr ()), k)"
    using k unfolding delete_and_wait_def by (auto elim!: attempt_valueE)
  obtain r k2 k3 where k2: "delete_service env (ks_engine s1) = (Return r, k2)" and r: "tolerate_not_found r = Inr ()"
      and watched: "ke_watch_deployments env (label_selector LabelApp AppName) (k_world k2) = (Return (Inr x), k3)"
      and deleted: "ke_delete_deployments env (label_selector LabelApp AppName) k3 = (Return (Inr ()), k_world k1)"
    using del unfolding delete_all_def
    by (auto simp: on_cluster_def focus_result elim!: observe_cases attempt_valueE split: sum.splits)
  have "r = Inr ()"
    using k2 r by (auto simp: delete_service_def attempt_def split: prod.splits outcome.splits sum.splits)
  then have service: "ke_delete_service env ''simnet-router'' (k_world (ks_engine s1)) = (Return (Inr ()), k_world k2)"
    using k2 by (auto simp: delete_service_def on_cluster_def focus_result elim!: attempt_valueE)
  have "k_world k = ke_stop env x (k_world k1)"
    using wait by (auto simp: deferring_def wait_deletion_def stop_watch_def split: sum.splits)
  then have "''simnet-router'' \<notin> services (k_world k)"
    using delete_service [OF service] watch [OF watched] delete [OF deleted] stop [of x "k_world k1"] by auto
  moreover have "kr_tun_stop round1 (k_world (ks_engine s)) = (Return (Inr ()), k_world (ks_engine s1))"
    using s1 r1 by (auto simp: on_tunnel_def on_engine_def on_cluster_def focus_result)
  ultimately show ?thesis
    using service deletion [OF wait watched deleted] t by blast
qed

lemma contract: "strategy_contract (kube_strategy_of env round1) (\<lambda>_. True) (\<lambda>_. True) emptied"
  by unfold_locales (auto simp: kube_strategy_of_def emptied_def intro: keepsI dest: clean_deletes)

end

section \<open>Execution\<close>

lemma find_by_key: "distinct (map key xs) \<Longrightarrow> x \<in> set xs \<Longrightarrow> find (\<lambda>y. key y = key x) xs = Some x"
  by (induction xs) (auto simp: image_iff)

type_synonym execution = "string \<times> string \<times> string list \<times> (string \<times> gerror option) option"

locale kube_executor =
  fixes env :: "'w kube_env" and execs :: "'w \<Rightarrow> execution list"
  assumes executor: "ke_executor env p c cmd w = (made, w') \<Longrightarrow> execs w' = execs w"
    and stream: "ke_stream env p c cmd stdin w = (Return (out, errs, None), w') \<Longrightarrow>
      execs w' = execs w @ [(p, c, cmd, stdin)]"
begin

lemma exec_succeeds:
  assumes "kio_exec env p c cmd stdin w = (Return (Inr ()), w')"
  shows "execs w' = execs w @ [(p, c, cmd, stdin)]"
proof -
  obtain w1 where w1: "ke_executor env p c cmd w = (Return (Inr ()), w1)"
      and "stream_result (ke_stream env p c cmd stdin w1) (\<lambda>(out, errs, e).
          case e of None \<Rightarrow> Inr () | Some err \<Rightarrow> Inl err) = (Return (Inr ()), w')"
    using assms unfolding kio_exec_def by (auto split: if_splits elim!: attempt_valueE)
  then obtain out errs where "ke_stream env p c cmd stdin w1 = (Return (out, errs, None), w')"
    by (auto simp: stream_result_def split: prod.splits outcome.splits option.splits)
  then show ?thesis using executor [OF w1] stream by simp
qed

definition did :: "'w kube \<Rightarrow> execution list \<Rightarrow> 'w kube \<Rightarrow> bool" where
  "did s es t \<longleftrightarrow> execs (k_world t) = execs (k_world s) @ es \<and> k_pods t = k_pods s \<and> k_options t = k_options s"

definition hosts_write :: "pod list \<Rightarrow> pod \<Rightarrow> execution" where
  "hosts_write pods p =
     (pod_name p, ContainerAppName, [''sh'', ''-c'', ''cat - >> /etc/hosts''], Some (host_aliases pods, None))"

definition rules_exec :: "topology \<Rightarrow> mapping \<Rightarrow> pod \<Rightarrow> execution" where
  "rules_exec t m p =
     (pod_name p, ContainerMonitorName, commandNetEm,
      Some (piped (ke_encode_rules env (topo_rules (ke_entry_order env) t (pod_label p LabelNode) m))))"

lemma for_pods_ran:
  assumes "for_pods env f pods s = (Return (Inr ()), t)" and "did s0 es s"
    and "\<And>p es. p \<in> set (ke_schedule env pods) \<Longrightarrow> succeeds (did s0 es) (f p) (\<lambda>_. did s0 (es @ [g p]))"
  shows "did s0 (es @ map g (ke_schedule env pods)) t"
proof -
  have "collect_errors f (ke_schedule env pods) [] s = (Return (Inr []), t)"
    using assms(1) by (auto simp: for_pods_def split: list.splits elim!: attempt_valueE)
  moreover have "succeeds (did s0 (es @ map g ds)) (f p) (\<lambda>_. did s0 (es @ map g (ds @ [p])))"
    if "p \<in> set (ke_schedule env pods)" for p ds
    using assms(3) [OF that, of "es @ map g ds"] by simp
  ultimately have "did s0 (es @ map g ([] @ ke_schedule env pods)) t"
    using assms(2) collect_no_errors [where I = "\<lambda>done. did s0 (es @ map g done)" and start = "[]" and errs = "[]"] by simp
  then show ?thesis by simp
qed

lemma write_hosts:
  assumes "distinct (map (\<lambda>p. pod_label p LabelNode) (k_pods s0))" and "p \<in> set (k_pods s0)"
  shows "succeeds (did s0 es) (kube_write env (pod_label p LabelNode) ''/etc/hosts'' (host_aliases pods, None))
    (\<lambda>_. did s0 (es @ [hosts_write pods p]))"
proof (rule succeedsI)
  fix s x t
  assume s: "did s0 es s" and w: "kube_write env (pod_label p LabelNode) ''/etc/hosts'' (host_aliases pods, None) s = (Return (Inr x), t)"
  have "find_pod (pod_label p LabelNode) (k_pods s) = Some p"
    using assms s find_by_key [of "\<lambda>p. pod_label p LabelNode" "k_pods s0" p] by (simp add: did_def find_pod_def)
  then have "on_cluster (kio_write env (pod_name p) ContainerAppName ''/etc/hosts'' (host_aliases pods, None)) s = (Return (Inr ()), t)"
    using w by (auto simp: kube_write_def with_pod_def elim!: attempt_valueE)
  then obtain v where "kio_exec env (pod_name p) ContainerAppName [''sh'', ''-c'', ''cat - >> /etc/hosts'']
      (Some (host_aliases pods, None)) (k_world s) = (Return (Inr ()), v)" and "t = s\<lparr>k_world := v\<rparr>"
    by (auto simp: on_cluster_def focus_result kio_write_def)
  then show "did s0 (es @ [hosts_write pods p]) t"
    using s exec_succeeds by (fastforce simp: did_def hosts_write_def)
qed

lemma send_rules:
  assumes "opt_topology (k_options s0) = Some tp"
  shows "succeeds (did s0 es) (upload_rules env m p) (\<lambda>_. did s0 (es @ [rules_exec tp m p]))"
proof (rule succeedsI)
  fix s x t
  assume s: "did s0 es s" and u: "upload_rules env m p s = (Return (Inr x), t)"
  then obtain v where "kio_exec env (pod_name p) ContainerMonitorName commandNetEm
      (Some (piped (ke_encode_rules env (topo_rules (ke_entry_order env) tp (pod_label p LabelNode) m)))) (k_world s) = (Return (Inr ()), v)"
      and "t = s\<lparr>k_world := v\<rparr>"
    using assms by (auto simp: upload_rules_def with_topology_of_def did_def on_cluster_def focus_result elim!: attempt_valueE)
  then show "did s0 (es @ [rules_exec tp m p]) t"
    using s exec_succeeds by (fastforce simp: did_def rules_exec_def)
qed

text \<open>Both rounds of goroutines, each in some order of the pods.\<close>

lemma uploaded:
  assumes "upload_config env s = (Return (Inr ()), t)" and "opt_topology (k_options s) = Some tp"
    and "distinct (map (\<lambda>p. pod_label p LabelNode) (k_pods s))" and "set (ke_schedule env (k_pods s)) \<subseteq> set (k_pods s)"
  shows "execs (k_world t) = execs (k_world s)
      @ map (hosts_write (k_pods s)) (ke_schedule env (k_pods s))
      @ map (rules_exec tp (node_mapping (k_pods s))) (ke_schedule env (k_pods s))"
proof -
  obtain u where u: "configure_pods env (k_pods s) s = (Return (Inr ()), u)"
      and t: "for_pods env (upload_rules env (node_mapping (k_pods s))) (k_pods s) u = (Return (Inr ()), t)"
    using assms(1) by (auto simp: upload_config_def elim!: attempt_valueE)
  have "for_pods env (\<lambda>p. kube_write env (pod_label p LabelNode) ''/etc/hosts'' (host_aliases (k_pods s), None)) (k_pods s) s
      = (Return (Inr ()), u)"
    using u by (auto simp: configure_pods_def elim!: attempt_valueE)
  then have "did s ([] @ map (hosts_write (k_pods s)) (ke_schedule env (k_pods s))) u"
    using assms(3,4) write_hosts [of s] by (intro for_pods_ran) (auto simp: did_def)
  then have "did s (([] @ map (hosts_write (k_pods s)) (ke_schedule env (k_pods s)))
      @ map (rules_exec tp (node_mapping (k_pods s))) (ke_schedule env (k_pods s))) t"
    by (rule for_pods_ran [OF t]) (rule send_rules [OF assms(2)])
  then show ?thesis by (simp add: did_def)
qed

end

section \<open>A cluster in memory\<close>

text \<open>
  Deployments have one ready pod each. A watch of the deployments shows them, and those being deleted
  once more without replicas; they are removed when the watch is stopped. Commands always succeed, and
  are recorded.
\<close>

record cluster =
  cl_deployments :: "deployment list"
  cl_gone :: "string list"
  cl_services :: "string list"
  cl_execs :: "execution list"

definition cluster_pods :: "string \<Rightarrow> cluster \<Rightarrow> pod list" where
  "cluster_pods sel w =
     map (\<lambda>d. pod_of (dp_name d @ ''-0'') (get_or (dp_pod_labels d) LabelNode '''') (''10.0.0.'' @ dp_name d) True)
       (filter (\<lambda>d. label_selector LabelID (get_or (dp_pod_labels d) LabelID '''') = sel) (cl_deployments w))"

definition cluster_events :: "string \<Rightarrow> cluster \<Rightarrow> kube_object list" where
  "cluster_events watched w =
     (if watched = ''services'' then [Service_object [0, 30000]]
      else if watched = ''deployments''
      then map (\<lambda>d. Deployment_object (dp_name d) 1 0) (cl_deployments w) @ map (\<lambda>n. Deployment_object n 0 0) (cl_gone w)
      else map Pod_object (cluster_pods watched w))"

definition cluster_status :: "cluster \<Rightarrow> string \<rightharpoonup> int \<times> int" where
  "cluster_status w = map_of (map (\<lambda>d. (dp_name d, 1, 0)) (cl_deployments w))"

definition cluster_stop :: "string \<Rightarrow> cluster \<Rightarrow> cluster" where
  "cluster_stop watched w =
     (if watched = ''deployments''
      then w\<lparr>cl_deployments := filter (\<lambda>d. dp_name d \<notin> set (cl_gone w)) (cl_deployments w)\<rparr> else w)"

definition memory_cluster :: "cluster kube_env" where
  "memory_cluster =
     \<lparr>ke_watch_pods = give, ke_watch_services = give ''services'', ke_watch_deployments = \<lambda>sel. give ''deployments'',
      ke_events = cluster_events, ke_stop = cluster_stop,
      ke_create_deployment = \<lambda>d. update (\<lambda>w. w\<lparr>cl_deployments := cl_deployments w @ [d]\<rparr>),
      ke_create_service = \<lambda>sv. update (\<lambda>w. w\<lparr>cl_services := sv_name sv # cl_services w\<rparr>),
      ke_list_pods = \<lambda>sel. fetch (cluster_pods sel), ke_list_nodes = give [[(''Hostname'', ''n1''), (''ExternalIP'', ''192.0.2.1'')]],
      ke_delete_service = \<lambda>name w.
        if name \<in> set (cl_services w) then (Return (Inr ()), w\<lparr>cl_services := removeAll name (cl_services w)\<rparr>)
        else (Return (Inl (StatusErr ''NotFound'' (''services '' @ name @ '' not found''))), w),
      ke_delete_deployments = \<lambda>sel. update (\<lambda>w. w\<lparr>cl_gone := map dp_name (cl_deployments w)\<rparr>),
      ke_logs = \<lambda>p c. give (), ke_executor = \<lambda>p c cmd. give (),
      ke_stream = \<lambda>p c cmd stdin w. (Return ('''', '''', None), w\<lparr>cl_execs := cl_execs w @ [(p, c, cmd, stdin)]\<rparr>),
      ke_remove_all = \<lambda>p. give (), ke_mkdir_all = \<lambda>p. give (), ke_create_file = \<lambda>p. give (), ke_open_file = \<lambda>p. give (),
      ke_write_file = \<lambda>p c. give (), ke_encode_stats = \<lambda>p st. give (),
      ke_encode_rules = \<lambda>rules. Inr (concat (map (\<lambda>r. rule_ip r @ [newline]) rules)), ke_now = \<lambda>w. 5000000000,
      ke_schedule = rev, ke_file_order = \<lambda>xs. xs, ke_node_order = \<lambda>n xs. xs, ke_entry_order = \<lambda>n xs. xs\<rparr>"

definition memory_round :: "cluster kube_round" where
  "memory_round = \<lparr>kr_before = \<lambda>nodes. give (), kr_execute = \<lambda>nodes. give (), kr_after = \<lambda>nodes. give (),
     kr_tun_start = \<lambda>opts. give (), kr_tun_stop = give ()\<rparr>"

lemma cluster_status_iff:
  "(n, a, u) \<in> set (map (\<lambda>d. (dp_name d, 1, 0)) ds) \<longleftrightarrow> map_of (map (\<lambda>d. (dp_name d, 1 :: int, 0 :: int)) ds) n = Some (a, u)"
  by (induction ds) auto

interpretation memory_cluster: kube_cluster memory_cluster cluster_status "\<lambda>w. set (cl_services w)"
proof unfold_locales
  fix w x v v' assume "ke_watch_deployments memory_cluster (label_selector LabelApp AppName) w = (Return (Inr x), v)"
    and "ke_delete_deployments memory_cluster (label_selector LabelApp AppName) v = (Return (Inr ()), v')"
  then have "x = ''deployments''" "cl_deployments v' = cl_deployments v"
    by (auto simp: memory_cluster_def)
  then have "ke_events memory_cluster x v' = map deployment_event (map (\<lambda>d. (dp_name d, 1, 0)) (cl_deployments v))
      @ map (\<lambda>n. Deployment_object n 0 0) (cl_gone v')"
    by (simp add: memory_cluster_def cluster_events_def deployment_event_def)
  then show "\<exists>ds later. ke_events memory_cluster x v' = map deployment_event ds @ later
      \<and> (\<forall>n a u. (n, a, u) \<in> set ds \<longleftrightarrow> cluster_status v n = Some (a, u))"
    unfolding cluster_status_def using cluster_status_iff by blast
qed (auto simp: memory_cluster_def cluster_stop_def split: if_splits)

interpretation memory_executor: kube_executor memory_cluster cl_execs
  by unfold_locales (auto simp: memory_cluster_def)

interpretation memory_kube: strategy_contract "kube_strategy_of memory_cluster round1"
    "\<lambda>_. True" "\<lambda>_. True" memory_cluster.emptied for round1
  by (rule memory_cluster.contract)

section \<open>Properties\<close>


definition two_node_strategy :: "cluster kube_strategy" where
  "two_node_strategy =
     projr (new_kube_strategy (Inr ()) (Inr ()) (Inr ''default'') (Inr ()) (Inr ''cluster'')
       (fold (\<lambda>f. f)
         [with_topology (Simple (fold (simple_step 50) [0, 1]
            \<lparr>st_nodes = replicate 2 (named_node ''''), st_links = Map.empty\<rparr>)),
          with_image ''nginx'' [] [] [], with_output ''/root''] initial_options)
       \<lparr>cl_deployments = [], cl_gone = [], cl_services = [], cl_execs = []\<rparr>)"


text \<open>
  C11: Uploading the configuration: when it succeeds, every pod has executed exactly two commands more.
  First its application container has received the addresses and names of all the pods for its hosts
  file, then its monitor the rules of its node, encoded and computed with the addresses of all the
  nodes; nothing else was executed, and no rules before the last hosts file was complete.
\<close>

theorem upload_config_delivers:
  assumes "kube_executor env execs" and "upload_config env s = (Return (Inr ()), t)"
    and "opt_topology (k_options s) = Some tp" and "distinct (map (\<lambda>p. pod_label p LabelNode) (k_pods s))"
    and "mset (ke_schedule env (k_pods s)) = mset (k_pods s)"
  shows "\<exists>hosts rules. execs (k_world t) = execs (k_world s) @ hosts @ rules
    \<and> mset hosts = mset (map (\<lambda>p. (pod_name p, ContainerAppName, [''sh'', ''-c'', ''cat - >> /etc/hosts''],
        Some (host_aliases (k_pods s), None))) (k_pods s))
    \<and> mset rules = mset (map (\<lambda>p. (pod_name p, ContainerMonitorName, commandNetEm,
        Some (piped (ke_encode_rules env
          (topo_rules (ke_entry_order env) tp (pod_label p LabelNode) (node_mapping (k_pods s))))))) (k_pods s))"
proof -
  have "set (ke_schedule env (k_pods s)) \<subseteq> set (k_pods s)"
    using assms(5) by (metis mset_eq_setD order_refl)
  from kube_executor.uploaded [OF assms(1-4) this] show ?thesis
    using assms(5)
    by (intro exI conjI) (auto simp: kube_executor.hosts_write_def [OF assms(1), abs_def] kube_executor.rules_exec_def [OF assms(1), abs_def])
qed

theorem upload_config_delivers_witness:
  "let s = (ks_engine two_node_strategy)
       \<lparr>k_pods := [pod_of ''p0'' ''node0'' ''10.0.0.1'' True, pod_of ''p1'' ''node1'' ''10.0.0.2'' True]\<rparr>;
       (r, t) = upload_config memory_cluster s
   in r = Return (Inr ())
     \<and> (\<exists>hosts rules. cl_execs (k_world t) = hosts @ rules
       \<and> mset (map fst hosts) = mset [''p0'', ''p1''] \<and> mset (map fst rules) = mset [''p0'', ''p1''])"
proof -
  let ?s = "(ks_engine two_node_strategy)
       \<lparr>k_pods := [pod_of ''p0'' ''node0'' ''10.0.0.1'' True, pod_of ''p1'' ''node1'' ''10.0.0.2'' True]\<rparr>"
  have "fst (upload_config memory_cluster ?s) = Return (Inr ())"
    by code_simp
  then obtain t where t: "upload_config memory_cluster ?s = (Return (Inr ()), t)"
    by (cases "upload_config memory_cluster ?s") auto
  obtain tp where tp: "opt_topology (k_options ?s) = Some tp"
    by (simp add: two_node_strategy_def new_kube_strategy_def new_kube_engine_def with_topology_def with_image_def
        with_output_def initial_options_def Let_def)
  have labels: "distinct (map (\<lambda>p. pod_label p LabelNode) (k_pods ?s))"
    by (simp add: pod_label_def pod_of_def)
  have sched: "mset (ke_schedule memory_cluster (k_pods ?s)) = mset (k_pods ?s)"
    by (simp add: memory_cluster_def)
  have empty: "cl_execs (k_world ?s) = []" by code_simp
  have names: "map pod_name (k_pods ?s) = [''p0'', ''p1'']" by (simp add: pod_of_def)
  from upload_config_delivers [OF memory_executor.kube_executor_axioms t tp labels sched] obtain hosts rules where
      e: "cl_execs (k_world t) = hosts @ rules"
      and "mset hosts = mset (map (\<lambda>p. (pod_name p, ContainerAppName, [''sh'', ''-c'', ''cat - >> /etc/hosts''],
        Some (host_aliases (k_pods ?s), None))) (k_pods ?s))"
      and "mset rules = mset (map (\<lambda>p. (pod_name p, ContainerMonitorName, commandNetEm,
        Some (piped (ke_encode_rules memory_cluster
          (topo_rules (ke_entry_order memory_cluster) tp (pod_label p LabelNode) (node_mapping (k_pods ?s))))))) (k_pods ?s))"
    unfolding empty by auto
  then have "mset (map fst hosts) = mset (map pod_name (k_pods ?s))"
      "mset (map fst rules) = mset (map pod_name (k_pods ?s))"
    by (simp_all only: mset_map image_mset.compositionality) (simp_all add: comp_def)
  then show ?thesis
    unfolding Let_def t prod.case names using e by blast
qed

text \<open>
  C15: Cleaning needs the router: if its service cannot be deleted, in particular when it does not exist
  because a deployment failed before it was created, then the cleaning fails without deleting any
  deployment. The tolerance for a missing service is never reached, as the error is wrapped before.
\<close>

theorem kube_clean_needs_router:
  assumes "kr_tun_stop round1 (k_world (ks_engine s)) = (Return r, w1)"
    and "ke_delete_service env ''simnet-router'' w1 = (Return (Inl err), w2)"
  shows "kube_clean env round1 s =
    (Return (Inl (Msg (''cleaning error: '' @ kube_error_list (errors_of r
        @ [Msg (''couldn't delete router: failed deleting router: '' @ error_text err)])))),
     s\<lparr>ks_engine := (ks_engine s)\<lparr>k_world := w2\<rparr>\<rparr>)"
proof -
  let ?k = "(ks_engine s)\<lparr>k_world := w1\<rparr>"
  have "on_tunnel (kr_tun_stop round1) s = (Return r, s\<lparr>ks_engine := ?k\<rparr>)"
    using assms(1) by (simp add: on_tunnel_def on_engine_def on_cluster_def focus_def)
  moreover have "delete_service env ?k = (Return (Inl (Msg (''failed deleting router: '' @ error_text err))),
      (ks_engine s)\<lparr>k_world := w2\<rparr>)"
    using assms(2) by (simp add: delete_service_def on_cluster_def focus_def attempt_def)
  then have "delete_and_wait env ?k =
      (Return (Inl (Msg (''couldn't delete router: failed deleting router: '' @ error_text err))), (ks_engine s)\<lparr>k_world := w2\<rparr>)"
    by (simp add: delete_and_wait_def delete_all_def observe_def attempt_def)
  ultimately show ?thesis
    by (simp add: kube_clean_def on_engine_def focus_def observe_def errors_of_def Let_def)
qed

text \<open>A deployment that fails before the router is created, and the cleaning after it.\<close>

theorem kube_clean_needs_router_witness:
  "let (r, s) = on_engine (create_deployment memory_cluster) two_node_strategy;
       (q, t) = kube_clean memory_cluster memory_round s
   in r = Return (Inr ''go.dedis.ch.id=simnet-app'')
     \<and> q = Return (Inl (Msg ''cleaning error: [couldn't delete router: failed deleting router: services simnet-router not found]''))
     \<and> map dp_name (cl_deployments (k_world (ks_engine t))) = [''simnet-node0'', ''simnet-node1'']"
proof -
  let ?r = "on_engine (create_deployment memory_cluster) two_node_strategy"
  have run: "(case ?r of (r, s) \<Rightarrow> (r, map dp_name (cl_deployments (k_world (ks_engine s))), cl_services (k_world (ks_engine s))))
    = (Return (Inr ''go.dedis.ch.id=simnet-app''), [''simnet-node0'', ''simnet-node1''], [])"
    by code_simp
  then obtain s where s: "?r = (Return (Inr ''go.dedis.ch.id=simnet-app''), s)"
      and d: "map dp_name (cl_deployments (k_world (ks_engine s))) = [''simnet-node0'', ''simnet-node1'']"
      and sv: "cl_services (k_world (ks_engine s)) = []"
    by (auto split: prod.splits)
  have stop: "kr_tun_stop memory_round (k_world (ks_engine s)) = (Return (Inr ()), k_world (ks_engine s))"
    by (simp add: memory_round_def)
  have "ke_delete_service memory_cluster ''simnet-router'' (k_world (ks_engine s))
      = (Return (Inl (StatusErr ''NotFound'' ''services simnet-router not found'')), k_world (ks_engine s))"
    using sv by (simp add: memory_cluster_def)
  from kube_clean_needs_router [OF stop this] show ?thesis
    using s d by (simp add: kube_error_list_def errors_of_def)
qed

end
