(* ===== verification/Kube_IO.thy ===== *)
theory Kube_IO
  imports Sim_IO Kube_Cluster
begin

text \<open>
  The engine as the \<open>sim.IO\<close> of the rounds of the Kubernetes strategy, and the partitions of the
  network that \<open>Disconnect\<close> and \<open>Reconnect\<close> make. The locale \<open>pod_firewall\<close> states what \<open>iptables\<close>
  does in a pod; the abstract network is the set of ordered pairs of nodes that cannot reach each other.
\<close>

section \<open>The engine as the interface of a round\<close>

text \<open>The statistics are asked for in nanoseconds and read in seconds.\<close>

definition kube_io :: "'w kube_env \<Rightarrow> 'w kube sim_io" where
  "kube_io env =
     \<lparr>io_tag = kube_tag env, io_read = kube_read env, io_write = kube_write env, io_exec = kube_exec env,
      io_disconnect = kube_disconnect env, io_reconnect = kube_reconnect env,
      io_fetch_stats = (\<lambda>from until. kube_fetch_stats env (from div 1000000000) (until div 1000000000))\<rparr>"

definition kube_round_of ::
  "'w kube_env \<Rightarrow> 'w kube sim_round \<Rightarrow> (tun_option list \<Rightarrow> ('w, unit) call) \<Rightarrow> ('w, unit) call \<Rightarrow> 'w kube_round" where
  "kube_round_of env r start stop =
     \<lparr>kr_before = round_before r (kube_io env), kr_execute = round_execute r (kube_io env),
      kr_after = round_after r (kube_io env), kr_tun_start = start, kr_tun_stop = stop\<rparr>"

text \<open>A round only changes the world and the tags.\<close>

definition same_engine :: "'w kube \<Rightarrow> 'w kube \<Rightarrow> bool" where
  "same_engine s t \<longleftrightarrow> k_options t = k_options s \<and> k_host t = k_host s \<and> k_namespace t = k_namespace s
     \<and> k_pods t = k_pods s \<and> k_streaming t = k_streaming s"

lemma same_engine_refl [simp]: "same_engine s s"
  by (simp add: same_engine_def)

lemma keeps_on_cluster: "keeps (same_engine s) (on_cluster m)"
  unfolding on_cluster_def by (rule keeps_focus) (simp add: same_engine_def)

lemma keeps_with_pod: "(\<And>p. keeps P (k p)) \<Longrightarrow> keeps P (with_pod what n k)"
  by (rule keepsI) (auto simp: with_pod_def keeps_def split: option.splits)

lemma keeps_collect_stats: "keeps (same_engine s) (collect_stats env start end ps nodes)"
  by (induction ps arbitrary: nodes)
    (auto intro!: keeps_intros keeps_on_cluster simp: read_pod_stats_def split: prod.splits)

lemma keeps_kube_tag: "keeps (same_engine s) (kube_tag env name)"
  unfolding kube_tag_def by (rule keeps_update) (simp add: same_engine_def)

lemmas keeps_engine = keeps_intros keeps_with_pod keeps_on_cluster keeps_collect_stats keeps_kube_tag

interpretation kube_frame: io_frame "kube_io env" "same_engine s" for env and s
  by unfold_locales
    (auto simp: kube_io_def kube_read_def kube_write_def kube_exec_def kube_disconnect_def
      kube_reconnect_def kube_fetch_stats_def intro!: keeps_engine split: prod.splits)

section \<open>The firewall of a pod\<close>

text \<open>
  The monitor shares the network of its pod. What \<open>iptables\<close> does there: inserting rules into the
  output chain blocks their destinations, flushing unblocks everything.
\<close>

definition drop_command :: "string \<Rightarrow> string" where
  "drop_command ip = ''iptables -I OUTPUT -d '' @ ip @ '' -j DROP''"

abbreviation drop_script :: "string list \<Rightarrow> string list" where
  "drop_script ips \<equiv> [''/bin/sh'', ''-c'', join '' && '' (map drop_command ips)]"

locale pod_firewall =
  fixes env :: "'w kube_env" and blocked :: "'w \<Rightarrow> string \<Rightarrow> string set"
  assumes executor: "ke_executor env p c cmd w = (made, w') \<Longrightarrow> blocked w' = blocked w"
    and drop: "\<forall>ip \<in> set ips. CHR '' '' \<notin> set ip \<Longrightarrow>
      ke_stream env p ContainerMonitorName (drop_script ips) None w = (Return (out, errs, None), w') \<Longrightarrow>
      blocked w' = (blocked w)(p := blocked w p \<union> set ips)"
    and flush: "ke_stream env p ContainerMonitorName [''iptables'', ''-F''] None w = (Return (out, errs, None), w') \<Longrightarrow>
      blocked w' = (blocked w)(p := {})"

definition pods_wf :: "pod list \<Rightarrow> bool" where
  "pods_wf pods \<longleftrightarrow> distinct (map (\<lambda>p. pod_label p LabelNode) pods) \<and> distinct (map pod_name pods)
     \<and> distinct (map pod_ip pods) \<and> (\<forall>p \<in> set pods. CHR '' '' \<notin> set (pod_ip p))"

definition severed :: "('w \<Rightarrow> string \<Rightarrow> string set) \<Rightarrow> 'w kube \<Rightarrow> network" where
  "severed blocked s =
     {(pod_label p LabelNode, pod_label q LabelNode) | p q.
        p \<in> set (k_pods s) \<and> q \<in> set (k_pods s) \<and> pod_ip q \<in> blocked (k_world s) (pod_name p)}"

lemma severed_iff:
  assumes "distinct (map (\<lambda>p. pod_label p LabelNode) (k_pods s))" and "p \<in> set (k_pods s)" and "q \<in> set (k_pods s)"
  shows "(pod_label p LabelNode, pod_label q LabelNode) \<in> severed blocked s \<longleftrightarrow> pod_ip q \<in> blocked (k_world s) (pod_name p)"
  using assms inj_onD [of "\<lambda>p. pod_label p LabelNode" "set (k_pods s)"]
  by (auto simp: severed_def distinct_map)

lemma find_pod_Some: "find_pod n pods = Some p \<Longrightarrow> p \<in> set pods \<and> pod_label p LabelNode = n"
  unfolding find_pod_def find_Some_iff by auto

lemma drop_commands_addresses:
  "drop_commands pods targets = Inr cmds \<Longrightarrow>
     \<exists>qs. list_all2 (\<lambda>n q. find_pod n pods = Some q) targets qs \<and> cmds = map (\<lambda>q. drop_command (pod_ip q)) qs"
  by (induction targets arbitrary: cmds)
    (auto simp: drop_command_def list_all2_Cons1 split: option.splits sum.splits)

lemma kio_exec_success:
  assumes "kio_exec env p c cmd stdin w = (Return (Inr ()), w')"
  obtains w1 out errs where "ke_executor env p c cmd w = (Return (Inr ()), w1)"
    and "ke_stream env p c cmd stdin w1 = (Return (out, errs, None), w')"
proof -
  obtain w1 where w1: "ke_executor env p c cmd w = (Return (Inr ()), w1)"
      and "stream_result (ke_stream env p c cmd stdin w1) (\<lambda>(out, errs, e).
          case e of None \<Rightarrow> Inr () | Some err \<Rightarrow> Inl err) = (Return (Inr ()), w')"
    using assms unfolding kio_exec_def by (auto split: if_splits elim!: attempt_valueE)
  then obtain out errs where "ke_stream env p c cmd stdin w1 = (Return (out, errs, None), w')"
    by (auto simp: stream_result_def split: prod.splits outcome.splits option.splits)
  with w1 show thesis by (rule that)
qed

lemma with_pod_success:
  assumes "with_pod what n k s = (Return (Inr x), t)"
  obtains p where "find_pod n (k_pods s) = Some p" and "k p s = (Return (Inr x), t)"
  using assms by (auto simp: with_pod_def split: option.splits)

context pod_firewall
begin

lemma monitor_exec:
  assumes "attempt (on_cluster (kio_exec env (pod_name p) ContainerMonitorName cmd None)) w (\<lambda>_. give ()) s = (Return (Inr ()), t)"
  obtains w1 w2 out errs where "blocked w1 = blocked (k_world s)" and "t = s\<lparr>k_world := w2\<rparr>"
    and "ke_stream env (pod_name p) ContainerMonitorName cmd None w1 = (Return (out, errs, None), w2)"
proof -
  obtain w2 where "kio_exec env (pod_name p) ContainerMonitorName cmd None (k_world s) = (Return (Inr ()), w2)"
      and t: "t = s\<lparr>k_world := w2\<rparr>"
    using assms by (auto simp: on_cluster_def focus_result elim!: attempt_valueE)
  then obtain w1 out errs where "ke_executor env (pod_name p) ContainerMonitorName cmd (k_world s) = (Return (Inr ()), w1)"
      and "ke_stream env (pod_name p) ContainerMonitorName cmd None w1 = (Return (out, errs, None), w2)"
    by (auto elim: kio_exec_success)
  then show thesis using that t executor by blast
qed

lemma disconnect_severs:
  assumes wf: "pods_wf (k_pods s)" and ok: "kube_disconnect env src targets s = (Return (Inr ()), t)"
  shows "severed blocked t = sever src targets (severed blocked s)"
proof -
  obtain cmds p where cmds: "drop_commands (k_pods s) targets = Inr cmds" and p: "find_pod src (k_pods s) = Some p"
      and exec: "attempt (on_cluster (kio_exec env (pod_name p) ContainerMonitorName [''/bin/sh'', ''-c'', join '' && '' cmds] None))
        (errorf ''couldn't execute command'') (\<lambda>_. give ()) s = (Return (Inr ()), t)"
    using ok unfolding kube_disconnect_def by (auto elim!: attempt_valueE with_pod_success)
  obtain qs where qs: "list_all2 (\<lambda>n q. find_pod n (k_pods s) = Some q) targets qs"
      and script: "cmds = map drop_command (map pod_ip qs)"
    using drop_commands_addresses [OF cmds] by (auto simp: comp_def)
  have "\<exists>q. find_pod n (k_pods s) = Some q \<and> q \<in> set qs" if "n \<in> set targets" for n
    using qs that by (induction rule: list_all2_induct) auto
  moreover have "\<exists>n \<in> set targets. find_pod n (k_pods s) = Some q" if "q \<in> set qs" for q
    using qs that by (induction rule: list_all2_induct) auto
  ultimately have targets: "set targets = (\<lambda>q. pod_label q LabelNode) ` set qs" and "set qs \<subseteq> set (k_pods s)"
    by (fastforce dest: find_pod_Some)+
  from exec [unfolded script] obtain w1 w2 out errs where "blocked w1 = blocked (k_world s)" and t: "t = s\<lparr>k_world := w2\<rparr>"
      and "ke_stream env (pod_name p) ContainerMonitorName (drop_script (map pod_ip qs)) None w1 = (Return (out, errs, None), w2)"
    by (rule monitor_exec)
  moreover have "\<forall>ip \<in> set (map pod_ip qs). CHR '' '' \<notin> set ip"
    using wf \<open>set qs \<subseteq> set (k_pods s)\<close> by (auto simp: pods_wf_def)
  ultimately have b: "blocked w2 = (blocked (k_world s))(pod_name p := blocked (k_world s) (pod_name p) \<union> pod_ip ` set qs)"
    using drop by fastforce
  have inj: "inj_on (\<lambda>p. pod_label p LabelNode) (set (k_pods s))" "inj_on pod_name (set (k_pods s))" "inj_on pod_ip (set (k_pods s))"
    using wf by (simp_all add: pods_wf_def distinct_map)
  note src = find_pod_Some [OF p]
  have "(a, b) \<in> severed blocked t \<longleftrightarrow> (a, b) \<in> sever src targets (severed blocked s)" for a b
  proof (cases "\<exists>p' q. p' \<in> set (k_pods s) \<and> q \<in> set (k_pods s) \<and> a = pod_label p' LabelNode \<and> b = pod_label q LabelNode")
    case True
    then obtain p' q where pq: "p' \<in> set (k_pods s)" "q \<in> set (k_pods s)" "a = pod_label p' LabelNode" "b = pod_label q LabelNode"
      by blast
    have labels: "distinct (map (\<lambda>p. pod_label p LabelNode) (k_pods s))" using wf by (simp add: pods_wf_def)
    have "(a, b) \<in> severed blocked t \<longleftrightarrow> pod_ip q \<in> blocked w2 (pod_name p')"
      using severed_iff [of t p' q blocked] labels pq t by simp
    also have "\<dots> \<longleftrightarrow> pod_ip q \<in> blocked (k_world s) (pod_name p') \<or> (p' = p \<and> q \<in> set qs)"
      using b inj src pq \<open>set qs \<subseteq> set (k_pods s)\<close> by (auto dest!: inj_onD)
    also have "\<dots> \<longleftrightarrow> (a, b) \<in> severed blocked s \<or> (a = src \<and> b \<in> set targets)"
    proof -
      have "b \<in> set targets \<longleftrightarrow> q \<in> set qs"
        using inj_on_image_mem_iff [OF inj(1) pq(2) \<open>set qs \<subseteq> set (k_pods s)\<close>] pq(4) targets by simp
      moreover have "a = src \<longleftrightarrow> p' = p" using inj_on_eq_iff [OF inj(1) pq(1)] src pq(3) by metis
      ultimately show ?thesis using severed_iff [OF labels pq(1,2)] pq by simp
    qed
    finally show ?thesis by (auto simp: sever_def)
  next
    case False
    then have "(a, b) \<notin> severed blocked s \<and> (a, b) \<notin> severed blocked t"
      unfolding severed_def t by auto
    moreover have "\<not> (a = src \<and> b \<in> set targets)"
      using False src targets \<open>set qs \<subseteq> set (k_pods s)\<close> by auto
    ultimately show ?thesis by (auto simp: sever_def)
  qed
  then show ?thesis by auto
qed

lemma reconnect_heals:
  assumes wf: "pods_wf (k_pods s)" and ok: "kube_reconnect env n s = (Return (Inr ()), t)"
  shows "severed blocked t = heal n (severed blocked s)"
proof -
  obtain p where p: "find_pod n (k_pods s) = Some p"
      and exec: "attempt (on_cluster (kio_exec env (pod_name p) ContainerMonitorName [''iptables'', ''-F''] None))
        (errorf ''couldn't execute command'') (\<lambda>_. give ()) s = (Return (Inr ()), t)"
    using ok unfolding kube_reconnect_def by (auto elim!: with_pod_success)
  from exec obtain w1 w2 out errs where "blocked w1 = blocked (k_world s)" and t: "t = s\<lparr>k_world := w2\<rparr>"
      and "ke_stream env (pod_name p) ContainerMonitorName [''iptables'', ''-F''] None w1 = (Return (out, errs, None), w2)"
    by (rule monitor_exec)
  then have b: "blocked w2 = (blocked (k_world s))(pod_name p := {})"
    using flush by simp
  have inj: "inj_on (\<lambda>p. pod_label p LabelNode) (set (k_pods s))" "inj_on pod_name (set (k_pods s))"
    using wf by (simp_all add: pods_wf_def distinct_map)
  note src = find_pod_Some [OF p]
  have "pod_ip q \<in> blocked w2 (pod_name p') \<longleftrightarrow> pod_ip q \<in> blocked (k_world s) (pod_name p') \<and> pod_label p' LabelNode \<noteq> n"
    if "p' \<in> set (k_pods s)" for p' q
    using b inj src that by (auto dest: inj_onD)
  then show ?thesis
    unfolding severed_def heal_def t by auto
qed

lemma ready_kept:
  "keeps (\<lambda>s. pods_wf (k_pods s)) (kube_disconnect env src targets)"
  "keeps (\<lambda>s. pods_wf (k_pods s)) (kube_reconnect env node)"
  unfolding kube_disconnect_def kube_reconnect_def on_cluster_def
  by (intro keeps_intros keeps_with_pod; simp)+

end

sublocale pod_firewall \<subseteq> faults: network_faults "kube_io env" "severed blocked" "\<lambda>s. pods_wf (k_pods s)"
  by unfold_locales (simp_all add: kube_io_def ready_kept disconnect_severs reconnect_heals)

context pod_firewall
begin

lemmas kube_faults_refine = faults.faults_refine [THEN conjunct1]

end

text \<open>
  The cluster in memory is such a cluster: what is blocked is computed from the commands that its
  monitors have executed.
\<close>

fun dropped :: "string list \<Rightarrow> string list" where
  "dropped (w1 # w2 # w3 # w4 # ip # w6 # w7 # rest) = ip # dropped (drop 1 rest)"
| "dropped _ = []"

definition firewall_step :: "execution \<Rightarrow> (string \<Rightarrow> string set) \<Rightarrow> string \<Rightarrow> string set" where
  "firewall_step e b =
     (case e of (p, c, cmd, stdin) \<Rightarrow>
        if c \<noteq> ContainerMonitorName then b
        else if cmd = [''iptables'', ''-F''] then b(p := {})
        else if take 2 cmd = [''/bin/sh'', ''-c''] then b(p := b p \<union> set (dropped (split_on (CHR '' '') (cmd ! 2))))
        else b)"

definition cluster_blocked :: "cluster \<Rightarrow> string \<Rightarrow> string set" where
  "cluster_blocked w = fold firewall_step (cl_execs w) (\<lambda>_. {})"

lemma join_two: "join sep (w # ws) = (if ws = [] then w else w @ sep @ join sep ws)"
  by (cases ws) simp_all

lemma dropped_script:
  "\<forall>ip \<in> set ips. CHR '' '' \<notin> set ip \<Longrightarrow> dropped (split_on (CHR '' '') (join '' && '' (map drop_command ips))) = ips"
  by (induction ips) (simp_all add: join_two drop_command_def split_on_append_sep split_on_absent)

interpretation memory_firewall: pod_firewall memory_cluster cluster_blocked
  by unfold_locales
    (auto simp: memory_cluster_def cluster_blocked_def firewall_step_def dropped_script)

section \<open>Properties\<close>

lemma drop_commands_unknown:
  "n \<in> set targets \<Longrightarrow> find_pod n pods = None \<Longrightarrow> \<exists>m. drop_commands pods targets = Inl (Msg m)"
  by (induction targets) (auto split: option.splits sum.splits)

lemma disconnect_unknown:
  assumes "n \<in> insert src (set targets)" and "find_pod n (k_pods s) = None"
  shows "\<exists>m. kube_disconnect env src targets s = (Return (Inl (Msg m)), s)"
proof (cases "drop_commands (k_pods s) targets")
  case (Inl err)
  then show ?thesis
    using drop_commands_unknown [of n targets "k_pods s"] assms
    by (induction targets arbitrary: err)
      (auto simp: kube_disconnect_def attempt_def split: option.splits sum.splits)
next
  case (Inr cmds)
  then have "n = src" using assms drop_commands_unknown [of n targets "k_pods s"] by auto
  then show ?thesis using assms(2) Inr by (simp add: kube_disconnect_def attempt_def with_pod_def)
qed

text \<open>
  C4: Partitions refine the abstract network. Whatever sequence of disconnections and reconnections a
  round makes through the engine, if none fails then the pairs of nodes that cannot reach each other are
  those of the abstract operations: a disconnection severs the source from every target, one way, and a
  reconnection heals every disconnection of its node. A name that no pod has is refused before anything
  is executed.
\<close>

theorem partitions_refine:
  assumes "pod_firewall env blocked" and "pods_wf (k_pods s)"
  shows "(for_calls (fault_call (kube_io env)) fs s = (Return (Inr ()), t)
      \<longrightarrow> severed blocked t = fold fault_step fs (severed blocked s))
    \<and> (n \<in> insert src (set targets) \<and> find_pod n (k_pods s) = None
      \<longrightarrow> (\<exists>m. kube_disconnect env src targets s = (Return (Inl (Msg m)), s)))"
  using pod_firewall.kube_faults_refine [OF assms] disconnect_unknown [of n src targets s env] by blast

text \<open>Three nodes of the cluster in memory; the first is cut off the others, healed, and the second cut off it.\<close>

definition three_pods :: "cluster kube" where
  "three_pods = (ks_engine two_node_strategy)
     \<lparr>k_pods := map (\<lambda>(n, ip). pod_of (''pod-'' @ n) n ip True) [(''a'', ''10.0.0.1''), (''b'', ''10.0.0.2''), (''c'', ''10.0.0.3'')]\<rparr>"

theorem partitions_refine_witness:
  "\<exists>t. for_calls (fault_call (kube_io memory_cluster)) [Sever ''a'' [''b'', ''c''], Heal ''a'', Sever ''b'' [''a'']] three_pods
      = (Return (Inr ()), t)
    \<and> severed cluster_blocked t = {(''b'', ''a'')}"
proof -
  let ?fs = "[Sever ''a'' [''b'', ''c''], Heal ''a'', Sever ''b'' [''a'']]"
  have pods: "k_pods three_pods = map (\<lambda>(n, ip). pod_of (''pod-'' @ n) n ip True)
      [(''a'', ''10.0.0.1''), (''b'', ''10.0.0.2''), (''c'', ''10.0.0.3'')]"
    by (simp add: three_pods_def)
  have wf: "pods_wf (k_pods three_pods)"
    unfolding pods pods_wf_def by (simp add: pod_of_def pod_label_def)
  have "fst (for_calls (fault_call (kube_io memory_cluster)) ?fs three_pods) = Return (Inr ())"
    by code_simp
  then obtain t where t: "for_calls (fault_call (kube_io memory_cluster)) ?fs three_pods = (Return (Inr ()), t)"
    by (cases "for_calls (fault_call (kube_io memory_cluster)) ?fs three_pods") auto
  have "cluster_blocked (k_world three_pods) = (\<lambda>_. {})"
    by (simp add: cluster_blocked_def three_pods_def two_node_strategy_def new_kube_strategy_def new_kube_engine_def
        with_topology_def with_image_def with_output_def initial_options_def Let_def)
  then have "severed cluster_blocked three_pods = {}" by (simp add: severed_def)
  moreover have "severed cluster_blocked t = fold fault_step ?fs (severed cluster_blocked three_pods)"
    using partitions_refine [OF memory_firewall.pod_firewall_axioms wf] t by blast
  ultimately have "severed cluster_blocked t = {(''b'', ''a'')}"
    by (auto simp: sever_def heal_def)
  with t show ?thesis by blast
qed

end
