(* ===== verification/Docker_Rounds.thy ===== *)
theory Docker_Rounds
  imports Sim_IO Docker
begin

text \<open>
  The \<open>sim.IO\<close> of the rounds of the Docker strategy (\<open>sim/docker/io.go\<close>): its operations over the
  client, on the statistics and the world that a round works on.
\<close>

section \<open>The interface of a round\<close>

text \<open>
  The calls of the client and of the file system. \<open>dc_stdin\<close> is the result of copying the standard
  input, \<open>dc_events\<close> are the events that are received after the command was started.
\<close>

record ('w, 'r) docker_client =
  dc_now :: "'w \<Rightarrow> int"
  dc_copy_from :: "string \<Rightarrow> string \<Rightarrow> ('w, 'r) call"
  dc_untar :: "'r \<Rightarrow> ('w, reader) call"
  dc_copy_to :: "string \<Rightarrow> string \<Rightarrow> string \<Rightarrow> ('w, unit) call"
  dc_exec_create :: "string \<Rightarrow> string list \<Rightarrow> ('w, string) call"
  dc_exec_attach :: "string \<Rightarrow> ('w, unit) call"
  dc_exec_start :: "string \<Rightarrow> ('w, unit) call"
  dc_stdin :: "reader \<Rightarrow> 'w \<Rightarrow> gerror option"
  dc_events :: "'w \<Rightarrow> docker_event list"
  dc_mkdir_all :: "string \<Rightarrow> ('w, unit) call"
  dc_create :: "string \<Rightarrow> ('w, unit) call"
  dc_encode :: "string \<Rightarrow> stats \<Rightarrow> ('w, unit) call"

definition on_client :: "('w, 'a) call \<Rightarrow> (stats \<times> 'w, 'a) call" where
  "on_client = focus snd (\<lambda>w (st, _). (st, w))"

text \<open>The content that is written ends with its error, if any.\<close>

definition written_content :: "reader \<Rightarrow> gerror + string" where
  "written_content c = (case snd c of Some err \<Rightarrow> Inl err | None \<Rightarrow> Inr (fst c))"

definition docker_io :: "('w, 'r) docker_client \<Rightarrow> (stats \<times> 'w) sim_io" where
  "docker_io c =
     \<lparr>io_tag = (\<lambda>name. update (\<lambda>(st, w). (dio_tag (dc_now c w) name st, w))),
      io_read = (\<lambda>container path. on_client (dio_read (dc_copy_from c container path) (dc_untar c))),
      io_write = (\<lambda>container path content. on_client (dio_write (written_content content) (dc_copy_to c container path))),
      io_exec = (\<lambda>container cmd stdin. on_client (\<lambda>w.
        dio_exec (dc_exec_create c container cmd) (dc_exec_attach c) (dc_exec_start c)
          (map_option (\<lambda>r. dc_stdin c r w) stdin) (dc_events c w) w)),
      io_disconnect = dio_disconnect,
      io_reconnect = dio_reconnect,
      io_fetch_stats = (\<lambda>from until file (st, w).
        on_client (dio_fetch_stats (dc_mkdir_all c) (dc_create c) (dc_encode c) file st) (st, w))\<rparr>"

text \<open>A round as the environment of the strategy sees it.\<close>

definition with_round :: "('w, 'r) docker_client \<Rightarrow> (stats \<times> 'w) sim_round \<Rightarrow> 'w docker_env \<Rightarrow> 'w docker_env" where
  "with_round c r env = env
     \<lparr>env_before := round_before r (docker_io c), env_execute := round_execute r (docker_io c),
      env_after := round_after r (docker_io c)\<rparr>"

text \<open>Only tags change the statistics: the series are left to the monitors.\<close>

lemma keeps_on_client: "keeps (\<lambda>(st, w). P st) (on_client m)"
  unfolding on_client_def by (rule keeps_focus) auto

interpretation docker_frame: io_frame "docker_io c" "\<lambda>(st, w). stats_nodes st = ns \<and> stats_timestamp st = ts" for c ns ts
  by unfold_locales
    (auto simp: docker_io_def dio_tag_def dio_disconnect_def dio_reconnect_def
      intro!: keeps_intros keeps_on_client [of "\<lambda>st. stats_nodes st = ns \<and> stats_timestamp st = ts", unfolded case_prod_unfold]
      simp: keeps_def on_client_def focus_def split: prod.splits)

section \<open>Faults\<close>

text \<open>The Docker strategy does not partition the network: faults succeed and change nothing.\<close>

lemma docker_faults: "for_calls (fault_call (docker_io c)) fs s = (Return (Inr ()), s)"
proof (induction fs)
  case (Cons f fs)
  then show ?case
    by (cases f) (simp_all add: docker_io_def dio_disconnect_def dio_reconnect_def attempt_def)
qed simp

end
