(* ===== verification/Examples.thy ===== *)
theory Examples
  imports Kube_IO Docker_Rounds
begin

text \<open>
  The four simulations that come with the library (\<open>examples/\<close>): an nginx server, a CockroachDB
  cluster, and two simulations of conodes. Their rounds are written over the interface \<open>sim.IO\<close>; the
  HTTP client, the clock, the conodes and the parsing of their configuration are parameters. What is only
  printed and the release of streams are left out.
\<close>

section \<open>strconv.ParseFloat\<close>

text \<open>
  The decimal syntax with an optional exponent; the forms that the inputs do not use, namely hexadecimal
  digits, underscores and the words for infinities and NaN, are refused here.
\<close>

definition parse_float :: "string \<Rightarrow> gerror + float64" where
  "parse_float s =
     (let neg = (s \<noteq> [] \<and> hd s = CHR ''-'');
          body = (if s \<noteq> [] \<and> (hd s = CHR ''-'' \<or> hd s = CHR ''+'') then tl s else s);
          mantissa = takeWhile (\<lambda>c. c \<noteq> CHR ''e'' \<and> c \<noteq> CHR ''E'') body;
          exponent = drop (length mantissa) body;
          whole = takeWhile (\<lambda>c. c \<noteq> CHR ''.'') mantissa;
          frac = drop (Suc (length whole)) mantissa;
          bad = Inl (NumErr s ''invalid syntax'')
      in if whole @ frac = [] then bad
         else case digits_value 0 (whole @ frac) of
           None \<Rightarrow> bad
         | Some n \<Rightarrow>
             (case (if exponent = [] then Inr 0 else atoi (tl exponent)) of
                Inl _ \<Rightarrow> bad
              | Inr e \<Rightarrow>
                  (case rnd ((if neg then -1 else 1) * of_nat n * 10 powi (e - int (length frac))) of
                     Fin x \<Rightarrow> Inr (Fin x)
                   | _ \<Rightarrow> Inl (NumErr s ''value out of range''))))"

section \<open>examples/nginx\<close>

definition world_latencies :: "string list" where
  "world_latencies =
     [''per-au tul-us 273.000000'', ''tul-us per-au 50.000000'', ''per-au sql-us 268.500000'',
      ''per-au ind-us 261.000000'', ''per-au san-us 255.000000'', ''per-au vie-at 246.000000'',
      ''per-au ham-de 334.500000'', ''per-au bhd-uk 330.000000'', ''per-au eug-us 362.250000'',
      ''per-au gva-ch 342.000000'', ''per-au cgh-br 306.750000'', ''per-au dac-bd 90.000000'',
      ''per-au arn-se 292.500000'', ''per-au cdg-fr 321.000000'', ''per-au krt-sd 418.500000'',
      ''per-au mdw-us 254.250000'', ''per-au lax3-us 216.000000'']"

text \<open>\<open>time.Duration(latency) * time.Millisecond\<close>: the fraction of the latency is dropped first.\<close>

definition parse_input :: "(float64 \<Rightarrow> int) \<Rightarrow> string \<Rightarrow> full_input outcome" where
  "parse_input ood input =
     (case split_on (CHR '' '') input of
        from # to # latency # _ \<Rightarrow>
          (case parse_float latency of
             Inl err \<Rightarrow> Panic (error_text err)
           | Inr l \<Rightarrow> Return \<lparr>fi_from = from, fi_to = to, fi_latency = wrap64 (f64_to_int ood l * 1000000)\<rparr>)
      | _ \<Rightarrow> Panic ''index out of range'')"

fun parse_inputs :: "(float64 \<Rightarrow> int) \<Rightarrow> string list \<Rightarrow> full_input list outcome" where
  "parse_inputs ood [] = Return []"
| "parse_inputs ood (x # xs) =
     obind (parse_input ood x) (\<lambda>i. obind (parse_inputs ood xs) (\<lambda>is. Return (i # is)))"

record 's web_env =
  web_get :: "string \<Rightarrow> ('s, reader) call"
  web_sleep :: "int \<Rightarrow> ('s, unit) call"
  web_now :: "('s, int) call"
  web_tmp :: string

definition nginx_before :: "'s sim_io \<Rightarrow> node_info list \<Rightarrow> ('s, unit) call" where
  "nginx_before io nodes =
     attempt (io_disconnect io ''per-au'' [''tul-us'', ''sql-us'', ''ind-us'']) (errorf ''couldn't disconnect'') (\<lambda>_.
     attempt (io_reconnect io ''per-au'') (errorf ''couldn't reconnect'') (\<lambda>_. give ()))"

definition nginx_visit :: "'s web_env \<Rightarrow> 's sim_io \<Rightarrow> node_info \<Rightarrow> ('s, unit) call" where
  "nginx_visit web io n =
     attempt (io_tag io (ni_name n)) (\<lambda>e. e) (\<lambda>_.
     attempt (web_get web (''http://'' @ ni_address n @ '':80'')) (\<lambda>e. e) (\<lambda>(content, err).
       case err of Some e \<Rightarrow> fail e | None \<Rightarrow> web_sleep web 2000000000))"

definition nginx_execute :: "'s web_env \<Rightarrow> 's sim_io \<Rightarrow> node_info list \<Rightarrow> ('s, unit) call" where
  "nginx_execute web io nodes =
     attempt (for_calls (nginx_visit web io) nodes) (\<lambda>e. e) (\<lambda>_.
     attempt (web_now web) (\<lambda>e. e) (\<lambda>t1.
     attempt (web_now web) (\<lambda>e. e) (\<lambda>t2.
     attempt (io_fetch_stats io (t1 - 5000000000) t2 (path_join [web_tmp web, ''simnet-nginx''])) (\<lambda>e. e) (\<lambda>_. give ()))))"

definition no_step :: "'s sim_io \<Rightarrow> node_info list \<Rightarrow> ('s, unit) call" where
  "no_step io nodes = give ()"

definition nginx_round :: "'s web_env \<Rightarrow> 's sim_round" where
  "nginx_round web = \<lparr>round_before = nginx_before, round_execute = nginx_execute web, round_after = no_step\<rparr>"

text \<open>The quantities are well formed, so \<open>WithResources\<close> does not panic.\<close>

definition nginx_options :: "full_input list \<Rightarrow> option_fun list" where
  "nginx_options inputs =
     [with_topology (Full (new_full_topology inputs)),
      with_image ''nginx'' [] [] [new_tcp 80],
      with_tmpfs ''/storage'' (256 * MB),
      (\<lambda>opts. case with_resources (\<lambda>_. True) ''20m'' ''64Mi'' opts of Return opts' \<Rightarrow> opts' | _ \<Rightarrow> opts)]"

text \<open>The end of every \<open>main\<close>: create the strategy, run it on the arguments, and panic on an error.\<close>

definition run_example ::
  "(option_fun list \<Rightarrow> gerror + 's) \<Rightarrow> 's strategy \<Rightarrow> string \<Rightarrow> string list \<Rightarrow> option_fun list \<Rightarrow> unit outcome \<times> 's option" where
  "run_example new st default_vpn args opts =
     (case new opts of
        Inl err \<Rightarrow> (Panic (error_text err), None)
      | Inr s \<Rightarrow>
          (case run default_vpn st args s of
             (Return (Inl err), t) \<Rightarrow> (Panic (error_text err), Some t)
           | (Return (Inr _), t) \<Rightarrow> (Return (), Some t)
           | (Panic p, t) \<Rightarrow> (Panic p, Some t)
           | (Blocked, t) \<Rightarrow> (Blocked, Some t)))"

definition nginx_main ::
  "(float64 \<Rightarrow> int) \<Rightarrow> (option_fun list \<Rightarrow> gerror + 's) \<Rightarrow> 's strategy \<Rightarrow> string \<Rightarrow> string list \<Rightarrow> unit outcome \<times> 's option" where
  "nginx_main ood new st default_vpn args =
     (case parse_inputs ood world_latencies of
        Return inputs \<Rightarrow> run_example new st default_vpn args (nginx_options inputs)
      | Panic p \<Rightarrow> (Panic p, None)
      | Blocked \<Rightarrow> (Blocked, None))"

section \<open>examples/cockroachdb\<close>

definition commandInit :: "string list" where
  "commandInit = [''./cockroach'', ''init'', ''--insecure'']"

definition commandWorkloadInit :: "string list" where
  "commandWorkloadInit = [''./cockroach'', ''workload'', ''init'', ''movr'', ''postgresql://root@node0:26257?sslmode=disable'']"

definition commandWorkloadRun :: "string list" where
  "commandWorkloadRun =
     [''./cockroach'', ''workload'', ''run'', ''movr'', ''--duration=10s'', ''postgresql://root@node0:26257?sslmode=disable'']"

definition cockroach_before :: "'s sim_io \<Rightarrow> node_info list \<Rightarrow> ('s, unit) call" where
  "cockroach_before io nodes =
     attempt (io_exec io ''node0'' commandInit None) (\<lambda>e. e) (\<lambda>_. give ())"

definition cockroach_execute :: "'s sim_io \<Rightarrow> node_info list \<Rightarrow> ('s, unit) call" where
  "cockroach_execute io nodes =
     attempt (io_tag io ''Init'') (\<lambda>e. e) (\<lambda>_.
     attempt (io_exec io ''node0'' commandWorkloadInit None) (\<lambda>e. e) (\<lambda>_.
     attempt (io_tag io ''Run'') (\<lambda>e. e) (\<lambda>_.
     attempt (io_exec io ''node0'' commandWorkloadRun None) (\<lambda>e. e) (\<lambda>_. give ()))))"

definition cockroach_round :: "'s sim_round" where
  "cockroach_round = \<lparr>round_before = cockroach_before, round_execute = cockroach_execute, round_after = no_step\<rparr>"

text \<open>The second argument of \<open>NewSimpleTopology\<close> is a duration: 25 nanoseconds.\<close>

definition cockroach_options :: "(float64 \<Rightarrow> int) \<Rightarrow> option_fun list" where
  "cockroach_options ood =
     [with_topology (Simple (new_simple_topology ood 3 25)),
      with_image ''cockroachdb/cockroach:v19.2.2'' [] [''start'', ''--insecure'', ''--join=node0,node1,node2''] []]"

definition cockroach_main ::
  "(float64 \<Rightarrow> int) \<Rightarrow> (option_fun list \<Rightarrow> gerror + 's) \<Rightarrow> 's strategy \<Rightarrow> string \<Rightarrow> string list \<Rightarrow> unit outcome \<times> 's option" where
  "cockroach_main ood new st default_vpn args = run_example new st default_vpn args (cockroach_options ood)"

section \<open>examples/status and examples/skipchain\<close>

text \<open>
  The conodes: decoding of a configuration, identities, rosters, and the two clients. A roster is built
  from identities by \<open>cn_roster\<close> and its list read by \<open>cn_list\<close>.
\<close>

record ('s, 'cfg, 'si, 'r, 'g) conode_env =
  cn_decode :: "reader \<Rightarrow> gerror + 'cfg"
  cn_identity :: "'cfg \<Rightarrow> gerror + 'si"
  cn_with_address :: "string \<Rightarrow> 'si \<Rightarrow> 'si"
  cn_roster :: "'si list \<Rightarrow> 'r"
  cn_list :: "'r \<Rightarrow> 'si list"
  cn_check :: "'si list \<Rightarrow> ('s, unit) call"
  cn_sleep :: "int \<Rightarrow> ('s, unit) call"
  sc_genesis :: "'r \<Rightarrow> ('s, 'g) call"
  sc_store :: "'g \<Rightarrow> 'r \<Rightarrow> string \<Rightarrow> ('s, unit) call"

definition make_server_identity :: "('s, 'cfg, 'si, 'r, 'g) conode_env \<Rightarrow> 'cfg \<Rightarrow> gerror + 'si" where
  "make_server_identity env cfg =
     (case cn_identity env cfg of Inl err \<Rightarrow> Inl err | Inr si \<Rightarrow> Inr si)"

text \<open>One round of the loop of \<open>readRoster\<close>; the two programs differ in how they wrap its errors.\<close>

definition read_identity ::
  "('s, 'cfg, 'si, 'r, 'g) conode_env \<Rightarrow> 's sim_io \<Rightarrow> (string \<Rightarrow> gerror \<Rightarrow> gerror) \<Rightarrow> node_info \<Rightarrow> ('s, 'si) call" where
  "read_identity env io wrap n =
     attempt (io_read io (ni_name n) ''/root/.config/conode/private.toml'') (wrap ''couldn't read file'') (\<lambda>r.
     attempt (of_result (cn_decode env r)) (wrap ''couldn't decode config'') (\<lambda>hc.
     attempt (of_result (make_server_identity env hc)) (wrap ''couldn't make identity'') (\<lambda>si.
     give (cn_with_address env (ni_address n @ '':7770'') si))))"

fun read_identities ::
  "('s, 'cfg, 'si, 'r, 'g) conode_env \<Rightarrow> 's sim_io \<Rightarrow> (string \<Rightarrow> gerror \<Rightarrow> gerror) \<Rightarrow> node_info list \<Rightarrow> ('s, 'si list) call" where
  "read_identities env io wrap [] = give []"
| "read_identities env io wrap (n # ns) =
     attempt (read_identity env io wrap n) (\<lambda>e. e) (\<lambda>si.
     attempt (read_identities env io wrap ns) (\<lambda>e. e) (\<lambda>sis. give (si # sis)))"

definition status_read_roster ::
  "('s, 'cfg, 'si, 'r, 'g) conode_env \<Rightarrow> 's sim_io \<Rightarrow> node_info list \<Rightarrow> ('s, 'r) call" where
  "status_read_roster env io nodes =
     attempt (read_identities env io errorf nodes) (\<lambda>e. e) (\<lambda>sis. give (cn_roster env sis))"

definition skipchain_read_roster ::
  "('s, 'cfg, 'si, 'r, 'g) conode_env \<Rightarrow> 's sim_io \<Rightarrow> node_info list \<Rightarrow> ('s, 'r) call" where
  "skipchain_read_roster env io nodes =
     attempt (read_identities env io (\<lambda>what e. e) nodes) (\<lambda>e. e) (\<lambda>sis. give (cn_roster env sis))"

text \<open>The roster with the \<open>i\<close>-th node first: \<open>append(append([node], list[:i]...), list[i+1:]...)\<close>.\<close>

definition rotated :: "'si list \<Rightarrow> nat \<Rightarrow> 'si list" where
  "rotated xs i = [xs ! i] @ take i xs @ drop (Suc i) xs"

definition check_node :: "('s, 'cfg, 'si, 'r, 'g) conode_env \<Rightarrow> 'si list \<Rightarrow> nat \<Rightarrow> ('s, unit) call" where
  "check_node env xs i =
     attempt (cn_check env (rotated xs i)) (errorf ''couldn't check connectivity'') (\<lambda>_. cn_sleep env 1000000000)"

definition status_execute :: "('s, 'cfg, 'si, 'r, 'g) conode_env \<Rightarrow> 's sim_io \<Rightarrow> node_info list \<Rightarrow> ('s, unit) call" where
  "status_execute env io nodes =
     attempt (status_read_roster env io nodes) (errorf ''couldn't read the roster'') (\<lambda>roster.
     for_calls (check_node env (cn_list env roster)) [0..<length (cn_list env roster)])"

definition status_round :: "('s, 'cfg, 'si, 'r, 'g) conode_env \<Rightarrow> 's sim_round" where
  "status_round env = \<lparr>round_before = no_step, round_execute = status_execute env, round_after = no_step\<rparr>"

definition conode_image :: option_fun where
  "conode_image =
     with_image ''dedis/conode:latest'' [''bash'', ''-c'']
       [''/root/conode setup --non-interactive --port 7770 && /root/conode -d 2 server''] [new_tcp 7771]"

definition status_options :: "(float64 \<Rightarrow> int) \<Rightarrow> option_fun list" where
  "status_options ood = [with_topology (Simple (new_simple_topology ood 3 25000000)), conode_image]"

definition status_main ::
  "(float64 \<Rightarrow> int) \<Rightarrow> (option_fun list \<Rightarrow> gerror + 's) \<Rightarrow> 's strategy \<Rightarrow> string \<Rightarrow> string list \<Rightarrow> unit outcome \<times> 's option" where
  "status_main ood new st default_vpn args = run_example new st default_vpn args (status_options ood)"

text \<open>\<open>binary.LittleEndian.PutUint64\<close>\<close>

definition le_bytes :: "uint64 \<Rightarrow> string" where
  "le_bytes w = map (\<lambda>k. char_of (unat (take_bit 8 (drop_bit (8 * k) w)))) [0..<8]"

definition skipchain_execute :: "('s, 'cfg, 'si, 'r, 'g) conode_env \<Rightarrow> 's sim_io \<Rightarrow> node_info list \<Rightarrow> ('s, unit) call" where
  "skipchain_execute env io nodes =
     attempt (skipchain_read_roster env io nodes) (errorf ''couldn't read roster'') (\<lambda>roster.
     attempt (sc_genesis env roster) (errorf ''couldn't create genesis'') (\<lambda>genesis.
     for_calls (\<lambda>i. attempt (sc_store env genesis roster (le_bytes (word_of_nat i))) (errorf ''couldn't store block'')
         (\<lambda>_. give ())) [0..<10]))"

definition skipchain_round :: "('s, 'cfg, 'si, 'r, 'g) conode_env \<Rightarrow> 's sim_round" where
  "skipchain_round env = \<lparr>round_before = no_step, round_execute = skipchain_execute env, round_after = no_step\<rparr>"

definition example_area :: "int \<Rightarrow> int \<Rightarrow> int \<Rightarrow> int \<Rightarrow> area" where
  "example_area n x y latency =
     \<lparr>area_n = n, area_latency = no_delay\<lparr>delay_value := latency\<rparr>, area_x = Fin (of_int x), area_y = Fin (of_int y),
      area_nodes = []\<rparr>"

definition skipchain_areas :: "area list" where
  "skipchain_areas = [example_area 3 0 0 25000000, example_area 4 50 0 25000000, example_area 4 0 50 0]"

definition skipchain_main ::
  "(float64 \<Rightarrow> int) \<Rightarrow> (nat \<Rightarrow> nat \<Rightarrow> node \<Rightarrow> node list \<Rightarrow> node list) \<Rightarrow> (option_fun list \<Rightarrow> gerror + 's) \<Rightarrow> 's strategy
     \<Rightarrow> string \<Rightarrow> string list \<Rightarrow> unit outcome \<times> 's option" where
  "skipchain_main ood ord new st default_vpn args =
     (case new_area_topology ood ord skipchain_areas of
        Return t \<Rightarrow> run_example new st default_vpn args [with_topology (Areas t), conode_image]
      | Panic p \<Rightarrow> (Panic p, None)
      | Blocked \<Rightarrow> (Blocked, None))"

section \<open>Latencies\<close>

abbreviation digits :: "string \<Rightarrow> bool" where
  "digits s \<equiv> \<forall>c \<in> set s. is_digit c"

lemma digits_value_digits:
  "digits s \<Longrightarrow> \<exists>v < 10 ^ length s. digits_value acc s = Some (acc * 10 ^ length s + v)"
proof (induction s arbitrary: acc)
  case (Cons c s)
  then obtain v where v: "v < 10 ^ length s"
      "digits_value (10 * acc + digit_value c) s = Some ((10 * acc + digit_value c) * 10 ^ length s + v)"
    by (metis list.set_intros(2))
  have "digit_value c < 10" using Cons.prems by (auto simp: digit_value_def is_digit_def)
  then have "(digit_value c + 1) * 10 ^ length s \<le> 10 * 10 ^ length s" by (intro mult_le_mono1) simp
  then have "digit_value c * 10 ^ length s + v < 10 * 10 ^ length s" using v(1) by (simp only: add_mult_distrib)
  then have "digit_value c * 10 ^ length s + v < 10 ^ length (c # s)" by simp
  moreover have "digits_value acc (c # s) = Some (acc * 10 ^ length (c # s) + (digit_value c * 10 ^ length s + v))"
    using v(2) Cons.prems by (simp add: algebra_simps)
  ultimately show ?case by blast
qed simp

lemma int_small: "ms < 2 ^ 32 \<Longrightarrow> int ms < 2 ^ 32"
proof -
  assume "ms < 2 ^ 32"
  then have "int ms < int (2 ^ 32)" by (simp only: of_nat_less_iff)
  then show ?thesis by simp
qed

text \<open>The rounded value of a decimal with at most six fractional digits has the same integer part.\<close>

lemma decimal_floor:
  assumes "ms < 2 ^ 32" and "k \<le> 6" and "v < 10 ^ k"
  shows "\<exists>x. rnd (of_nat (ms * 10 ^ k + v) * 10 powi (- int k)) = Fin x \<and> \<lfloor>x\<rfloor> = int ms"
proof -
  let ?q = "of_nat (ms * 10 ^ k + v) * 10 powi (- int k) :: rat"
  have q: "?q = of_nat ms + of_nat v / 10 ^ k"
    by (simp add: power_int_minus field_simps)
  have "Suc v \<le> 10 ^ k" using assms(3) by simp
  then have "(of_nat (Suc v) :: rat) \<le> of_nat (10 ^ k)" by (simp only: of_nat_le_iff)
  then have "of_nat v / 10 ^ k \<le> (10 ^ k - 1) / (10 ^ k :: rat)" by (simp add: field_simps)
  also have "\<dots> = 1 - 1 / 10 ^ k" by (simp add: field_simps)
  also have "\<dots> \<le> 1 - 1 / (10 ^ 6 :: rat)"
  proof -
    have "(10 :: rat) ^ k \<le> 10 ^ 6" using assms(2) by (intro power_increasing) simp_all
    then show ?thesis by (simp add: field_simps)
  qed
  also have "\<dots> \<le> 1 - pow2 (- 20)" by (simp add: power_int_minus)
  finally have fr: "of_nat v / 10 ^ k \<le> 1 - pow2 (- 20)" .
  let ?y = "of_int (int ms * 2 ^ 20 + 2 ^ 20 - 1) * pow2 (- 20)"
  have y: "?y = of_nat ms + 1 - pow2 (- 20)"
    by (simp add: power_int_minus field_simps)
  have ms: "int ms < 2 ^ 32" using assms(1) by (rule int_small)
  then have ey: "rnd_rat ?y = ?y" by (intro rnd_rat_exact [OF refl]) simp_all
  have em: "rnd_rat (of_nat ms) = of_nat ms" using rnd_rat_int [of "int ms"] ms by simp
  have low: "of_nat ms \<le> rnd_rat ?q" by (rule rnd_rat_ge [OF em]) (simp only: q, simp)
  have "?q \<le> ?y" unfolding q y using fr by simp
  then have "rnd_rat ?q \<le> ?y" using ey by (intro rnd_rat_le) simp_all
  then have up: "rnd_rat ?q < of_nat ms + 1" unfolding y by (rule le_less_trans) simp
  have "(of_nat ms :: rat) < of_nat (2 ^ 32)" using assms(1) by (simp only: of_nat_less_iff)
  then have "(of_nat ms :: rat) + 1 \<le> pow2 33" by simp
  moreover have "0 \<le> ?q" unfolding q by simp
  moreover have "?q \<le> of_nat ms + 1" using assms(3) unfolding q by simp
  ultimately have "\<bar>?q\<bar> \<le> pow2 33" by linarith
  also have "\<dots> \<le> pow2 1000" by (subst pow2_le_iff) simp
  finally have "rnd ?q = Fin (rnd_rat ?q)" by (rule rnd_bounded)
  moreover have "\<lfloor>rnd_rat ?q\<rfloor> = int ms" using low up by (simp add: floor_eq_iff)
  ultimately show ?thesis by blast
qed

lemma takeWhile_digits: "digits s \<Longrightarrow> \<not> is_digit d \<Longrightarrow> takeWhile (\<lambda>c. c \<noteq> d) (s @ d # t) = s"
  by (induction s) auto

lemma parse_float_decimal:
  assumes "ms < 2 ^ 32" and "digits fr" and "length fr \<le> 6"
  shows "\<exists>x. parse_float (show_nat ms @ ''.'' @ fr) = Inr (Fin x) \<and> \<lfloor>x\<rfloor> = int ms"
proof -
  define s where "s = show_nat ms @ CHR ''.'' # fr"
  have nd: "digits (show_nat ms)" using show_nat_digits by blast
  have special: "\<not> is_digit CHR ''-''" "\<not> is_digit CHR ''+''" "\<not> is_digit CHR ''.''" "\<not> is_digit CHR ''e''" "\<not> is_digit CHR ''E''"
    by (simp_all add: is_digit_def)
  have sign: "hd s \<noteq> CHR ''-''" "hd s \<noteq> CHR ''+''"
    unfolding s_def using nd special by (cases "show_nat ms"; auto)+
  have mantissa: "takeWhile (\<lambda>c. c \<noteq> CHR ''e'' \<and> c \<noteq> CHR ''E'') s = s"
    unfolding s_def takeWhile_eq_all_conv using nd special assms(2) by auto
  have whole: "takeWhile (\<lambda>c. c \<noteq> CHR ''.'') s = show_nat ms"
    unfolding s_def using nd special by (intro takeWhile_digits) simp_all
  have rest: "drop (Suc (length (show_nat ms))) s = fr" by (simp add: s_def)
  obtain v where v: "v < 10 ^ length fr" "digits_value 0 (show_nat ms @ fr) = Some (ms * 10 ^ length fr + v)"
    using digits_value_digits [OF assms(2), of ms] by (auto simp: digits_value_append digits_value_show_nat)
  obtain x where x: "rnd (of_nat (ms * 10 ^ length fr + v) * 10 powi (- int (length fr))) = Fin x" "\<lfloor>x\<rfloor> = int ms"
    using decimal_floor [OF assms(1,3) v(1)] by blast
  have "parse_float s = Inr (Fin x)"
    using sign by (simp add: parse_float_def Let_def mantissa whole rest v(2) x(1) del: of_nat_add of_nat_mult)
  then show ?thesis using x(2) by (simp add: s_def)
qed

type_synonym latency_input = "string \<times> string \<times> nat \<times> string"

definition input_line :: "latency_input \<Rightarrow> string" where
  "input_line = (\<lambda>(from, to, ms, fr). from @ '' '' @ to @ '' '' @ show_nat ms @ ''.'' @ fr)"

definition input_ok :: "latency_input \<Rightarrow> bool" where
  "input_ok = (\<lambda>(from, to, ms, fr). CHR '' '' \<notin> set from \<and> CHR '' '' \<notin> set to \<and> ms < 2 ^ 32
     \<and> digits fr \<and> length fr \<le> 6)"

lemma parse_input_line:
  assumes "input_ok (from, to, ms, fr)"
  shows "parse_input ood (input_line (from, to, ms, fr)) = Return \<lparr>fi_from = from, fi_to = to, fi_latency = int ms * 1000000\<rparr>"
proof -
  have ok: "ms < 2 ^ 32" "digits fr" "length fr \<le> 6" and names: "CHR '' '' \<notin> set from" "CHR '' '' \<notin> set to"
    using assms by (simp_all add: input_ok_def)
  obtain x where x: "parse_float (show_nat ms @ ''.'' @ fr) = Inr (Fin x)" "\<lfloor>x\<rfloor> = int ms"
    using parse_float_decimal [OF ok] by blast
  then have "0 \<le> x" by linarith
  have "int ms < 2 ^ 32" using ok(1) by (rule int_small)
  then have "in_int64 (int ms)" "in_int64 (int ms * 1000000)" by (simp_all add: in_int64_def)
  then have "wrap64 (f64_to_int ood (Fin x) * 1000000) = int ms * 1000000"
    using x(2) \<open>0 \<le> x\<close> by (simp add: trunc_rat_def wrap64_id)
  moreover have "CHR '' '' \<notin> set (show_nat ms @ ''.'' @ fr)"
    using ok(2) by (auto simp: is_digit_def dest: show_nat_digits)
  then have "split_on (CHR '' '') (input_line (from, to, ms, fr)) = [from, to, show_nat ms @ ''.'' @ fr]"
    using names by (simp add: input_line_def split_on_append_sep split_on_absent)
  ultimately show ?thesis using x(1) by (simp add: parse_input_def)
qed

section \<open>Properties\<close>

text \<open>
  C25: The latencies of the nginx example lose their fraction: a line with a latency of \<open>ms\<close>
  milliseconds and any fraction of up to six digits becomes a link of exactly \<open>ms\<close> milliseconds, since
  the number is converted to a duration before it is multiplied; names are kept as they are.
\<close>

theorem parse_inputs_whole:
  assumes "\<forall>x \<in> set xs. input_ok x"
  shows "parse_inputs ood (map input_line xs) =
    Return (map (\<lambda>(from, to, ms, fr). \<lparr>fi_from = from, fi_to = to, fi_latency = int ms * 1000000\<rparr>) xs)"
  using assms
  by (induction xs) (auto simp: parse_input_line split: prod.splits)

theorem parse_inputs_whole_witness:
  "parse_inputs (\<lambda>_. 0) [''per-au sql-us 268.500000'', ''per-au ind-us 261.000000'']
   = Return [\<lparr>fi_from = ''per-au'', fi_to = ''sql-us'', fi_latency = 268000000\<rparr>,
       \<lparr>fi_from = ''per-au'', fi_to = ''ind-us'', fi_latency = 261000000\<rparr>]"
proof -
  have n: "show_nat 268 = ''268''" "show_nat 261 = ''261''" by (simp_all add: show_nat.simps)
  show ?thesis
    using parse_inputs_whole [of "[(''per-au'', ''sql-us'', 268, ''500000''), (''per-au'', ''ind-us'', 261, ''000000'')]" "\<lambda>_. 0"]
    by (simp add: input_ok_def input_line_def n is_digit_def)
qed

text \<open>
  The nginx example cuts a node off and heals it before the simulation: on every implementation of
  the network contract its first step, when it succeeds, leaves exactly the pairs severed that were
  severed before and do not start at that node, whatever the targets.
\<close>

theorem nginx_before_heals:
  assumes "network_faults io net ready" and "ready s" and "nginx_before io nodes s = (Return (Inr ()), t)"
  shows "net t = net s - {''per-au''} \<times> UNIV"
proof -
  have "for_calls (fault_call io) [Sever ''per-au'' [''tul-us'', ''sql-us'', ''ind-us''], Heal ''per-au''] s = (Return (Inr ()), t)"
    using assms(3) by (auto simp: nginx_before_def elim!: attempt_valueE)
  from network_faults.faults_refine [OF assms(1,2) this] show ?thesis
    by (auto simp: sever_def heal_def)
qed

definition world_pods :: "cluster kube" where
  "world_pods = (ks_engine two_node_strategy)
     \<lparr>k_pods := map (\<lambda>(n, ip). pod_of (''pod-'' @ n) n ip True)
        [(''per-au'', ''10.0.0.1''), (''tul-us'', ''10.0.0.2''), (''sql-us'', ''10.0.0.3''), (''ind-us'', ''10.0.0.4'')]\<rparr>"

theorem nginx_before_heals_witness:
  "\<exists>t. nginx_before (kube_io memory_cluster) [] world_pods = (Return (Inr ()), t)
     \<and> severed cluster_blocked t = severed cluster_blocked world_pods - {''per-au''} \<times> UNIV"
proof -
  have "fst (nginx_before (kube_io memory_cluster) [] world_pods) = Return (Inr ())"
    by code_simp
  then obtain t where t: "nginx_before (kube_io memory_cluster) [] world_pods = (Return (Inr ()), t)"
    by (cases "nginx_before (kube_io memory_cluster) [] world_pods") auto
  have wf: "pods_wf (k_pods world_pods)"
    by (simp add: world_pods_def pods_wf_def pod_of_def pod_label_def)
  from nginx_before_heals [OF memory_firewall.faults.network_faults_axioms wf t] t show ?thesis
    by blast
qed

text \<open>
  C2: The CockroachDB example over the Kubernetes engine: when its main step succeeds, the application
  container of the pod of \<open>node0\<close> has executed exactly two commands more, first the initialisation of
  the workload, then its run, and the two phases are tagged in this order.
\<close>

theorem cockroach_executes:
  assumes "kube_executor env execs" and "cockroach_execute (kube_io env) nodes s = (Return (Inr ()), t)"
  shows "\<exists>p t1 t2. find_pod ''node0'' (k_pods s) = Some p
    \<and> execs (k_world t) = execs (k_world s) @ [(pod_name p, ContainerAppName, commandWorkloadInit, None),
        (pod_name p, ContainerAppName, commandWorkloadRun, None)]
    \<and> k_tags t = AList.update t2 ''Run'' (AList.update t1 ''Init'' (k_tags s)) \<and> t1 = ke_now env (k_world s)"
proof -
  let ?s1 = "s\<lparr>k_tags := AList.update (ke_now env (k_world s)) ''Init'' (k_tags s)\<rparr>"
  obtain s2 where s2: "kube_exec env ''node0'' commandWorkloadInit None ?s1 = (Return (Inr ()), s2)"
      and t: "kube_exec env ''node0'' commandWorkloadRun None
        (s2\<lparr>k_tags := AList.update (ke_now env (k_world s2)) ''Run'' (k_tags s2)\<rparr>) = (Return (Inr ()), t)"
    using assms(2) by (auto simp: cockroach_execute_def kube_io_def kube_tag_def elim!: attempt_valueE)
  have exec: "\<exists>p. find_pod n (k_pods u) = Some p \<and> execs (k_world v) = execs (k_world u) @ [(pod_name p, ContainerAppName, cmd, None)]
      \<and> k_pods v = k_pods u \<and> k_tags v = k_tags u"
    if ex: "kube_exec env n cmd None u = (Return (Inr ()), v)" for n cmd u v
  proof -
    obtain p where p: "find_pod n (k_pods u) = Some p"
        and "attempt (on_cluster (kio_exec env (pod_name p) ContainerAppName cmd None)) (errorf ''couldn't open stream'')
          (\<lambda>_. give ()) u = (Return (Inr ()), v)"
      using ex unfolding kube_exec_def by (rule with_pod_success)
    then have "on_cluster (kio_exec env (pod_name p) ContainerAppName cmd None) u = (Return (Inr ()), v)"
      by (auto elim: attempt_valueE)
    then obtain w where w: "v = u\<lparr>k_world := w\<rparr>"
        and "kio_exec env (pod_name p) ContainerAppName cmd None (k_world u) = (Return (Inr ()), w)"
      by (auto simp: on_cluster_def focus_result)
    then show ?thesis using p kube_executor.exec_succeeds [OF assms(1)] by auto
  qed
  from exec [OF s2] exec [OF t] show ?thesis by auto
qed

theorem cockroach_executes_witness:
  "\<exists>t. cockroach_execute (kube_io memory_cluster) []
       ((ks_engine two_node_strategy)\<lparr>k_pods := [pod_of ''p0'' ''node0'' ''10.0.0.1'' True]\<rparr>) = (Return (Inr ()), t)
     \<and> cl_execs (k_world t) = [(''p0'', ''app'', commandWorkloadInit, None), (''p0'', ''app'', commandWorkloadRun, None)]"
proof -
  let ?s = "(ks_engine two_node_strategy)\<lparr>k_pods := [pod_of ''p0'' ''node0'' ''10.0.0.1'' True]\<rparr>"
  have "fst (cockroach_execute (kube_io memory_cluster) [] ?s) = Return (Inr ())"
    by code_simp
  then obtain t where t: "cockroach_execute (kube_io memory_cluster) [] ?s = (Return (Inr ()), t)"
    by (cases "cockroach_execute (kube_io memory_cluster) [] ?s") auto
  have "find_pod ''node0'' (k_pods ?s) = Some (pod_of ''p0'' ''node0'' ''10.0.0.1'' True)"
    by (simp add: find_pod_def pod_of_def pod_label_def)
  moreover have "cl_execs (k_world ?s) = []" by code_simp
  ultimately show ?thesis
    using cockroach_executes [OF memory_executor.kube_executor_axioms t] t
    by (auto simp: pod_of_def ContainerAppName_def)
qed

lemma read_identities_spec:
  "read_identities env io wrap nodes s = (Return (Inr ids), t) \<Longrightarrow>
     list_all2 (\<lambda>n si. \<exists>si'. si = cn_with_address env (ni_address n @ '':7770'') si') nodes ids"
proof (induction nodes arbitrary: s ids)
  case (Cons n ns)
  then obtain si sis u where "read_identity env io wrap n s = (Return (Inr si), u)"
      and "read_identities env io wrap ns u = (Return (Inr sis), t)" and ids: "ids = si # sis"
    by (auto elim!: attempt_valueE)
  moreover from this(1) have "\<exists>si'. si = cn_with_address env (ni_address n @ '':7770'') si'"
    unfolding read_identity_def by (auto elim!: attempt_valueE)
  ultimately show ?case using Cons.IH by auto
qed simp

lemma for_calls_map: "for_calls f (map g xs) = for_calls (f \<circ> g) xs"
  by (induction xs) simp_all

lemma mset_rotated: "i < length xs \<Longrightarrow> mset (rotated xs i) = mset xs"
  unfolding rotated_def by (metis Cons_nth_drop_Suc append.left_neutral append_Cons append_take_drop_id mset.simps(2) mset_append
      union_mset_add_mset_right)

text \<open>
  C24: The status example: when it succeeds it has read the identity of every node, in order, with the
  node's own address and the public port, and then asked for as many connectivity checks, in order, as
  there are identities; the i-th check has the i-th identity first, and its roster is a rearrangement
  of all of them.
\<close>

theorem status_checks_every_node:
  assumes "\<forall>xs. cn_list env (cn_roster env xs) = xs" and "status_execute env io nodes s = (Return (Inr ()), t)"
  shows "\<exists>ids u rosters. read_identities env io errorf nodes s = (Return (Inr ids), u)
    \<and> list_all2 (\<lambda>n si. \<exists>si'. si = cn_with_address env (ni_address n @ '':7770'') si') nodes ids
    \<and> map hd rosters = ids \<and> (\<forall>r \<in> set rosters. mset r = mset ids)
    \<and> for_calls (\<lambda>r. attempt (cn_check env r) (errorf ''couldn't check connectivity'') (\<lambda>_. cn_sleep env 1000000000)) rosters u
      = (Return (Inr ()), t)"
proof -
  obtain ids u where ids: "read_identities env io errorf nodes s = (Return (Inr ids), u)"
      and rest: "for_calls (check_node env ids) [0..<length ids] u = (Return (Inr ()), t)"
    using assms by (auto simp: status_execute_def status_read_roster_def elim!: attempt_valueE)
  let ?check = "\<lambda>r. attempt (cn_check env r) (errorf ''couldn't check connectivity'') (\<lambda>_. cn_sleep env 1000000000)"
  have "check_node env ids = ?check \<circ> rotated ids"
    by (rule ext) (simp only: check_node_def comp_apply)
  then have "for_calls ?check (map (rotated ids) [0..<length ids]) u = (Return (Inr ()), t)"
    using rest by (simp only: for_calls_map)
  moreover have "map hd (map (rotated ids) [0..<length ids]) = ids"
    by (rule nth_equalityI) (simp_all add: rotated_def)
  moreover have "\<forall>r \<in> set (map (rotated ids) [0..<length ids]). mset r = mset ids"
    by (auto simp: mset_rotated)
  ultimately show ?thesis using ids read_identities_spec [OF ids] by blast
qed

text \<open>Conodes whose identity is their address, and checks that are recorded.\<close>

definition two_conodes :: "(string list list, string, string, string list, unit) conode_env" where
  "two_conodes =
     \<lparr>cn_decode = (\<lambda>(content, err). case err of Some e \<Rightarrow> Inl e | None \<Rightarrow> Inr content), cn_identity = Inr,
      cn_with_address = (\<lambda>a si. a), cn_roster = (\<lambda>xs. xs), cn_list = (\<lambda>xs. xs), cn_check = (\<lambda>ro. update (\<lambda>s. s @ [ro])),
      cn_sleep = (\<lambda>d. give ()), sc_genesis = (\<lambda>ro. give ()), sc_store = (\<lambda>g ro data. update (\<lambda>s. s @ [[data]]))\<rparr>"

definition quiet_io :: "'s sim_io" where
  "quiet_io =
     \<lparr>io_tag = (\<lambda>name. give ()), io_read = (\<lambda>node path. give (path, None)), io_write = (\<lambda>node path content. give ()),
      io_exec = (\<lambda>node cmd stdin. give ()), io_disconnect = (\<lambda>src targets. give ()), io_reconnect = (\<lambda>node. give ()),
      io_fetch_stats = (\<lambda>from until file. give ())\<rparr>"

theorem status_checks_every_node_witness:
  "\<exists>(ids :: string list) rosters. status_execute two_conodes quiet_io [\<lparr>ni_name = ''n0'', ni_address = ''10.0.0.1''\<rparr>, \<lparr>ni_name = ''n1'', ni_address = ''10.0.0.2''\<rparr>] []
      = (Return (Inr ()), [[''10.0.0.1:7770'', ''10.0.0.2:7770''], [''10.0.0.2:7770'', ''10.0.0.1:7770'']])
    \<and> map hd rosters = ids \<and> (\<forall>r \<in> set rosters. mset r = mset ids) \<and> length ids = 2"
proof -
  let ?nodes = "[\<lparr>ni_name = ''n0'', ni_address = ''10.0.0.1''\<rparr>, \<lparr>ni_name = ''n1'', ni_address = ''10.0.0.2''\<rparr>]"
  have run: "status_execute two_conodes quiet_io ?nodes []
      = (Return (Inr ()), [[''10.0.0.1:7770'', ''10.0.0.2:7770''], [''10.0.0.2:7770'', ''10.0.0.1:7770'']])"
    by code_simp
  have list: "\<forall>xs. cn_list two_conodes (cn_roster two_conodes xs) = xs" by (simp add: two_conodes_def)
  from status_checks_every_node [OF list run] obtain ids rosters where
      ids: "list_all2 (\<lambda>n si. \<exists>si'. si = cn_with_address two_conodes (ni_address n @ '':7770'') si') ?nodes ids"
      and heads: "map hd rosters = ids" and all: "\<forall>r \<in> set rosters. mset r = mset ids"
    by blast
  have "length ids = 2" using ids by (auto dest: list_all2_lengthD)
  show ?thesis
    by (rule exI [of _ ids], rule exI [of _ rosters]) (intro conjI run heads all \<open>length ids = 2\<close>)
qed

text \<open>The blocks of the skipchain example are pairwise different and decode to their numbers.\<close>

fun le_value :: "string \<Rightarrow> nat" where
  "le_value [] = 0"
| "le_value (c # cs) = of_char c + 256 * le_value cs"

lemma le_value_bytes: "le_value (map (\<lambda>k. char_of (take_bit 8 (drop_bit (8 * k) m) :: nat)) [0..<n]) = take_bit (8 * n) m"
proof (induction n arbitrary: m)
  case (Suc n)
  have "map (\<lambda>k. char_of (take_bit 8 (drop_bit (8 * k) m)) :: char) [0..<Suc n]
      = char_of (take_bit 8 m) # map (\<lambda>k. char_of (take_bit 8 (drop_bit (8 * k) (drop_bit 8 m)))) [0..<n]"
    by (simp add: upt_conv_Cons map_Suc_upt [symmetric] drop_bit_drop_bit add.commute del: upt_Suc)
  then have "le_value (map (\<lambda>k. char_of (take_bit 8 (drop_bit (8 * k) m)) :: char) [0..<Suc n])
      = take_bit 8 m + 256 * take_bit (8 * n) (drop_bit 8 m)"
    by (simp only: le_value.simps Suc.IH) (simp add: of_char_of take_bit_eq_mod)
  also have "\<dots> = take_bit (8 * Suc n) m"
    by (simp add: take_bit_eq_mod drop_bit_eq_div mod_mult2_eq power_add)
  finally show ?case .
qed simp

lemma le_bytes_value: "le_value (le_bytes w) = unat w"
proof -
  have w: "take_bit 64 (unat w) = unat w" by (simp add: take_bit_nat_eq_self)
  have "le_bytes w = map (\<lambda>k. char_of (take_bit 8 (drop_bit (8 * k) (unat w)) :: nat)) [0..<8]"
    by (simp add: le_bytes_def unsigned_take_bit_eq unsigned_drop_bit_eq w)
  then show ?thesis
    by (simp add: le_value_bytes w del: upt_rec_numeral)
qed

text \<open>
  C23: The skipchain example: when it succeeds it has read one identity per node, made one genesis block
  for their roster, and then stored ten blocks of eight bytes on it, which decode to the numbers from 0
  to 9 in this order.
\<close>

theorem skipchain_stores_ten_blocks:
  assumes "skipchain_execute env io nodes s = (Return (Inr ()), t)"
  shows "\<exists>ids genesis u v blocks. read_identities env io (\<lambda>_ e. e) nodes s = (Return (Inr ids), u) \<and> length ids = length nodes
    \<and> sc_genesis env (cn_roster env ids) u = (Return (Inr genesis), v)
    \<and> map le_value blocks = [0..<10] \<and> (\<forall>b \<in> set blocks. length b = 8)
    \<and> for_calls (\<lambda>b. attempt (sc_store env genesis (cn_roster env ids) b) (errorf ''couldn't store block'') (\<lambda>_. give ())) blocks v
      = (Return (Inr ()), t)"
proof -
  obtain ids u genesis v where ids: "read_identities env io (\<lambda>_ e. e) nodes s = (Return (Inr ids), u)"
      and genesis: "sc_genesis env (cn_roster env ids) u = (Return (Inr genesis), v)"
      and rest: "for_calls (\<lambda>i. attempt (sc_store env genesis (cn_roster env ids) (le_bytes (word_of_nat i)))
        (errorf ''couldn't store block'') (\<lambda>_. give ())) [0..<10] v = (Return (Inr ()), t)"
    using assms by (auto simp: skipchain_execute_def skipchain_read_roster_def elim!: attempt_valueE)
  let ?blocks = "map (\<lambda>i. le_bytes (word_of_nat i)) [0..<10]"
  have "map le_value ?blocks = [0..<10]"
    by (rule nth_equalityI) (simp_all add: le_bytes_value unat_of_nat del: upt_rec_numeral)
  moreover have "\<forall>b \<in> set ?blocks. length b = 8" by (simp add: le_bytes_def)
  moreover have "length ids = length nodes" using read_identities_spec [OF ids] by (auto dest: list_all2_lengthD)
  ultimately show ?thesis
    using ids genesis rest by (intro exI conjI) (auto simp only: for_calls_map comp_def)
qed

theorem skipchain_stores_ten_blocks_witness:
  "\<exists>t blocks. skipchain_execute two_conodes quiet_io [\<lparr>ni_name = ''n0'', ni_address = ''10.0.0.1''\<rparr>] [] = (Return (Inr ()), t)
     \<and> map le_value blocks = [0..<10]"
proof -
  let ?run = "skipchain_execute two_conodes quiet_io [\<lparr>ni_name = ''n0'', ni_address = ''10.0.0.1''\<rparr>] []"
  have "fst ?run = Return (Inr ())" by code_simp
  then obtain t where t: "?run = (Return (Inr ()), t)" by (cases ?run) auto
  from skipchain_stores_ten_blocks [OF t] obtain blocks :: "string list" where "map le_value blocks = [0..<10]"
    by blast
  with t show ?thesis by (intro exI conjI)
qed

end
