(* ===== verification/Kube_Stats.thy ===== *)
theory Kube_Stats
  imports Kube_IO Monitor "HOL-Library.Sublist"
begin

text \<open>
  From the monitors to the file of statistics: what the Kubernetes strategy writes after a round, for
  which window of time, and what becomes of a pod whose data cannot be read. The locale
  \<open>kube_recorder\<close> states how the data files of the monitors are read and the statistics saved.
\<close>

section \<open>Saved statistics\<close>

text \<open>The series of the measures of a window.\<close>

definition measured_between :: "int \<Rightarrow> int \<Rightarrow> measure list \<Rightarrow> node_stats" where
  "measured_between start done xs =
     (let kept = filter (\<lambda>(ts, _). start \<le> ts \<and> ts \<le> done) xs in
      \<lparr>ns_timestamps = map (\<lambda>(ts, rx, tx, cpu, mem). ts) kept,
       ns_rx = map (\<lambda>(ts, rx, tx, cpu, mem). rx) kept,
       ns_tx = map (\<lambda>(ts, rx, tx, cpu, mem). tx) kept,
       ns_cpu = map (\<lambda>(ts, rx, tx, cpu, mem). word_of_int cpu) kept,
       ns_memory = map (\<lambda>(ts, rx, tx, cpu, mem). mem) kept\<rparr>)"

definition data_file :: "measure list \<Rightarrow> string" where
  "data_file xs = concat (map (\<lambda>x. put_measure x @ [newline]) xs)"

lemma read_data_file: "\<forall>x \<in> set xs. measure_ok x \<Longrightarrow> new_node_stats (data_file xs) start done = measured_between start done xs"
  unfolding data_file_def measured_between_def Let_def by (rule measures_read)

text \<open>
  The data files of the pods read one after the other from the world \<open>w\<close> to \<open>w'\<close>: the world at
  which each is read, what it yields, the error it ends with, and the world after it.
\<close>

type_synonym 'w reading = "'w \<times> string \<times> gerror option \<times> 'w"

fun pods_read :: "'w kube_env \<Rightarrow> pod list \<Rightarrow> 'w \<Rightarrow> 'w reading list \<Rightarrow> 'w \<Rightarrow> bool" where
  "pods_read env (p # ps) w ((v, content, err, v') # rs) w' \<longleftrightarrow>
     v = w \<and> kio_read env (pod_name p) ContainerMonitorName MonitorDataFilepath v = (Return (Inr (content, err)), v')
     \<and> pods_read env ps v' rs w'"
| "pods_read env ps w rs w' \<longleftrightarrow> ps = [] \<and> rs = [] \<and> w' = w"

text \<open>
  The series of a pod are those of what was read. If the reading ended without an error they are
  those of all the measures that the monitor had recorded when it began, and perhaps of some that were
  recorded during the reading.
\<close>

definition series_read :: "('w \<Rightarrow> string \<Rightarrow> measure list) \<Rightarrow> int \<Rightarrow> int \<Rightarrow> string \<Rightarrow> 'w reading \<Rightarrow> node_stats \<Rightarrow> bool" where
  "series_read recorded start done p r ns \<longleftrightarrow>
     (case r of (v, content, err, v') \<Rightarrow>
        ns = new_node_stats content start done
        \<and> (err = None \<longrightarrow> (\<exists>xs. prefix (recorded v p) xs \<and> prefix xs (recorded v' p) \<and> ns = measured_between start done xs)))"

text \<open>
  The laws: \<open>recorded w p\<close> are the measures in the data file of the pod, to which the monitor only
  appends; reading the file may fail, after any content. \<open>saved w\<close> are the files of statistics.
\<close>

locale kube_recorder =
  fixes env :: "'w kube_env" and recorded :: "'w \<Rightarrow> string \<Rightarrow> measure list" and saved :: "'w \<Rightarrow> (string \<times> stats) list"
  assumes executor: "ke_executor env p c cmd w = (made, w') \<Longrightarrow> saved w' = saved w \<and> prefix (recorded w p) (recorded w' p)"
    and read: "ke_stream env p ContainerMonitorName [''cat'', MonitorDataFilepath] None w = (Return (out, errs, e), w') \<Longrightarrow>
      saved w' = saved w
      \<and> (e = None \<longrightarrow> (\<exists>xs. prefix (recorded w p) xs \<and> prefix xs (recorded w' p) \<and> out = data_file xs))"
    and measured: "x \<in> set (recorded w p) \<Longrightarrow> measure_ok x"
    and create: "ke_create_file env f w = (made, w') \<Longrightarrow> saved w' = saved w"
    and encode: "ke_encode_stats env f st w = (Return (Inr ()), w') \<Longrightarrow> saved w' = saved w @ [(f, st)]"
begin

lemma read_pod:
  assumes "read_pod_stats env p start done s = (Return (Inr ns), t)"
  obtains content err where
    "kio_read env p ContainerMonitorName MonitorDataFilepath (k_world s) = (Return (Inr (content, err)), k_world t)"
    and "t = s\<lparr>k_world := k_world t\<rparr>" and "saved (k_world t) = saved (k_world s)"
    and "series_read recorded start done p (k_world s, content, err, k_world t) ns"
proof -
  obtain content err w where w: "kio_read env p ContainerMonitorName MonitorDataFilepath (k_world s) = (Return (Inr (content, err)), w)"
      and t: "t = s\<lparr>k_world := w\<rparr>" and ns: "ns = new_node_stats content start done"
    using assms by (auto simp: read_pod_stats_def on_cluster_def focus_result elim!: attempt_valueE)
  obtain w1 errs e where w1: "ke_executor env p ContainerMonitorName [''cat'', MonitorDataFilepath] (k_world s) = (Return (Inr ()), w1)"
      and stream: "ke_stream env p ContainerMonitorName [''cat'', MonitorDataFilepath] None w1 = (Return (content, errs, e), w)"
      and err: "err = None \<longrightarrow> e = None"
    using w by (auto simp: kio_read_def stream_result_def elim!: attempt_valueE split: prod.splits outcome.splits option.splits)
  have "series_read recorded start done p (k_world s, content, err, w) ns"
    unfolding series_read_def prod.case
  proof (intro conjI impI ns)
    assume "err = None"
    then obtain xs where xs: "prefix (recorded w1 p) xs" "prefix xs (recorded w p)" "content = data_file xs"
      using read [OF stream] err by blast
    have "\<forall>x \<in> set xs. measure_ok x" using measured [of _ w p] set_mono_prefix [OF xs(2)] by blast
    then have "ns = measured_between start done xs" using ns xs(3) by (simp add: read_data_file)
    then show "\<exists>xs. prefix (recorded (k_world s) p) xs \<and> prefix xs (recorded w p) \<and> ns = measured_between start done xs"
      using xs executor [OF w1] prefix_order.order_trans by blast
  qed
  moreover have "saved w = saved (k_world s)" using executor [OF w1] read [OF stream] by simp
  ultimately show thesis using that [of content err] w t by simp
qed

lemma collect:
  assumes "collect_stats env start done ps nodes s = (Return (Inr nodes'), t)"
    and "distinct (map (\<lambda>p. pod_label p LabelNode) ps)"
  shows "\<exists>rs. pods_read env ps (k_world s) rs (k_world t) \<and> saved (k_world t) = saved (k_world s)
    \<and> list_all2 (\<lambda>p r. \<exists>ns. map_of nodes' (pod_label p LabelNode) = Some ns
        \<and> series_read recorded start done (pod_name p) r ns) ps rs
    \<and> (\<forall>k. (\<forall>p \<in> set ps. pod_label p LabelNode \<noteq> k) \<longrightarrow> map_of nodes' k = map_of nodes k)"
  using assms
proof (induction ps arbitrary: nodes s)
  case (Cons p ps)
  then obtain ns u where ns: "read_pod_stats env (pod_name p) start done s = (Return (Inr ns), u)"
      and rest: "collect_stats env start done ps (AList.update (pod_label p LabelNode) ns nodes) u = (Return (Inr nodes'), t)"
    by (auto elim!: attempt_valueE)
  obtain content err where first:
      "kio_read env (pod_name p) ContainerMonitorName MonitorDataFilepath (k_world s) = (Return (Inr (content, err)), k_world u)"
      "saved (k_world u) = saved (k_world s)"
      "series_read recorded start done (pod_name p) (k_world s, content, err, k_world u) ns"
    using ns by (rule read_pod)
  have others: "\<forall>q \<in> set ps. pod_label q LabelNode \<noteq> pod_label p LabelNode" using Cons.prems(2) by (auto simp: image_iff)
  obtain rs where rs: "pods_read env ps (k_world u) rs (k_world t)" "saved (k_world t) = saved (k_world u)"
      "list_all2 (\<lambda>p r. \<exists>ns. map_of nodes' (pod_label p LabelNode) = Some ns
        \<and> series_read recorded start done (pod_name p) r ns) ps rs"
      and kept: "\<forall>k. (\<forall>p \<in> set ps. pod_label p LabelNode \<noteq> k)
        \<longrightarrow> map_of nodes' k = map_of (AList.update (pod_label p LabelNode) ns nodes) k"
    using Cons.IH [OF rest] Cons.prems(2) by auto
  have "map_of nodes' (pod_label p LabelNode) = Some ns"
    using kept others by (simp add: update_conv')
  moreover have "\<forall>k. (\<forall>q \<in> set (p # ps). pod_label q LabelNode \<noteq> k) \<longrightarrow> map_of nodes' k = map_of nodes k"
    using kept by (simp add: update_conv')
  ultimately show ?case
    using first rs by (intro exI [of _ "(k_world s, content, err, k_world u) # rs"] conjI) simp_all
qed simp

lemma fetched:
  assumes "kube_fetch_stats env start done file s = (Return (Inr ()), t)"
    and "distinct (map (\<lambda>p. pod_label p LabelNode) (k_pods s))"
  shows "\<exists>rs w st. pods_read env (k_pods s) (k_world s) rs w
    \<and> saved (k_world t) = saved (k_world s) @ [(file, st)]
    \<and> stats_timestamp st = start \<and> stats_tags st = k_tags s
    \<and> dom (map_of (stats_nodes st)) = (\<lambda>p. pod_label p LabelNode) ` set (k_pods s)
    \<and> list_all2 (\<lambda>p r. \<exists>ns. map_of (stats_nodes st) (pod_label p LabelNode) = Some ns
        \<and> series_read recorded start done (pod_name p) r ns) (k_pods s) rs"
proof -
  let ?st = "\<lambda>nodes. \<lparr>stats_timestamp = start, stats_tags = k_tags s, stats_nodes = nodes\<rparr>"
  obtain nodes u w1 w2 where u: "collect_stats env start done (k_pods s) [] s = (Return (Inr nodes), u)"
      and w1: "ke_create_file env file (k_world u) = (Return (Inr ()), w1)"
      and w2: "ke_encode_stats env file (?st nodes) w1 = (Return (Inr ()), w2)" and t: "k_world t = w2"
    using assms(1) by (auto simp: kube_fetch_stats_def get_tags_def on_cluster_def focus_result elim!: attempt_valueE)
  obtain rs where rs: "pods_read env (k_pods s) (k_world s) rs (k_world u)" "saved (k_world u) = saved (k_world s)"
      "list_all2 (\<lambda>p r. \<exists>ns. map_of nodes (pod_label p LabelNode) = Some ns
        \<and> series_read recorded start done (pod_name p) r ns) (k_pods s) rs"
      "\<forall>k. (\<forall>p \<in> set (k_pods s). pod_label p LabelNode \<noteq> k) \<longrightarrow> map_of nodes k = None"
    using collect [OF u assms(2)] by auto
  have "dom (map_of nodes) = (\<lambda>p. pod_label p LabelNode) ` set (k_pods s)"
  proof
    show "dom (map_of nodes) \<subseteq> (\<lambda>p. pod_label p LabelNode) ` set (k_pods s)"
    proof
      fix k assume "k \<in> dom (map_of nodes)"
      then have "map_of nodes k \<noteq> None" by (simp add: dom_def)
      with rs(4) have "\<exists>p \<in> set (k_pods s). pod_label p LabelNode = k" by auto
      then show "k \<in> (\<lambda>p. pod_label p LabelNode) ` set (k_pods s)" by auto
    qed
    show "(\<lambda>p. pod_label p LabelNode) ` set (k_pods s) \<subseteq> dom (map_of nodes)"
    proof
      fix k assume "k \<in> (\<lambda>p. pod_label p LabelNode) ` set (k_pods s)"
      then obtain i where i: "i < length (k_pods s)" "k = pod_label (k_pods s ! i) LabelNode" by (auto simp: in_set_conv_nth)
      then obtain ns where "map_of nodes k = Some ns" using list_all2_nthD [OF rs(3), of i] by auto
      then show "k \<in> dom (map_of nodes)" by (rule domI)
    qed
  qed
  then show ?thesis
    using rs(1-3) create [OF w1] encode [OF w2] unfolding t
    by (intro exI [of _ rs] exI [of _ "k_world u"] exI [of _ "?st nodes"]) simp
qed

end

section \<open>The window of a run\<close>

lemma refresh_updated: "ks_updated s \<Longrightarrow> refresh_pods env after s = (Return (Inr ()), s)"
  by (simp add: refresh_pods_def)

lemma refresh_fetched:
  assumes "refresh_pods env after s = (Return (Inr ()), t)" and "\<not> ks_updated s"
  obtains pods k where "fetch_pods env (ks_engine s) = (Return (Inr pods), k)" and "t = after (s\<lparr>ks_engine := k, ks_pods := pods\<rparr>)"
  using assms by (auto simp: refresh_pods_def on_engine_def focus_result elim!: observe_cases split: sum.splits)

lemma deploy_updated: "kube_deploy env round1 s = (Return (Inr ()), t) \<Longrightarrow> ks_updated t"
  unfolding kube_deploy_def by (auto elim!: attempt_valueE split: prod.splits)

text \<open>
  An execution whose pods are loaded, step by step: the logs, the main step of the round, which the
  times frame, and its last step.
\<close>

definition executed :: "'w kube_env \<Rightarrow> 'w kube_round \<Rightarrow> 'w kube_strategy \<Rightarrow> 'w kube \<Rightarrow> 'w kube \<Rightarrow> 'w kube_strategy \<Rightarrow> bool" where
  "executed env round1 s k1 k2 t \<longleftrightarrow>
     kube_stream_logs env (ks_engine s) = (Return (Inr ()), k1)
     \<and> kr_execute round1 (make_context (ks_pods s)) k1 = (Return (Inr ()), k2)
     \<and> kr_after round1 (make_context (ks_pods s)) k2 = (Return (Inr ()), ks_engine t)
     \<and> ks_execute_time t = ke_now env (k_world k1) div 1000000000
     \<and> ks_done_time t = ke_now env (k_world k2) div 1000000000 \<and> ks_updated t = ks_updated s"

lemma execute_steps:
  assumes "kube_execute env round1 s = (Return (Inr ()), t)"
  obtains u k1 k2 where "refresh_pods env (\<lambda>s. s) s = (Return (Inr ()), u)" and "executed env round1 u k1 k2 t"
  using assms unfolding kube_execute_def
proof (elim attempt_valueE, goal_cases)
  case (1 x u xa v xb ub nodes uc xd va xe ue xf uf)
  have frame: "ks_updated y = ks_updated x \<and> ks_execute_time y = ks_execute_time x
      \<and> ks_done_time y = ks_done_time x \<and> ks_pods y = ks_pods x \<and> m (ks_engine x) = (Return (Inr r), ks_engine y)"
    if "on_engine m x = (Return (Inr r), y)" for m :: "('w kube, unit) call" and x y r
    using that by (auto simp: on_engine_def focus_result)
  have ub: "ub = v\<lparr>ks_execute_time := clock env v\<rparr>" using 1(4) by simp
  have "uc = ub" and "nodes = make_context (ks_pods ub)" using 1(5) by auto
  have ue: "ue = va\<lparr>ks_done_time := clock env va\<rparr>" using 1(7) by simp
  have "uf = t" using 1(9) by simp
  have "executed env round1 u (ks_engine v) (ks_engine va) t"
    using frame [OF 1(3)] frame [OF 1(6)] frame [OF 1(8)] \<open>uc = ub\<close> \<open>nodes = _\<close> \<open>uf = t\<close>
    by (simp add: ub ue executed_def clock_def)
  then show ?case using 1(1) [of u] 1(2) by simp
qed

lemma refresh_keeps_updated:
  assumes "refresh_pods env (\<lambda>s. s) s = (Return (Inr ()), u)"
  shows "ks_updated u = ks_updated s"
  using assms by (cases "ks_updated s") (auto simp: refresh_updated elim: refresh_fetched)

lemma write_fetches:
  assumes "kube_write_stats env filename s = (Return (Inr ()), t)"
  obtains u where "refresh_pods env (\<lambda>s. s\<lparr>ks_execute_time := 0, ks_done_time := clock env s\<rparr>) s = (Return (Inr ()), u)"
    and "kube_fetch_stats env (ks_execute_time u) (ks_done_time u) (path_join [output_dir (k_options (ks_engine u)), filename]) (ks_engine u)
      = (Return (Inr ()), ks_engine t)"
    and "ks_execute_time t = ks_execute_time u" and "ks_done_time t = ks_done_time u"
  using assms unfolding kube_write_stats_def
  by (auto simp: on_engine_def focus_result elim!: attempt_valueE)

lemma fetch_stats_engine:
  assumes "kube_fetch_stats env start done file k = (r, k')"
  shows "same_engine k k'"
proof -
  have "keeps (same_engine k) (kube_fetch_stats env start done file)"
    unfolding kube_fetch_stats_def by (auto intro!: keeps_engine split: prod.splits)
  then show ?thesis using assms unfolding keeps_def by (metis same_engine_refl snd_conv)
qed

text \<open>
  What is saved from the engine \<open>k\<close> to \<open>k'\<close>: one file, with the start of the window and the
  tags, and for every pod and no other node the series of the window, read from its monitor now.
\<close>

definition saved_window :: "'w kube_env \<Rightarrow> ('w \<Rightarrow> string \<Rightarrow> measure list) \<Rightarrow> ('w \<Rightarrow> (string \<times> stats) list)
    \<Rightarrow> string \<Rightarrow> int \<Rightarrow> int \<Rightarrow> 'w kube \<Rightarrow> 'w kube \<Rightarrow> bool" where
  "saved_window env recorded saved filename start done k k' \<longleftrightarrow> same_engine k k'
     \<and> (\<exists>rs w st. pods_read env (k_pods k) (k_world k) rs w
       \<and> saved (k_world k') = saved (k_world k) @ [(path_join [output_dir (k_options k), filename], st)]
       \<and> stats_timestamp st = start \<and> stats_tags st = k_tags k
       \<and> dom (map_of (stats_nodes st)) = (\<lambda>p. pod_label p LabelNode) ` set (k_pods k)
       \<and> list_all2 (\<lambda>p r. \<exists>ns. map_of (stats_nodes st) (pod_label p LabelNode) = Some ns
           \<and> series_read recorded start done (pod_name p) r ns) (k_pods k) rs)"

lemma write_saves:
  assumes "kube_recorder env recorded saved" and "kube_write_stats env filename s = (Return (Inr ()), t)"
    and "distinct (map (\<lambda>p. pod_label p LabelNode) (k_pods (ks_engine t)))"
  obtains u where "refresh_pods env (\<lambda>s. s\<lparr>ks_execute_time := 0, ks_done_time := clock env s\<rparr>) s = (Return (Inr ()), u)"
    and "saved_window env recorded saved filename (ks_execute_time u) (ks_done_time u) (ks_engine u) (ks_engine t)"
proof -
  obtain u where u: "refresh_pods env (\<lambda>s. s\<lparr>ks_execute_time := 0, ks_done_time := clock env s\<rparr>) s = (Return (Inr ()), u)"
      and fetch: "kube_fetch_stats env (ks_execute_time u) (ks_done_time u)
        (path_join [output_dir (k_options (ks_engine u)), filename]) (ks_engine u) = (Return (Inr ()), ks_engine t)"
    using assms(2) by (rule write_fetches)
  have same: "same_engine (ks_engine u) (ks_engine t)" using fetch_stats_engine [OF fetch] .
  then have "distinct (map (\<lambda>p. pod_label p LabelNode) (k_pods (ks_engine u)))"
    using assms(3) by (simp add: same_engine_def)
  with same have "saved_window env recorded saved filename (ks_execute_time u) (ks_done_time u) (ks_engine u) (ks_engine t)"
    unfolding saved_window_def using kube_recorder.fetched [OF assms(1) fetch] by blast
  with u show thesis by (rule that)
qed

section \<open>Properties\<close>

text \<open>
  A cluster of one pod whose monitor writes a measure every second, a hundred at most. Its state is the
  time and the files saved; the main step of the round takes two seconds.
\<close>

definition monitored_pod :: pod where
  "monitored_pod = pod_of ''simnet-node0'' ''node0'' ''10.0.0.1'' True"

definition measured_until :: "int \<Rightarrow> measure list" where
  "measured_until now = map (\<lambda>i. (int i, 10, 20, 30, 40)) [1..<Suc (min 100 (nat now))]"

type_synonym monitored = "int \<times> (string \<times> stats) list"

definition monitored_env :: "monitored kube_env" where
  "monitored_env =
     \<lparr>ke_watch_pods = (\<lambda>sel. give sel), ke_watch_services = give ''services'', ke_watch_deployments = (\<lambda>sel. give sel),
      ke_events = (\<lambda>watched w. if watched = ''services'' then [Service_object [30000]] else [Pod_object monitored_pod]),
      ke_stop = (\<lambda>watched w. w), ke_create_deployment = (\<lambda>d. give ()), ke_create_service = (\<lambda>sv. give ()),
      ke_list_pods = (\<lambda>sel. give [monitored_pod]), ke_list_nodes = give [], ke_delete_service = (\<lambda>name. give ()),
      ke_delete_deployments = (\<lambda>sel. give ()), ke_logs = (\<lambda>p c. give ()), ke_executor = (\<lambda>p c cmd. give ()),
      ke_stream = (\<lambda>p c cmd stdin w.
        (Return (if cmd = [''cat'', MonitorDataFilepath] then data_file (measured_until (fst w)) else '''', '''', None), w)),
      ke_remove_all = (\<lambda>p. give ()), ke_mkdir_all = (\<lambda>p. give ()), ke_create_file = (\<lambda>p. give ()), ke_open_file = (\<lambda>p. give ()),
      ke_write_file = (\<lambda>p c. give ()), ke_encode_stats = (\<lambda>f st. update (\<lambda>w. (fst w, snd w @ [(f, st)]))),
      ke_encode_rules = (\<lambda>rules. Inr ''''), ke_now = (\<lambda>w. fst w * 1000000000 + 500000000), ke_schedule = (\<lambda>ps. ps),
      ke_file_order = (\<lambda>xs. xs), ke_node_order = (\<lambda>n xs. xs), ke_entry_order = (\<lambda>n xs. xs)\<rparr>"

interpretation monitored: kube_recorder monitored_env "\<lambda>w p. measured_until (fst w)" snd
  by unfold_locales (auto simp: monitored_env_def measured_until_def)

definition silent_round :: "'w kube_round" where
  "silent_round = \<lparr>kr_before = (\<lambda>nodes. give ()), kr_execute = (\<lambda>nodes. give ()), kr_after = (\<lambda>nodes. give ()),
     kr_tun_start = (\<lambda>opts. give ()), kr_tun_stop = give ()\<rparr>"

definition waiting_round :: "monitored kube_round" where
  "waiting_round = silent_round\<lparr>kr_execute :=
     (\<lambda>nodes. update (\<lambda>k. k\<lparr>k_world := (fst (k_world k) + 2, snd (k_world k))\<rparr>))\<rparr>"

definition one_node_strategy :: "monitored kube_strategy" where
  "one_node_strategy =
     projr (new_kube_strategy (Inr ()) (Inr ()) (Inr ''default'') (Inr ()) (Inr ''cluster'')
       (fold (\<lambda>f. f)
         [with_topology (Simple (fold (simple_step 50) [0] \<lparr>st_nodes = replicate 1 (named_node ''''), st_links = Map.empty\<rparr>)),
          with_image ''nginx'' [] [] [], with_output ''/root''] initial_options) (5, []))"

lemma monitored_label: "pod_label monitored_pod LabelNode = ''node0''"
  by (simp add: monitored_pod_def pod_of_def pod_label_def)

lemma monitored_fetch:
  assumes "k_pods k = [p]"
  shows "\<exists>k'. kube_fetch_stats monitored_env start done f k = (Return (Inr ()), k') \<and> same_engine k k'"
  using assms
  by (simp add: kube_fetch_stats_def get_tags_def read_pod_stats_def kio_read_def stream_result_def on_cluster_def focus_def
      attempt_def monitored_env_def same_engine_def)

lemma monitored_write:
  assumes "ks_updated s" and "k_pods (ks_engine s) = [p]"
  shows "\<exists>t. kube_write_stats monitored_env f s = (Return (Inr ()), t) \<and> same_engine (ks_engine s) (ks_engine t)"
proof -
  obtain k where "kube_fetch_stats monitored_env (ks_execute_time s) (ks_done_time s)
      (path_join [output_dir (k_options (ks_engine s)), f]) (ks_engine s) = (Return (Inr ()), k)" and "same_engine (ks_engine s) k"
    using monitored_fetch [OF assms(2)] by metis
  then show ?thesis
    using assms(1) by (simp add: kube_write_stats_def refresh_updated on_engine_def focus_def attempt_def)
qed

lemma monitored_pods:
  assumes "opt_topology (k_options k) = Some tp" and "topo_len tp = 1"
  shows "fetch_pods monitored_env k = (Return (Inr [monitored_pod]), k\<lparr>k_pods := [monitored_pod]\<rparr>)"
  using assms by (simp add: fetch_pods_def with_topology_of_def on_cluster_def focus_def attempt_def monitored_env_def)

lemma monitored_window:
  assumes "saved_window monitored_env (\<lambda>w p. measured_until (fst w)) snd f start done k k'" and "k_pods k = [p]"
    and "pod_label p LabelNode = ''node0''"
  shows "\<exists>before st. snd (k_world k') = before @ [(path_join [output_dir (k_options k), f], st)] \<and> stats_timestamp st = start
    \<and> map_of (stats_nodes st) ''node0'' = Some (measured_between start done (measured_until (fst (k_world k))))"
proof -
  obtain rs w st where rs: "pods_read monitored_env [p] (k_world k) rs w"
      and st: "snd (k_world k') = snd (k_world k) @ [(path_join [output_dir (k_options k), f], st)]" "stats_timestamp st = start"
      and ns: "list_all2 (\<lambda>p r. \<exists>ns. map_of (stats_nodes st) (pod_label p LabelNode) = Some ns
           \<and> series_read (\<lambda>w p. measured_until (fst w)) start done (pod_name p) r ns) [p] rs"
    using assms unfolding saved_window_def by auto
  obtain content err v' where r: "rs = [(k_world k, content, err, v')]"
      and io: "kio_read monitored_env (pod_name p) ContainerMonitorName MonitorDataFilepath (k_world k)
        = (Return (Inr (content, err)), v')"
    using rs ns by (cases rs) (auto simp: list_all2_Cons1)
  then have "err = None" "v' = k_world k"
    by (auto simp: kio_read_def stream_result_def monitored_env_def attempt_def)
  then obtain xs where "prefix (measured_until (fst (k_world k))) xs" "prefix xs (measured_until (fst (k_world k)))"
      and "map_of (stats_nodes st) ''node0'' = Some (measured_between start done xs)"
    using ns unfolding r by (auto simp: series_read_def assms(3))
  then have "map_of (stats_nodes st) ''node0'' = Some (measured_between start done (measured_until (fst (k_world k))))"
    by (metis prefix_order.antisym)
  with st show ?thesis by blast
qed

text \<open>
  C1: The statistics of a run are those of its execution. A run that deploys and executes saves one
  file after the last step of the round: the result file, whose window is the time from the start to
  the end of the round's main step. For every pod it holds what its monitor's data file yields then,
  after the round: when that reading ends without an error, all the measures recorded so far whose
  timestamps lie in the window, unchanged and in order.
\<close>

theorem run_saves_execution_window:
  assumes "kube_recorder env recorded saved" and "do_deploy fl \<or> wants_all fl" and "do_execute fl \<or> wants_all fl"
    and "run_steps (kube_strategy_of env round1) fl s = (Return (Inr ()), t)"
    and "distinct (map (\<lambda>p. pod_label p LabelNode) (k_pods (ks_engine t)))"
  shows "\<exists>u k1 k2 k3. kube_deploy env round1 s = (Return (Inr ()), u)
    \<and> kube_stream_logs env (ks_engine u) = (Return (Inr ()), k1)
    \<and> kr_execute round1 (make_context (ks_pods u)) k1 = (Return (Inr ()), k2)
    \<and> kr_after round1 (make_context (ks_pods u)) k2 = (Return (Inr ()), k3)
    \<and> saved_window env recorded saved ''result.json'' (ke_now env (k_world k1) div 1000000000)
        (ke_now env (k_world k2) div 1000000000) k3 (ks_engine t)"
proof -
  obtain u v where deploy: "kube_deploy env round1 s = (Return (Inr ()), u)"
      and execute: "kube_execute env round1 u = (Return (Inr ()), v)"
      and stats: "kube_write_stats env ''result.json'' v = (Return (Inr ()), t)"
    using assms(2-4) unfolding run_steps_def kube_strategy_of_def by (auto elim!: attempt_valueE split: if_splits)
  then have u: "ks_updated u" using deploy_updated by blast
  from execute obtain u' k1 k2 where "refresh_pods env (\<lambda>s. s) u = (Return (Inr ()), u')"
      and steps: "executed env round1 u' k1 k2 v"
    by (rule execute_steps)
  then have "u' = u" using u by (simp add: refresh_updated)
  then have v: "ks_updated v" using steps u by (simp add: executed_def)
  obtain v' where "refresh_pods env (\<lambda>s. s\<lparr>ks_execute_time := 0, ks_done_time := clock env s\<rparr>) v = (Return (Inr ()), v')"
      and window: "saved_window env recorded saved ''result.json'' (ks_execute_time v') (ks_done_time v') (ks_engine v') (ks_engine t)"
    using write_saves [OF assms(1) stats assms(5)] .
  then have "v' = v" using v by (simp add: refresh_updated)
  then show ?thesis
    using deploy steps window \<open>u' = u\<close> unfolding executed_def by metis
qed

text \<open>The measures after the deployment and up to the end of the main step are there.\<close>

theorem run_saves_execution_window_witness:
  "\<exists>t before st. run_steps (kube_strategy_of monitored_env waiting_round) (default_flags ''openvpn'') one_node_strategy = (Return (Inr ()), t)
     \<and> snd (k_world (ks_engine t)) = before @ [(''/root/result.json'', st)] \<and> stats_timestamp st = 5
     \<and> (\<exists>ns. map_of (stats_nodes st) ''node0'' = Some ns \<and> ns_timestamps ns = [5, 6, 7])"
proof -
  have "(case kube_deploy monitored_env waiting_round one_node_strategy of (r, u) \<Rightarrow>
      case kube_execute monitored_env waiting_round u of (q, v) \<Rightarrow>
        (r, q, ks_updated v, map (\<lambda>p. pod_label p LabelNode) (k_pods (ks_engine v)), output_dir (k_options (ks_engine v)),
         fst (k_world (ks_engine v))))
    = (Return (Inr ()), Return (Inr ()), True, [''node0''], ''/root'', 7)"
    by code_simp
  then obtain u v where deploy: "kube_deploy monitored_env waiting_round one_node_strategy = (Return (Inr ()), u)"
      and execute: "kube_execute monitored_env waiting_round u = (Return (Inr ()), v)" and "ks_updated v"
      and labels: "map (\<lambda>p. pod_label p LabelNode) (k_pods (ks_engine v)) = [''node0'']" and out: "output_dir (k_options (ks_engine v)) = ''/root''"
      and now: "fst (k_world (ks_engine v)) = 7"
    by (auto split: prod.splits)
  from labels obtain p where pods: "k_pods (ks_engine v) = [p]" and label: "pod_label p LabelNode = ''node0''" by auto
  obtain t where stored: "kube_write_stats monitored_env ''result.json'' v = (Return (Inr ()), t)"
      and same: "same_engine (ks_engine v) (ks_engine t)"
    using monitored_write [OF \<open>ks_updated v\<close> pods] by blast
  let ?fl = "default_flags ''openvpn''"
  have all: "do_deploy ?fl \<or> wants_all ?fl" "do_execute ?fl \<or> wants_all ?fl" "wants_all ?fl"
    by (simp_all add: wants_all_def default_flags_def)
  have run: "run_steps (kube_strategy_of monitored_env waiting_round) ?fl one_node_strategy = (Return (Inr ()), t)"
    using deploy execute stored all(3) by (simp add: run_steps_def kube_strategy_of_def)
  have "distinct (map (\<lambda>p. pod_label p LabelNode) (k_pods (ks_engine t)))"
    using same pods by (simp add: same_engine_def)
  from run_saves_execution_window [OF monitored.kube_recorder_axioms all(1,2) run this]
  obtain u' k1 k2 k3 where u': "kube_deploy monitored_env waiting_round one_node_strategy = (Return (Inr ()), u')"
      and k1: "kube_stream_logs monitored_env (ks_engine u') = (Return (Inr ()), k1)"
      and k2: "kr_execute waiting_round (make_context (ks_pods u')) k1 = (Return (Inr ()), k2)"
      and k3: "kr_after waiting_round (make_context (ks_pods u')) k2 = (Return (Inr ()), k3)"
      and window: "saved_window monitored_env (\<lambda>w p. measured_until (fst w)) snd ''result.json''
        (ke_now monitored_env (k_world k1) div 1000000000) (ke_now monitored_env (k_world k2) div 1000000000) k3 (ks_engine t)"
    by (elim exE conjE) (rule that)
  have engines: "k2 = k1\<lparr>k_world := (fst (k_world k1) + 2, snd (k_world k1))\<rparr>" "k3 = k2"
    using k2 k3 by (auto simp: waiting_round_def silent_round_def)
  have step: "ks_engine v = k3"
  proof -
    obtain w ka kb where "refresh_pods monitored_env (\<lambda>s. s) u = (Return (Inr ()), w)" "executed monitored_env waiting_round w ka kb v"
      using execute by (rule execute_steps)
    moreover have "u' = u" using u' deploy by simp
    moreover have "ks_updated u" using deploy by (rule deploy_updated)
    ultimately show ?thesis using k1 k2 k3 by (simp add: refresh_updated executed_def)
  qed
  then have "fst (k_world k1) = 5" "fst (k_world k3) = 7" "k_pods k3 = [p]" "output_dir (k_options k3) = ''/root''"
    using now pods out engines by simp_all
  then have times: "ke_now monitored_env (k_world k1) div 1000000000 = 5" "ke_now monitored_env (k_world k2) div 1000000000 = 7"
    using engines by (simp_all add: monitored_env_def)
  from monitored_window [OF window [unfolded times] \<open>k_pods k3 = _\<close> label] \<open>fst (k_world k3) = 7\<close> obtain before st where
      saved: "snd (k_world (ks_engine t)) = before @ [(path_join [output_dir (k_options k3), ''result.json''], st)]"
      and ts: "stats_timestamp st = 5" and ns: "map_of (stats_nodes st) ''node0'' = Some (measured_between 5 7 (measured_until 7))"
    by auto
  have "ns_timestamps (measured_between 5 7 (measured_until 7)) = [5, 6, 7]" by code_simp
  moreover have "path_join [output_dir (k_options k3), ''result.json''] = ''/root/result.json''"
    unfolding \<open>output_dir (k_options k3) = _\<close> by code_simp
  ultimately show ?thesis
    using run saved ts ns by (intro exI [of _ t] exI [of _ before] exI [of _ st]) auto
qed

text \<open>
  C17: An execution on its own has no window: when only the execution is asked for, or the deployment
  was made by an earlier process, the pods are fetched again for the statistics and the times of the
  execution are overwritten, so the window starts at the epoch and ends at the time of writing.
\<close>

theorem lone_execution_window:
  assumes "kube_recorder env recorded saved" and "\<not> ks_updated s"
    and "kube_execute env round1 s = (Return (Inr ()), u)" and "kube_write_stats env filename u = (Return (Inr ()), t)"
    and "distinct (map (\<lambda>p. pod_label p LabelNode) (k_pods (ks_engine t)))"
  shows "\<exists>pods k. fetch_pods env (ks_engine u) = (Return (Inr pods), k)
    \<and> saved_window env recorded saved filename 0 (ke_now env (k_world k) div 1000000000) k (ks_engine t)"
proof -
  obtain s' k1 k2 where "refresh_pods env (\<lambda>s. s) s = (Return (Inr ()), s')" "executed env round1 s' k1 k2 u"
    using assms(3) by (rule execute_steps)
  then have "\<not> ks_updated u" using refresh_keeps_updated assms(2) by (auto simp: executed_def)
  obtain v where v: "refresh_pods env (\<lambda>s. s\<lparr>ks_execute_time := 0, ks_done_time := clock env s\<rparr>) u = (Return (Inr ()), v)"
      and window: "saved_window env recorded saved filename (ks_execute_time v) (ks_done_time v) (ks_engine v) (ks_engine t)"
    using write_saves [OF assms(1,4,5)] .
  obtain pods k where "fetch_pods env (ks_engine u) = (Return (Inr pods), k)"
      and "v = (u\<lparr>ks_engine := k, ks_pods := pods\<rparr>)\<lparr>ks_execute_time := 0, ks_done_time := clock env (u\<lparr>ks_engine := k, ks_pods := pods\<rparr>)\<rparr>"
    using v \<open>\<not> ks_updated u\<close> by (rule refresh_fetched)
  then show ?thesis using window by (auto simp: clock_def)
qed

theorem lone_execution_window_witness:
  "\<exists>u t st. kube_execute monitored_env waiting_round one_node_strategy = (Return (Inr ()), u)
     \<and> kube_write_stats monitored_env ''result.json'' u = (Return (Inr ()), t)
     \<and> st \<in> set (map snd (snd (k_world (ks_engine t)))) \<and> stats_timestamp st = 0
     \<and> (\<exists>ns. map_of (stats_nodes st) ''node0'' = Some ns \<and> ns_timestamps ns = [1, 2, 3, 4, 5, 6, 7])"
proof -
  have "(case kube_execute monitored_env waiting_round one_node_strategy of (r, u) \<Rightarrow>
      (r, ks_updated u, ks_updated one_node_strategy, map_option topo_len (opt_topology (k_options (ks_engine u))),
       fst (k_world (ks_engine u)))) = (Return (Inr ()), False, False, Some 1, 7)"
    by code_simp
  then obtain u tp where u: "kube_execute monitored_env waiting_round one_node_strategy = (Return (Inr ()), u)"
      and fresh: "\<not> ks_updated u" "\<not> ks_updated one_node_strategy"
      and tp: "opt_topology (k_options (ks_engine u)) = Some tp" "topo_len tp = 1" and now: "fst (k_world (ks_engine u)) = 7"
    by (auto split: prod.splits)
  let ?v = "u\<lparr>ks_engine := (ks_engine u)\<lparr>k_pods := [monitored_pod]\<rparr>, ks_pods := [monitored_pod], ks_execute_time := 0,
    ks_done_time := 7\<rparr>"
  have "refresh_pods monitored_env (\<lambda>s. s\<lparr>ks_execute_time := 0, ks_done_time := clock monitored_env s\<rparr>) u = (Return (Inr ()), ?v)"
    using fresh monitored_pods [OF tp] now
    by (simp add: refresh_pods_def on_engine_def focus_def observe_def clock_def monitored_env_def)
  moreover obtain k where "kube_fetch_stats monitored_env 0 7 (path_join [output_dir (k_options (ks_engine u)), ''result.json'']) (ks_engine ?v)
      = (Return (Inr ()), k)" and same: "same_engine (ks_engine ?v) k"
    using monitored_fetch [of "ks_engine ?v" monitored_pod] by fastforce
  ultimately have "kube_write_stats monitored_env ''result.json'' u = (Return (Inr ()), ?v\<lparr>ks_engine := k\<rparr>)"
    by (simp add: kube_write_stats_def on_engine_def focus_def attempt_def)
  then obtain t where t: "kube_write_stats monitored_env ''result.json'' u = (Return (Inr ()), t)" and engine: "ks_engine t = k"
    by simp
  have "k_pods (ks_engine t) = [monitored_pod]" using same by (simp add: engine same_engine_def)
  then have "distinct (map (\<lambda>p. pod_label p LabelNode) (k_pods (ks_engine t)))" by simp
  from lone_execution_window [OF monitored.kube_recorder_axioms fresh(2) u t this]
  obtain pods and k' :: "monitored kube" where k': "fetch_pods monitored_env (ks_engine u) = (Return (Inr pods), k')"
      and window: "saved_window monitored_env (\<lambda>w p. measured_until (fst w)) snd ''result.json'' 0
        (ke_now monitored_env (k_world k') div 1000000000) k' (ks_engine t)"
    by (elim exE conjE) (rule that)
  have "k_pods k' = [monitored_pod]" "fst (k_world k') = 7" using k' monitored_pods [OF tp] now by auto
  moreover from this have "ke_now monitored_env (k_world k') div 1000000000 = 7" by (simp add: monitored_env_def)
  ultimately obtain before f st where saved: "snd (k_world (ks_engine t)) = before @ [(f, st)]" and ts: "stats_timestamp st = 0"
      and ns: "map_of (stats_nodes st) ''node0'' = Some (measured_between 0 7 (measured_until 7))"
    using monitored_window [of "''result.json''" 0 7 k' "ks_engine t" monitored_pod] window monitored_label by auto
  have "ns_timestamps (measured_between 0 7 (measured_until 7)) = [1, 2, 3, 4, 5, 6, 7]" by code_simp
  with u t saved ts ns show ?thesis by (intro exI [of _ u] exI [of _ t] exI [of _ st]) auto
qed

text \<open>
  A monitor whose data cannot be read is not noticed: whatever error ends the command that prints
  the data, the statistics of the pod are those of what it printed before, and no error is returned.
\<close>

theorem read_stats_ignores_error:
  assumes "ke_executor env p ContainerMonitorName [''cat'', MonitorDataFilepath] (k_world s) = (Return (Inr ()), w1)"
    and "ke_stream env p ContainerMonitorName [''cat'', MonitorDataFilepath] None w1 = (Return (out, errs, e), w2)"
  shows "read_pod_stats env p start done s = (Return (Inr (new_node_stats out start done)), s\<lparr>k_world := w2\<rparr>)"
  using assms by (simp add: read_pod_stats_def on_cluster_def focus_def kio_read_def stream_result_def attempt_def)

theorem read_stats_ignores_error_witness:
  "\<exists>t. read_pod_stats (monitored_env\<lparr>ke_stream := \<lambda>p c cmd stdin w. (Return ('''', ''no such file'', Some EOF), w)\<rparr>) ''p0'' 0 9
     (ks_engine one_node_strategy) = (Return (Inr empty_node_stats), t)"
proof -
  let ?env = "monitored_env\<lparr>ke_stream := \<lambda>p c cmd stdin w. (Return ('''', ''no such file'', Some EOF), w)\<rparr>"
  have "ke_executor ?env ''p0'' ContainerMonitorName [''cat'', MonitorDataFilepath] (k_world (ks_engine one_node_strategy))
      = (Return (Inr ()), k_world (ks_engine one_node_strategy))"
    by (simp add: monitored_env_def)
  from read_stats_ignores_error [OF this, of "''''" "''no such file''" "Some EOF"] show ?thesis
    by (simp add: new_node_stats_def scan_lines_def raw_lines_def)
qed

end
