(* ===== verification/Kube_Frame.thy ===== *)
theory Kube_Frame
  imports Kube_IO
begin

text \<open>
  What the operations of the Kubernetes engine leave alone. A predicate that the calls of the client
  and the streaming of the logs keep is kept by every operation but the one that reads the list of
  pods: the locale \<open>engine_calls\<close>. Two locales give it: \<open>engine_frame\<close>, for a predicate that
  does not depend on the world, and \<open>cluster_frame\<close>, for one that the client keeps in its world.
\<close>

section \<open>Calls\<close>

text \<open>Rules for the calls of the engine, beside those for calls in general.\<close>

lemma keeps_at: "keeps P m \<Longrightarrow> P s \<Longrightarrow> P (snd (m s))"
  by (simp add: keeps_def)

lemma keeps_query: "keeps P (\<lambda>s. (f s, s))"
  by (rule keepsI) simp

lemma keeps_of_outcome_at: "keeps P (\<lambda>s. of_outcome (f s) s)"
proof (rule keepsI)
  fix s assume "P s"
  then show "P (snd (of_outcome (f s) s))" by (cases "f s") simp_all
qed

lemma keeps_with_topology: "(\<And>t. keeps P (k t)) \<Longrightarrow> keeps P (with_topology_of k)"
  by (rule keepsI) (auto simp: with_topology_of_def keeps_def split: option.splits)

section \<open>Operations\<close>

locale engine_calls =
  fixes env :: "'w kube_env" and P :: "'w kube \<Rightarrow> bool"
  assumes watch: "keeps P (on_cluster (ke_watch_pods env sel))" "keeps P (on_cluster (ke_watch_services env))"
      "keeps P (on_cluster (ke_watch_deployments env sel))"
    and creation: "keeps P (on_cluster (ke_create_deployment env d))"
      "keeps P (on_cluster (ke_create_service env sv))"
    and list: "keeps P (on_cluster (ke_list_pods env sel))" "keeps P (on_cluster (ke_list_nodes env))"
    and deletion: "keeps P (on_cluster (ke_delete_service env name))"
      "keeps P (on_cluster (ke_delete_deployments env sel))"
    and containers: "keeps P (on_cluster (kio_read env p c path))" "keeps P (on_cluster (kio_exec env p c cmd stdin))"
    and files: "keeps P (on_cluster (ke_logs env p c))" "keeps P (on_cluster (ke_remove_all env path))"
      "keeps P (on_cluster (ke_mkdir_all env path))" "keeps P (on_cluster (ke_create_file env path))"
      "keeps P (on_cluster (ke_open_file env path))" "keeps P (on_cluster (ke_write_file env path content))"
      "keeps P (on_cluster (ke_encode_stats env path st))"
    and stop: "keeps P (stop_watch env w)"
    and streaming: "P k \<Longrightarrow> P (k\<lparr>k_streaming := True\<rparr>)"
begin

lemmas cluster = watch creation deletion files

lemma writing: "keeps P (on_cluster (kio_write env p c path content))"
  unfolding kio_write_def by (rule containers)

lemmas keeps_frame = keeps_intros keeps_query keeps_of_outcome_at keeps_with_topology keeps_with_pod cluster list
  containers writing stop

lemma create: "keeps P (create_deployment env)"
  by (auto simp: create_deployment_def create_one_def intro!: keeps_frame)

lemma then_stop: "keeps P m \<Longrightarrow> keeps P (then_stop env w m)"
  by (auto simp: then_stop_def intro!: keeps_frame)

lemma wait: "keeps P (wait_deployment env w)"
  by (auto simp: wait_deployment_def intro!: keeps_frame)

lemma logs: "keeps P (kube_stream_logs env)"
proof -
  have log: "keeps P (kube_stream_log env dir p)" for dir p
    by (auto simp: kube_stream_log_def intro!: keeps_frame)
  have "keeps P
     (attempt (update (\<lambda>s. s\<lparr>k_streaming := True\<rparr>)) (\<lambda>e. e) (\<lambda>_.
        attempt (fetch (\<lambda>s. path_join [output_dir (k_options s), ''logs''])) (\<lambda>e. e) (\<lambda>dir.
        attempt (on_cluster (ke_remove_all env dir)) (errorf ''couldn't clean log folder'') (\<lambda>_.
        attempt (on_cluster (ke_mkdir_all env dir)) (errorf ''couldn't create log folder'') (\<lambda>_.
        attempt (fetch k_pods) (\<lambda>e. e) (\<lambda>pods. for_calls (kube_stream_log env dir) pods))))))"
    by (auto intro!: keeps_frame log streaming)
  then show ?thesis
    unfolding keeps_def kube_stream_logs_def by (simp add: keeps_def)
qed

lemma upload: "keeps P (upload_config env)"
  by (auto simp: upload_config_def configure_pods_def for_pods_def upload_rules_def kube_write_def
      intro!: keeps_frame split: list.splits)

lemma router: "keeps P (deploy_router env)" "keeps P (wait_router env w)" "keeps P (fetch_certificates env)"
  by (auto simp: deploy_router_def wait_router_def create_vpn_service_def fetch_certificates_def write_certificates_def
      write_certificate_def Let_def intro!: keeps_frame split: list.splits option.splits prod.splits)

lemma wait_gone: "keeps P (wait_deletion env w)"
  by (rule keepsI) (simp add: wait_deletion_def)

lemma delete: "keeps P (delete_and_wait env)"
  by (auto simp: delete_and_wait_def delete_all_def delete_service_def
      intro!: keeps_frame wait_gone split: sum.splits)

lemma collect: "keeps P (collect_stats env start done ps nodes)"
  by (induction ps arbitrary: nodes) (auto intro!: keeps_frame simp: read_pod_stats_def split: prod.splits)

lemma stats: "keeps P (kube_fetch_stats env start done file)"
  unfolding kube_fetch_stats_def by (auto intro!: keeps_frame collect split: prod.splits)

end

locale engine_frame =
  fixes P :: "'w kube \<Rightarrow> bool"
  assumes world: "P k \<Longrightarrow> P (k\<lparr>k_world := w\<rparr>)" and set_streaming: "P k \<Longrightarrow> P (k\<lparr>k_streaming := True\<rparr>)"
begin

lemma any_call: "keeps P (on_cluster m)"
  unfolding on_cluster_def by (rule keeps_focus) (rule world)

end

sublocale engine_frame \<subseteq> engine_calls env P for env
  by unfold_locales (auto intro: any_call set_streaming keeps_update world simp: stop_watch_def)

locale cluster_frame =
  fixes env :: "'w kube_env" and P :: "'w \<Rightarrow> bool"
  assumes watch_call: "keeps P (ke_watch_pods env sel)" "keeps P (ke_watch_services env)"
      "keeps P (ke_watch_deployments env sel)"
    and create_call: "keeps P (ke_create_deployment env d)" "keeps P (ke_create_service env sv)"
    and list_call: "keeps P (ke_list_pods env sel)" "keeps P (ke_list_nodes env)"
    and delete_call: "keeps P (ke_delete_service env name)" "keeps P (ke_delete_deployments env sel)"
    and executor_call: "keeps P (ke_executor env p c cmd)"
    and stream_call: "P w \<Longrightarrow> P (snd (ke_stream env p c cmd stdin w))"
    and file_call: "keeps P (ke_logs env p c)" "keeps P (ke_remove_all env path)"
      "keeps P (ke_mkdir_all env path)" "keeps P (ke_create_file env path)" "keeps P (ke_open_file env path)"
      "keeps P (ke_write_file env path content)" "keeps P (ke_encode_stats env path st)"
    and stop_call: "P w \<Longrightarrow> P (ke_stop env x w)"
begin

lemma stream_result: "keeps P (\<lambda>w. stream_result (ke_stream env p c cmd stdin w) f)"
proof (rule keepsI)
  fix w assume "P w"
  then show "P (snd (stream_result (ke_stream env p c cmd stdin w) f))"
    using stream_call [of w p c cmd stdin]
    by (cases "ke_stream env p c cmd stdin w") (auto simp: stream_result_def split: outcome.splits)
qed

lemma containers_call: "keeps P (kio_read env p c path)" "keeps P (kio_exec env p c cmd stdin)"
  unfolding kio_read_def kio_exec_def
  by (intro keeps_attempt keeps_if keeps_fail executor_call stream_result)+

end

text \<open>The predicate on the world, with the configuration of the engine.\<close>

definition configured_with :: "options \<Rightarrow> string \<Rightarrow> ('w \<Rightarrow> bool) \<Rightarrow> 'w kube \<Rightarrow> bool" where
  "configured_with opts host P k \<longleftrightarrow> k_options k = opts \<and> k_host k = host \<and> P (k_world k)"

lemma keeps_configured: "keeps P m \<Longrightarrow> keeps (configured_with opts host P) (on_cluster m)"
  by (rule keepsI) (auto simp: keeps_def on_cluster_def focus_def configured_with_def split: prod.splits)

sublocale cluster_frame \<subseteq> engine_calls env "configured_with opts host P" for opts host
  by unfold_locales
    (auto intro: keeps_configured watch_call create_call list_call delete_call containers_call file_call keeps_update
      simp: stop_watch_def configured_with_def stop_call)

context cluster_frame begin

lemma calls: "engine_calls env (configured_with opts host P)"
  by (rule engine_calls_axioms)

text \<open>The list of pods is no part of the configuration, so reading the list keeps it too.\<close>

lemma fetch: "keeps (configured_with opts host P) (fetch_pods env)"
  by (auto simp: fetch_pods_def configured_with_def intro!: keeps_frame)

end

end
