(* ===== verification/Kube_Types.thy ===== *)
theory Kube_Types
  imports Kube_Stats Kube_Frame
begin

text \<open>
  The shape of the state of the Kubernetes strategy: the lists of pods that the engine and the strategy
  keep are empty or as long as the topology, and complete once a deployment has succeeded. Every phase
  keeps it, whatever the cluster does, so a round never sees a part of the nodes.
\<close>

section \<open>The shape of the state\<close>

definition complete :: "topology option \<Rightarrow> 'a list \<Rightarrow> bool" where
  "complete tp xs \<longleftrightarrow> (\<exists>t. tp = Some t \<and> length xs = topo_len t)"

definition sized :: "topology option \<Rightarrow> 'a list \<Rightarrow> bool" where
  "sized tp xs \<longleftrightarrow> xs = [] \<or> complete tp xs"

definition engine_typed :: "topology option \<Rightarrow> 'w kube \<Rightarrow> bool" where
  "engine_typed tp k \<longleftrightarrow> opt_topology (k_options k) = tp \<and> sized tp (k_pods k)"

definition kube_typed :: "topology option \<Rightarrow> 'w kube_strategy \<Rightarrow> bool" where
  "kube_typed tp s \<longleftrightarrow> engine_typed tp (ks_engine s) \<and> sized tp (ks_pods s) \<and> (ks_updated s \<longrightarrow> complete tp (ks_pods s))"

definition kube_ready :: "topology option \<Rightarrow> 'w kube_strategy \<Rightarrow> bool" where
  "kube_ready tp s \<longleftrightarrow> engine_typed tp (ks_engine s) \<and> complete tp (ks_pods s)"

lemma complete_sized [simp]: "complete tp xs \<Longrightarrow> sized tp xs"
  by (simp add: sized_def)

lemma sized_empty [simp]: "sized tp []"
  by (simp add: sized_def)

lemma kube_ready_typed: "kube_ready tp s \<Longrightarrow> kube_typed tp s"
  by (simp add: kube_ready_def kube_typed_def)

section \<open>The engine\<close>

interpretation typed: engine_frame "engine_typed tp" for tp
  by unfold_locales (simp_all add: engine_typed_def)

lemma fetch_typed:
  assumes "engine_typed tp k"
  shows "engine_typed tp (snd (fetch_pods env k))"
    and "fetch_pods env k = (Return (Inr pods), k') \<Longrightarrow> complete tp pods"
  using assms
  by (auto simp: fetch_pods_def with_topology_of_def on_cluster_def focus_def attempt_def engine_typed_def complete_def
      split: prod.splits outcome.splits sum.splits option.splits if_splits)

section \<open>The phases\<close>

lemma keeps_on_engine:
  assumes "keeps (engine_typed tp) m"
  shows "keeps (kube_typed tp) (on_engine m)" and "keeps (kube_ready tp) (on_engine m)"
  using assms by (auto simp: keeps_def on_engine_def focus_def kube_typed_def kube_ready_def split: prod.splits)

lemma keeps_update_ready:
  assumes "\<And>s. P s \<Longrightarrow> Q (f s)" and "keeps Q m" and "\<And>s. Q s \<Longrightarrow> P s"
  shows "keeps P (attempt (update f) w (\<lambda>_. m))"
  using assms by (auto simp: keeps_def attempt_def)

definition round_framed :: "'w kube_round \<Rightarrow> bool" where
  "round_framed round1 \<longleftrightarrow> (\<forall>k nodes. keeps (same_engine k) (kr_before round1 nodes)
     \<and> keeps (same_engine k) (kr_execute round1 nodes) \<and> keeps (same_engine k) (kr_after round1 nodes))"

lemma same_engine_typed:
  assumes "\<And>k. keeps (same_engine k) m"
  shows "keeps (engine_typed tp) m"
proof (rule keepsI)
  fix k :: "'a kube" assume k: "engine_typed tp k"
  have "same_engine k (snd (m k))" using assms [of k] by (simp add: keeps_def)
  with k show "engine_typed tp (snd (m k))" by (simp add: engine_typed_def same_engine_def)
qed

lemma round_typed:
  assumes "round_framed round1"
  shows "keeps (engine_typed tp) (kr_before round1 nodes)" and "keeps (engine_typed tp) (kr_execute round1 nodes)"
    and "keeps (engine_typed tp) (kr_after round1 nodes)"
  using assms by (auto simp: round_framed_def intro!: same_engine_typed)

text \<open>What a phase stores when it finds the pods of an earlier deployment, beside the pods.\<close>

definition shape_kept :: "('w kube_strategy \<Rightarrow> 'w kube_strategy) \<Rightarrow> bool" where
  "shape_kept after \<longleftrightarrow>
     (\<forall>s. ks_engine (after s) = ks_engine s \<and> ks_pods (after s) = ks_pods s \<and> ks_updated (after s) = ks_updated s)"

lemma shape_keptI:
  assumes "\<And>s. ks_engine (after s) = ks_engine s \<and> ks_pods (after s) = ks_pods s \<and> ks_updated (after s) = ks_updated s"
  shows "shape_kept after"
  unfolding shape_kept_def using assms by blast

lemma shape_kept_ready: "shape_kept after \<Longrightarrow> kube_ready tp (after s) = kube_ready tp s"
  by (simp add: shape_kept_def kube_ready_def)

lemma refresh_typed:
  assumes "kube_typed tp s" and "shape_kept after"
  shows "kube_typed tp (snd (refresh_pods env after s))"
    and "refresh_pods env after s = (Return (Inr x), t) \<Longrightarrow> kube_ready tp t"
proof -
  have s: "engine_typed tp (ks_engine s)" using assms(1) by (simp add: kube_typed_def)
  have "kube_typed tp (snd (refresh_pods env after s))
      \<and> (\<forall>x t. refresh_pods env after s = (Return (Inr x), t) \<longrightarrow> kube_ready tp t)"
  proof (cases "ks_updated s")
    case True
    then show ?thesis using assms(1) by (auto simp: refresh_pods_def kube_ready_def kube_typed_def)
  next
    case fresh: False
    obtain r k where f: "fetch_pods env (ks_engine s) = (r, k)" by (cases "fetch_pods env (ks_engine s)")
    have k: "engine_typed tp k" using fetch_typed(1) [OF s, of env] f by simp
    show ?thesis
    proof (cases r)
      case (Return v)
      show ?thesis
      proof (cases v)
        case (Inl err)
        then show ?thesis
          using fresh f k Return assms(1)
          by (simp add: refresh_pods_def on_engine_def focus_def observe_def attempt_def kube_typed_def)
      next
        case (Inr pods)
        let ?t = "s\<lparr>ks_engine := k, ks_pods := pods\<rparr>"
        have "complete tp pods" using fetch_typed(2) [OF s, of env pods k] f Return Inr by simp
        then have "kube_ready tp ?t" using k by (simp add: kube_ready_def)
        then have "kube_ready tp (after ?t)" by (simp only: shape_kept_ready [OF assms(2)])
        moreover have "refresh_pods env after s = (Return (Inr ()), after ?t)"
          using fresh f Return Inr by (simp add: refresh_pods_def on_engine_def focus_def observe_def)
        ultimately show ?thesis by (simp add: kube_ready_typed)
      qed
    qed (use fresh f k assms(1) in \<open>simp_all add: refresh_pods_def on_engine_def focus_def observe_def kube_typed_def\<close>)
  qed
  then show "kube_typed tp (snd (refresh_pods env after s))"
    and "refresh_pods env after s = (Return (Inr x), t) \<Longrightarrow> kube_ready tp t"
    by blast+
qed

lemma phase_after_refresh:
  assumes "shape_kept after" and "\<And>x. keeps (kube_ready tp) (k x)"
  shows "keeps (kube_typed tp) (attempt (refresh_pods env after) w k)"
proof (rule keepsI)
  fix s :: "'a kube_strategy" assume s: "kube_typed tp s"
  show "kube_typed tp (snd (attempt (refresh_pods env after) w k s))"
  proof (rule attempt_inv_after)
    show "kube_typed tp (snd (refresh_pods env after s))" by (rule refresh_typed(1) [OF s assms(1)])
    fix x t assume "refresh_pods env after s = (Return (Inr x), t)"
    then have "kube_ready tp t" by (rule refresh_typed(2) [OF s assms(1)])
    then have "kube_ready tp (snd (k x t))" using assms(2) by (simp add: keeps_def)
    then show "kube_typed tp (snd (k x t))" by (rule kube_ready_typed)
  qed
qed

lemma execute_typed: "round_framed round1 \<Longrightarrow> keeps (kube_typed tp) (kube_execute env round1)"
  unfolding kube_execute_def
  by (rule phase_after_refresh [OF shape_keptI])
    (auto intro!: keeps_intros keeps_on_engine(2) typed.logs round_typed simp: kube_ready_def)

lemma write_typed: "keeps (kube_typed tp) (kube_write_stats env file)"
  unfolding kube_write_stats_def
  by (rule phase_after_refresh [OF shape_keptI])
    (auto intro!: keeps_intros keeps_on_engine(2) typed.stats split: prod.splits)

lemma clean_typed: "keeps (kube_typed tp) (kube_clean env round1)"
  unfolding kube_clean_def on_tunnel_def
  by (auto intro!: keeps_intros keeps_on_engine(1) typed.any_call typed.delete simp: Let_def)

lemma deploy_typed:
  assumes "round_framed round1"
  shows "keeps (kube_typed tp) (kube_deploy env round1)"
proof -
  define rest where "rest = (
     attempt (on_engine (deploy_router env)) (errorf ''failed deploying router'') (\<lambda>w.
     attempt (on_engine (then_stop env w (wait_router env w))) (errorf ''failed waiting router'') (\<lambda>(port, host).
     attempt (on_engine (fetch_certificates env)) (errorf ''failed fetching certs'') (\<lambda>certs.
     attempt (fetch (\<lambda>s. vpn_executable (k_options (ks_engine s)))) (\<lambda>e. e) (\<lambda>vpn.
     attempt (on_tunnel (kr_tun_start round1 [with_port port, with_host host, with_certificate certs, with_command vpn]))
       (errorf ''failed starting tunnel'') (\<lambda>_.
     attempt (fetch (\<lambda>s. make_context (ks_pods s))) (\<lambda>e. e) (\<lambda>nodes.
     attempt (on_engine (kr_before round1 nodes)) (errorf (''failed running '' @ quoted ''Before'')) (\<lambda>_.
     update (\<lambda>s. s\<lparr>ks_updated := True\<rparr>)))))))))"
  have ready: "keeps (kube_ready tp) rest"
    unfolding rest_def on_tunnel_def
    by (auto intro!: keeps_intros keeps_on_engine(2) typed.router typed.then_stop typed.any_call round_typed assms
        simp: kube_ready_def split: prod.splits)
  have pods: "keeps (kube_typed tp)
      (attempt (on_engine (kube_stream_logs env)) (errorf ''failed streaming logs'') (\<lambda>_.
       attempt (on_engine (upload_config env)) (errorf ''failed uploading config'') (\<lambda>_.
       attempt (update (\<lambda>s. s\<lparr>ks_pods := pods\<rparr>)) (\<lambda>e. e) (\<lambda>_. rest))))" if "complete tp pods" for pods
    by (intro keeps_attempt keeps_on_engine(1) typed.logs typed.upload keeps_update_ready [where Q = "kube_ready tp"] ready)
      (use that in \<open>auto simp: kube_ready_def kube_typed_def intro: kube_ready_typed\<close>)
  have fetch: "keeps (kube_typed tp) (attempt (on_engine (fetch_pods env)) (errorf ''failed fetching pods'') (\<lambda>pods.
       attempt (on_engine (kube_stream_logs env)) (errorf ''failed streaming logs'') (\<lambda>_.
       attempt (on_engine (upload_config env)) (errorf ''failed uploading config'') (\<lambda>_.
       attempt (update (\<lambda>s. s\<lparr>ks_pods := pods\<rparr>)) (\<lambda>e. e) (\<lambda>_. rest)))))"
  proof (rule keepsI)
    fix s :: "'a kube_strategy" assume s: "kube_typed tp s"
    then have e: "engine_typed tp (ks_engine s)" by (simp add: kube_typed_def)
    have fetched: "kube_typed tp (snd (on_engine (fetch_pods env) s))"
      using s fetch_typed(1) [OF e, of env]
      by (cases "fetch_pods env (ks_engine s)") (simp add: on_engine_def focus_def kube_typed_def)
    show "kube_typed tp (snd (attempt (on_engine (fetch_pods env)) (errorf ''failed fetching pods'') (\<lambda>pods.
       attempt (on_engine (kube_stream_logs env)) (errorf ''failed streaming logs'') (\<lambda>_.
       attempt (on_engine (upload_config env)) (errorf ''failed uploading config'') (\<lambda>_.
       attempt (update (\<lambda>s. s\<lparr>ks_pods := pods\<rparr>)) (\<lambda>e. e) (\<lambda>_. rest)))) s))"
    proof (rule attempt_inv_after [where P = "kube_typed tp"])
      show "kube_typed tp (snd (on_engine (fetch_pods env) s))" by (rule fetched)
      fix ps t assume t: "on_engine (fetch_pods env) s = (Return (Inr ps), t)"
      then have "complete tp ps" using fetch_typed(2) [OF e, of env ps] by (auto simp: on_engine_def focus_result)
      moreover have "kube_typed tp t" using fetched t by simp
      ultimately show "kube_typed tp (snd (attempt (on_engine (kube_stream_logs env)) (errorf ''failed streaming logs'') (\<lambda>_.
         attempt (on_engine (upload_config env)) (errorf ''failed uploading config'') (\<lambda>_.
         attempt (update (\<lambda>s. s\<lparr>ks_pods := ps\<rparr>)) (\<lambda>e. e) (\<lambda>_. rest))) t))"
        using pods by (simp only: keeps_def)
    qed
  qed
  show ?thesis
    unfolding kube_deploy_def rest_def [symmetric]
    by (intro keeps_attempt keeps_on_engine(1) typed.create typed.then_stop typed.wait fetch)
qed

text \<open>A phase that succeeds after finding the pods ends with all of them.\<close>

lemma refreshed_ready:
  assumes "shape_kept after" and "\<And>x. keeps (kube_ready tp) (k x)" and "kube_typed tp s"
    and "attempt (refresh_pods env after) w k s = (Return (Inr y), t)"
  shows "kube_ready tp t"
proof -
  obtain x u where "refresh_pods env after s = (Return (Inr x), u)" and k: "k x u = (Return (Inr y), t)"
    using assms(4) by (rule attempt_valueE)
  then have "kube_ready tp u" using refresh_typed(2) [OF assms(3,1)] by blast
  then show ?thesis using assms(2) k unfolding keeps_def by (metis snd_conv)
qed

lemma execute_ready:
  assumes "round_framed round1" and "kube_typed tp s" and "kube_execute env round1 s = (Return (Inr ()), t)"
  shows "kube_ready tp t"
  using assms(3) unfolding kube_execute_def
  by (rule refreshed_ready [OF shape_keptI _ assms(2), rotated -1])
    (auto intro!: keeps_intros keeps_on_engine(2) typed.logs round_typed assms(1) simp: kube_ready_def)

lemma deploy_ready:
  assumes "round_framed round1" and "kube_typed tp s" and "kube_deploy env round1 s = (Return (Inr ()), t)"
  shows "kube_ready tp t"
proof -
  have "kube_typed tp t" using keeps_at [OF deploy_typed [OF assms(1)] assms(2), of env] assms(3) by simp
  then show ?thesis using deploy_updated [OF assms(3)] by (simp add: kube_typed_def kube_ready_def)
qed

section \<open>Whole runs\<close>

text \<open>
  Before the first phase there are no pods, whatever options are given. The shape is then an invariant
  in the sense of the contract of a strategy.
\<close>

definition unstarted :: "'w kube_strategy \<Rightarrow> bool" where
  "unstarted s \<longleftrightarrow> k_pods (ks_engine s) = [] \<and> ks_pods s = [] \<and> \<not> ks_updated s"

definition shaped :: "'w kube_strategy \<Rightarrow> bool" where
  "shaped s \<longleftrightarrow> kube_typed (opt_topology (k_options (ks_engine s))) s"

lemma shaped_typed: "kube_typed tp s \<Longrightarrow> shaped s"
  by (simp add: shaped_def kube_typed_def engine_typed_def)

lemma keeps_shaped:
  fixes m :: "('a kube_strategy, 'b) call"
  assumes "\<And>tp. keeps (kube_typed tp) m"
  shows "keeps shaped m"
proof (rule keepsI)
  fix s :: "'a kube_strategy" assume "shaped s"
  then have "kube_typed (opt_topology (k_options (ks_engine s))) (snd (m s))"
    using assms by (simp add: keeps_def shaped_def)
  then show "shaped (snd (m s))" by (rule shaped_typed)
qed

lemma unstarted_shaped: "unstarted s \<Longrightarrow> shaped s"
  by (simp add: unstarted_def shaped_def kube_typed_def engine_typed_def)

lemma shape_contract:
  assumes "round_framed round1"
  shows "strategy_contract (kube_strategy_of env round1) unstarted shaped (\<lambda>_. True)"
proof
  show "unstarted (strategy_option (kube_strategy_of env round1) f s)" if "unstarted s" for f s
    using that by (simp add: unstarted_def kube_strategy_of_def kube_option_def)
  show "shaped (snd (strategy_deploy (kube_strategy_of env round1) s))" if "unstarted s" for s
    using keeps_at [OF keeps_shaped [OF deploy_typed [OF assms]] unstarted_shaped [OF that]]
    by (simp add: kube_strategy_of_def)
qed (simp_all add: kube_strategy_of_def unstarted_shaped keeps_shaped execute_typed [OF assms] write_typed clean_typed)

text \<open>Rounds that work through the operations of the interface are such rounds.\<close>

lemma interface_round_framed:
  assumes "\<And>k. kube_frame.framed env k r"
  shows "round_framed (kube_round_of env r start stop)"
  using assms by (simp add: kube_frame.framed_def round_framed_def kube_round_of_def)

lemma silent_framed: "round_framed silent_round"
  by (simp add: round_framed_def silent_round_def keeps_give)

interpretation silent_shape: strategy_contract "kube_strategy_of env silent_round" unstarted shaped "\<lambda>_. True" for env
  by (rule shape_contract [OF silent_framed])

lemma run_shaped:
  assumes "round_framed round1" and "unstarted s"
  shows "shaped (snd (run_steps (kube_strategy_of env round1) fl s))"
  by (rule strategy_contract.steps_inv [OF shape_contract [OF assms(1)] assms(2)])

section \<open>Properties\<close>

text \<open>
  C7: The shape of the strategy: the lists of pods are empty or as long as the topology, and complete
  whenever they are marked as up to date. Every phase keeps this whatever the cluster does and however
  the phase ends, and a deployment or an execution that succeeds leaves the pods of all the nodes, so
  no round ever sees a part of them.
\<close>

theorem kube_phases_typed:
  assumes "round_framed round1" and "kube_typed tp s"
  shows "(\<forall>m \<in> {kube_deploy env round1, kube_execute env round1, kube_write_stats env file, kube_clean env round1}.
        kube_typed tp (snd (m s)))
    \<and> (\<forall>m \<in> {kube_deploy env round1, kube_execute env round1}. \<forall>t.
        m s = (Return (Inr ()), t) \<longrightarrow> (\<exists>top. tp = Some top \<and> length (ks_pods t) = topo_len top))"
proof
  show "\<forall>m \<in> {kube_deploy env round1, kube_execute env round1, kube_write_stats env file, kube_clean env round1}.
      kube_typed tp (snd (m s))"
    using keeps_at [OF deploy_typed [OF assms(1)] assms(2)] keeps_at [OF execute_typed [OF assms(1)] assms(2)]
      keeps_at [OF write_typed assms(2)] keeps_at [OF clean_typed assms(2)] by blast
  show "\<forall>m \<in> {kube_deploy env round1, kube_execute env round1}. \<forall>t.
      m s = (Return (Inr ()), t) \<longrightarrow> (\<exists>top. tp = Some top \<and> length (ks_pods t) = topo_len top)"
    using execute_ready [OF assms] deploy_ready [OF assms] unfolding kube_ready_def complete_def by blast
qed

theorem kube_phases_typed_witness:
  "\<exists>t top. kube_deploy monitored_env silent_round one_node_strategy = (Return (Inr ()), t)
     \<and> opt_topology (k_options (ks_engine t)) = Some top \<and> length (ks_pods t) = topo_len top
     \<and> shaped (snd (kube_clean monitored_env silent_round t))"
proof -
  let ?tp = "opt_topology (k_options (ks_engine one_node_strategy))"
  have "(case kube_deploy monitored_env silent_round one_node_strategy of (r, u) \<Rightarrow> (r, ks_updated u, map pod_name (ks_pods u),
      k_pods (ks_engine one_node_strategy) = [], ks_pods one_node_strategy = [], ks_updated one_node_strategy))
    = (Return (Inr ()), True, [''simnet-node0''], True, True, False)"
    by code_simp
  then obtain t where t: "kube_deploy monitored_env silent_round one_node_strategy = (Return (Inr ()), t)"
      and "unstarted one_node_strategy"
    by (auto simp: unstarted_def split: prod.splits)
  then have start: "kube_typed ?tp one_node_strategy" by (simp add: unstarted_shaped flip: shaped_def)
  from kube_phases_typed [OF silent_framed start, of monitored_env "''''"] t
  have typed: "kube_typed ?tp t" and "\<exists>top. ?tp = Some top \<and> length (ks_pods t) = topo_len top" by force+
  moreover from this have "opt_topology (k_options (ks_engine t)) = ?tp" by (simp add: kube_typed_def engine_typed_def)
  moreover have "shaped (snd (kube_clean monitored_env silent_round t))"
    using keeps_at [OF clean_typed typed] by (rule shaped_typed)
  ultimately show ?thesis using t by auto
qed

end
