(* ===== verification/Netem.thy ===== *)
theory Netem
  imports Topology
begin

text \<open>
  The tool that applies the rules of a node (\<open>daemon/monitor/netem/executor.go\<close> and
  \<open>main.go\<close>): it turns the list of rules into commands of \<open>tc\<close> and runs them in order,
  stopping at the first failure. Running a command is the parameter \<open>run\<close>, a function of the
  commands run before, so that any behaviour of the device is allowed. The map from addresses to
  classes is an association list.
\<close>

record executor =
  ex_dev :: string
  ex_cmd :: string

type_synonym command = "string list"
type_synonym tc_run = "command list \<Rightarrow> string \<Rightarrow> command \<Rightarrow> gerror option"

abbreviation words :: "string \<Rightarrow> string list" where
  "words s \<equiv> split_on (CHR '' '') s"

definition make_root :: "executor \<Rightarrow> command" where
  "make_root e = words (''qdisc add dev '' @ ex_dev e @ '' root handle 1: htb'')"

definition make_parent :: "executor \<Rightarrow> command" where
  "make_parent e = words (''class add dev '' @ ex_dev e @ '' parent 1: classid 1:1 htb rate 1000Mbps'')"

definition make_class :: "executor \<Rightarrow> nat \<Rightarrow> command" where
  "make_class e minor =
     words (''class add dev '' @ ex_dev e @ '' parent 1:1 classid 1:'' @ show_nat minor
            @ '' htb rate 1000Mbps'')"

definition make_netem :: "rule \<Rightarrow> string" where
  "make_netem r =
     trim_char (CHR '' '')
       (''netem '' @ delay_string (rule_delay r) @ '' '' @ loss_string (rule_loss r))"

definition make_qdisc :: "executor \<Rightarrow> nat \<Rightarrow> nat \<Rightarrow> rule \<Rightarrow> command" where
  "make_qdisc e minor major r =
     words (''qdisc add dev '' @ ex_dev e @ '' parent 1:'' @ show_nat minor @ '' handle ''
            @ show_nat major @ '': '' @ make_netem r)"

definition make_filter :: "executor \<Rightarrow> string \<Rightarrow> nat \<Rightarrow> command" where
  "make_filter e ip minor =
     words (''filter add dev '' @ ex_dev e @ '' protocol ip parent 1:0 prio 1 u32 match ip dst ''
            @ ip @ '' flowid 1:'' @ show_nat minor)"

text \<open>The body of the loop over the rules.\<close>

definition rule_step ::
  "executor \<Rightarrow> rule \<Rightarrow> command list \<times> (string \<times> nat) list \<Rightarrow> command list \<times> (string \<times> nat) list" where
  "rule_step e r st =
     (let (commands, classes) = st; m = match_addr r
      in if map_of classes m = None
         then let minor = (length classes + 1) * 10; major = minor + 1
              in (commands @ [make_class e minor, make_filter e m minor, make_qdisc e minor major r],
                  (m, major) # classes)
         else st)"

definition build_commands :: "executor \<Rightarrow> rule list \<Rightarrow> command list" where
  "build_commands e rules = fst (fold (rule_step e) rules ([make_root e, make_parent e], []))"

definition exec_tc :: "tc_run \<Rightarrow> executor \<Rightarrow> command \<Rightarrow> command list \<Rightarrow> (gerror + unit) \<times> command list" where
  "exec_tc run e args hist =
     ((case run hist (ex_cmd e) args of
         Some err \<Rightarrow> Inl (errorf ''cmd failed'' err)
       | None \<Rightarrow> Inr ()), hist @ [args])"

fun run_commands ::
  "tc_run \<Rightarrow> executor \<Rightarrow> command list \<Rightarrow> command list \<Rightarrow> (gerror + unit) \<times> command list" where
  "run_commands run e [] hist = (Inr (), hist)"
| "run_commands run e (c # cs) hist =
     try_call (exec_tc run e c) (errorf (ex_cmd e @ '' command failed''))
       (\<lambda>_. run_commands run e cs) hist"

definition execute :: "tc_run \<Rightarrow> executor \<Rightarrow> rule list \<Rightarrow> (gerror + unit) \<times> command list" where
  "execute run e rules = run_commands run e (build_commands e rules) []"

section \<open>main.go\<close>

text \<open>
  \<open>main\<close> after the flags are parsed. The results of opening the log file, opening the input
  and decoding it are parameters; \<open>checkErr\<close> panics with the wrapped error.
\<close>

definition check_err :: "gerror option \<Rightarrow> string \<Rightarrow> 'a outcome \<Rightarrow> 'a outcome" where
  "check_err err msg k =
     (case err of Some e \<Rightarrow> Panic (error_text (errorf msg e)) | None \<Rightarrow> k)"

definition netem_main ::
  "tc_run \<Rightarrow> string \<Rightarrow> string \<Rightarrow> string \<Rightarrow> gerror option \<Rightarrow> gerror option \<Rightarrow> gerror + rule list
     \<Rightarrow> command list outcome" where
  "netem_main run dev cmd input create opened decoded =
     check_err create ''couldn't create or open the logging file'' (
     check_err (if input \<noteq> '''' then opened else None) ''couldn't open the file'' (
     case decoded of
       Inl err \<Rightarrow> Panic (error_text (errorf ''couldn't decode'' err))
     | Inr rules \<Rightarrow>
        (case execute run \<lparr>ex_dev = dev, ex_cmd = cmd\<rparr> rules of
           (Inl err, hist) \<Rightarrow> Panic (error_text (errorf ''couldn't execute the rules'' err))
         | (Inr _, hist) \<Rightarrow> Return hist)))"

section \<open>The commands\<close>

text \<open>The rules that count: the first one of each address, in order.\<close>

fun first_rules :: "rule list \<Rightarrow> rule list" where
  "first_rules [] = []"
| "first_rules (r # rs) = r # filter (\<lambda>r'. rule_ip r' \<noteq> rule_ip r) (first_rules rs)"

definition rule_commands :: "executor \<Rightarrow> nat \<Rightarrow> rule \<Rightarrow> command list" where
  "rule_commands e k r =
     [make_class e (10 * (k + 1)), make_filter e (match_addr r) (10 * (k + 1)),
      make_qdisc e (10 * (k + 1)) (10 * (k + 1) + 1) r]"

lemma map_first_rules: "map rule_ip (first_rules rs) = firsts (map rule_ip rs)"
proof (induction rs)
  case (Cons r rs)
  then show ?case
    using filter_map [of "\<lambda>y. y \<noteq> rule_ip r" rule_ip "first_rules rs"] by (simp add: comp_def)
qed simp

lemma first_rules_ips: "rule_ip ` set (first_rules rs) = rule_ip ` set rs"
  using arg_cong [OF map_first_rules [of rs], of set] by simp

lemma first_rules_distinct: "distinct (map rule_ip (first_rules rs))"
  by (simp add: map_first_rules)

lemma first_rules_subset: "set (first_rules rs) \<subseteq> set rs"
  by (induction rs) auto

lemma first_rules_snoc:
  "first_rules (rs @ [r]) = first_rules rs @ (if rule_ip r \<in> rule_ip ` set rs then [] else [r])"
  by (induction rs) auto

lemma rule_step_eq:
  "rule_step e r (cmds, classes) =
     (if match_addr r \<in> dom (map_of classes) then (cmds, classes)
      else (cmds @ rule_commands e (length classes) r,
            (match_addr r, 10 * (length classes + 1) + 1) # classes))"
  by (auto simp: rule_step_def rule_commands_def Let_def algebra_simps)

lemma rule_loop:
  "\<exists>classes. fold (rule_step e) rs ([make_root e, make_parent e], [])
     = (make_root e # make_parent e
          # concat (map (\<lambda>(k, r). rule_commands e k r) (enumerate 0 (first_rules rs))), classes)
   \<and> length classes = length (first_rules rs)
   \<and> dom (map_of classes) = match_addr ` set rs"
proof (induction rs rule: rev_induct)
  case Nil
  then show ?case by simp
next
  case (snoc r rs)
  then obtain classes where c: "fold (rule_step e) rs ([make_root e, make_parent e], [])
     = (make_root e # make_parent e
          # concat (map (\<lambda>(k, r). rule_commands e k r) (enumerate 0 (first_rules rs))), classes)"
    "length classes = length (first_rules rs)" "dom (map_of classes) = match_addr ` set rs"
    by blast
  have "match_addr r \<in> match_addr ` set rs \<longleftrightarrow> rule_ip r \<in> rule_ip ` set rs"
    by (auto simp: image_iff)
  with c show ?case
    by (cases "rule_ip r \<in> rule_ip ` set rs")
      (auto simp: rule_step_eq first_rules_snoc enumerate_append_eq)
qed

lemma build_commands_eq:
  "build_commands e rs = make_root e # make_parent e
     # concat (map (\<lambda>(k, r). rule_commands e k r) (enumerate 0 (first_rules rs)))"
  using rule_loop [of e rs] by (auto simp: build_commands_def)

lemma length_build_commands: "length (build_commands e rs) = 2 + 3 * length (first_rules rs)"
proof -
  have "length (concat (map (\<lambda>(k, r). rule_commands e k r) (enumerate n xs))) = 3 * length xs" for n xs
    by (induction xs arbitrary: n) (auto simp: rule_commands_def)
  then show ?thesis by (simp add: build_commands_eq)
qed

section \<open>Running them\<close>

text \<open>The history of a run is a prefix of the commands, and all of them exactly on success.\<close>

lemma run_commands_result:
  "run_commands run e cs hist =
     (case find (\<lambda>k. run (hist @ take k cs) (ex_cmd e) (cs ! k) \<noteq> None) [0..<length cs] of
        None \<Rightarrow> (Inr (), hist @ cs)
      | Some k \<Rightarrow> (Inl (errorf (ex_cmd e @ '' command failed'')
           (errorf ''cmd failed'' (the (run (hist @ take k cs) (ex_cmd e) (cs ! k))))),
          hist @ take (Suc k) cs))"
proof (induction cs arbitrary: hist)
  case Nil
  then show ?case by simp
next
  case (Cons c cs)
  have up: "[0..<length (c # cs)] = 0 # map Suc [0..<length cs]"
    by (simp add: upt_conv_Cons map_Suc_upt del: upt_Suc)
  have find_map: "find P (map f xs) = map_option f (find (P \<circ> f) xs)" for P and f :: "nat \<Rightarrow> nat" and xs
    by (induction xs) auto
  show ?case
  proof (cases "run hist (ex_cmd e) c")
    case None
    then have "run_commands run e (c # cs) hist = run_commands run e cs (hist @ [c])"
      by (simp add: exec_tc_def)
    also note Cons.IH
    finally show ?thesis using None unfolding up
      by (simp add: find_map comp_def split: option.splits)
  next
    case (Some err)
    then show ?thesis unfolding up by (simp add: exec_tc_def)
  qed
qed

lemma run_commands_ok:
  assumes "\<And>h c. run h (ex_cmd e) c = None"
  shows "run_commands run e cs hist = (Inr (), hist @ cs)"
proof -
  have "find (\<lambda>k. run (hist @ take k cs) (ex_cmd e) (cs ! k) \<noteq> None) [0..<length cs] = None"
    using assms by (simp add: find_None_iff)
  then show ?thesis by (simp add: run_commands_result)
qed

section \<open>The words of a command\<close>

abbreviation clean :: "string \<Rightarrow> bool" where
  "clean s \<equiv> CHR '' '' \<notin> set s"

lemma clean_show_nat [simp]: "clean (show_nat n)"
  by (rule show_nat_no_char) simp

lemma clean_show_int [simp]: "clean (show_int i)"
  by (simp add: show_int_def)

lemma clean_digit_char [simp]: "d < 10 \<Longrightarrow> digit_char d \<noteq> CHR '' ''"
  using digit_char_is_digit [of d] by (metis not_digit_special(1))

lemma clean_fmt2 [simp]: "clean (f64_fmt2 x)"
  by (cases x) (auto simp: show_cents_def clean_digit_char [symmetric])

lemma make_root_words: "clean (ex_dev e) \<Longrightarrow>
  make_root e = [''qdisc'', ''add'', ''dev'', ex_dev e, ''root'', ''handle'', ''1:'', ''htb'']"
  by (simp add: make_root_def split_on_append)

lemma make_parent_words: "clean (ex_dev e) \<Longrightarrow>
  make_parent e = [''class'', ''add'', ''dev'', ex_dev e, ''parent'', ''1:'', ''classid'', ''1:1'',
                   ''htb'', ''rate'', ''1000Mbps'']"
  by (simp add: make_parent_def split_on_append)

lemma make_class_words: "clean (ex_dev e) \<Longrightarrow>
  make_class e n = [''class'', ''add'', ''dev'', ex_dev e, ''parent'', ''1:1'', ''classid'',
                    ''1:'' @ show_nat n, ''htb'', ''rate'', ''1000Mbps'']"
  by (simp add: make_class_def split_on_append)

lemma make_filter_words: "clean (ex_dev e) \<Longrightarrow> clean ip \<Longrightarrow>
  make_filter e ip n = [''filter'', ''add'', ''dev'', ex_dev e, ''protocol'', ''ip'', ''parent'', ''1:0'',
                        ''prio'', ''1'', ''u32'', ''match'', ''ip'', ''dst'', ip, ''flowid'',
                        ''1:'' @ show_nat n]"
  by (simp add: make_filter_def split_on_append split_on_absent)

lemma make_qdisc_words: "clean (ex_dev e) \<Longrightarrow>
  make_qdisc e n h r = [''qdisc'', ''add'', ''dev'', ex_dev e, ''parent'', ''1:'' @ show_nat n, ''handle'',
                        show_nat h @ '':''] @ words (make_netem r)"
  by (simp add: make_qdisc_def split_on_append)

text \<open>What a rule asks of the emulator, as words.\<close>

lemma netem_words:
  "words (make_netem r) =
     (let d = delay_value (rule_delay r); l = loss_value (rule_loss r);
          delay_words = [''delay'', show_int (milliseconds d) @ ''ms''];
          loss_words = [''loss'', f64_fmt2 (l * Fin 100) @ ''%'']
      in if 0 < d then ''netem'' # delay_words @ (if l \<le> 0 \<or> 1 < l then [] else loss_words)
         else if l \<le> 0 \<or> 1 < l then [''netem''] else ''netem'' # '''' # loss_words)"
proof -
  have trim: "trim_char (CHR '' '') (''netem '' @ s @ [c]) = ''netem '' @ s @ [c]" if "c \<noteq> CHR '' ''" for s c
    using that by (simp add: trim_char_def)
  have trim1: "trim_char (CHR '' '') (''netem '' @ s @ [c, CHR '' '']) = ''netem '' @ s @ [c]"
    if "c \<noteq> CHR '' ''" for s c
    using that by (simp add: trim_char_def)
  have trim2: "trim_char (CHR '' '') ''netem  '' = ''netem''" by (simp add: trim_char_def)
  show ?thesis
    using trim [of "CHR ''%''" "delay_string (rule_delay r) @ '' loss '' @ f64_fmt2 (loss_value (rule_loss r) * Fin 100)"]
      trim1 [of "CHR ''s''" "''delay '' @ show_int (milliseconds (delay_value (rule_delay r))) @ ''m''"] trim2
    by (auto simp: make_netem_def Let_def delay_string_def loss_string_def split_on_append
        split_on_absent)
qed

section \<open>Properties\<close>

text \<open>
  C12: The commands for a list of rules: the root discipline and its class, then for the k-th
  distinct address a class 1:10k, a filter that sends the address to it and an emulation discipline
  10k+1 attached to it with the delay and the loss of the first rule of that address. Every address
  of the rules gets exactly one such triple.
\<close>

theorem netem_commands_spec:
  assumes "clean (ex_dev e)" and "\<forall>r \<in> set rs. clean (rule_ip r)"
  shows "build_commands e rs =
      [''qdisc'', ''add'', ''dev'', ex_dev e, ''root'', ''handle'', ''1:'', ''htb'']
      # [''class'', ''add'', ''dev'', ex_dev e, ''parent'', ''1:'', ''classid'', ''1:1'', ''htb'', ''rate'', ''1000Mbps'']
      # concat (map (\<lambda>(k, r).
          [[''class'', ''add'', ''dev'', ex_dev e, ''parent'', ''1:1'', ''classid'', ''1:'' @ show_nat (10 * k),
            ''htb'', ''rate'', ''1000Mbps''],
           [''filter'', ''add'', ''dev'', ex_dev e, ''protocol'', ''ip'', ''parent'', ''1:0'', ''prio'', ''1'', ''u32'',
            ''match'', ''ip'', ''dst'', rule_ip r @ ''/32'', ''flowid'', ''1:'' @ show_nat (10 * k)],
           [''qdisc'', ''add'', ''dev'', ex_dev e, ''parent'', ''1:'' @ show_nat (10 * k), ''handle'',
            show_nat (10 * k + 1) @ '':''] @ words (make_netem r)]) (enumerate 1 (first_rules rs)))
    \<and> distinct (map rule_ip (first_rules rs)) \<and> rule_ip ` set (first_rules rs) = rule_ip ` set rs"
proof -
  have shift: "enumerate 1 xs = map (\<lambda>(k, r). (k + 1, r)) (enumerate 0 xs)" for xs :: "rule list"
    by (rule nth_equalityI) (simp_all add: nth_enumerate_eq)
  have "clean (match_addr r)" if "(k, r) \<in> set (enumerate 0 (first_rules rs))" for k r
    using assms(2) first_rules_subset [of rs] that nth_mem [of k "first_rules rs"]
    by (auto simp: match_addr_def in_set_enumerate_eq)
  then have "map (\<lambda>(k, r). rule_commands e k r) (enumerate 0 (first_rules rs)) = map (\<lambda>(k, r).
          [[''class'', ''add'', ''dev'', ex_dev e, ''parent'', ''1:1'', ''classid'', ''1:'' @ show_nat (10 * k),
            ''htb'', ''rate'', ''1000Mbps''],
           [''filter'', ''add'', ''dev'', ex_dev e, ''protocol'', ''ip'', ''parent'', ''1:0'', ''prio'', ''1'', ''u32'',
            ''match'', ''ip'', ''dst'', rule_ip r @ ''/32'', ''flowid'', ''1:'' @ show_nat (10 * k)],
           [''qdisc'', ''add'', ''dev'', ex_dev e, ''parent'', ''1:'' @ show_nat (10 * k), ''handle'',
            show_nat (10 * k + 1) @ '':''] @ words (make_netem r)]) (enumerate 1 (first_rules rs))"
    using assms(1) unfolding shift map_map
    by (intro map_cong) (auto simp: rule_commands_def make_class_words make_filter_words
        make_qdisc_words match_addr_def)
  then show ?thesis
    using assms(1)
    by (simp add: build_commands_eq make_root_words make_parent_words first_rules_distinct
        first_rules_ips)
qed

theorem netem_commands_spec_witness:
  "length (build_commands \<lparr>ex_dev = ''eth0'', ex_cmd = ''tc''\<rparr>
     [new_delay_rule ''1'' 1000000, new_loss_rule ''1'' 1, new_delay_rule ''2'' 0]) = 8
   \<and> build_commands \<lparr>ex_dev = ''eth0'', ex_cmd = ''tc''\<rparr>
     [new_delay_rule ''1'' 1000000, new_loss_rule ''1'' 1, new_delay_rule ''2'' 0] ! 3
   = [''filter'', ''add'', ''dev'', ''eth0'', ''protocol'', ''ip'', ''parent'', ''1:0'', ''prio'', ''1'', ''u32'',
      ''match'', ''ip'', ''dst'', ''1/32'', ''flowid'', ''1:10'']"
proof -
  let ?e = "\<lparr>ex_dev = ''eth0'', ex_cmd = ''tc''\<rparr>"
  let ?rs = "[new_delay_rule ''1'' 1000000, new_loss_rule ''1'' 1, new_delay_rule ''2'' 0]"
  have "clean (ex_dev ?e)" and "\<forall>r \<in> set ?rs. clean (rule_ip r)"
    by (simp_all add: new_delay_rule_def new_loss_rule_def)
  note spec = netem_commands_spec [OF this, THEN conjunct1]
  have "first_rules ?rs = [new_delay_rule ''1'' 1000000, new_delay_rule ''2'' 0]"
    by (simp add: new_delay_rule_def new_loss_rule_def)
  then show ?thesis
    unfolding spec by (simp add: new_delay_rule_def show_nat.simps)
qed

text \<open>
  Running the rules executes a prefix of these commands: all of them exactly when none fails, and
  otherwise up to and including the first one that fails, whose error is returned.
\<close>

theorem netem_execute_stops_at_failure:
  "execute run e rs =
     (case find (\<lambda>k. run (take k (build_commands e rs)) (ex_cmd e) (build_commands e rs ! k) \<noteq> None)
             [0..<length (build_commands e rs)] of
        None \<Rightarrow> (Inr (), build_commands e rs)
      | Some k \<Rightarrow> (Inl (errorf (ex_cmd e @ '' command failed'') (errorf ''cmd failed''
             (the (run (take k (build_commands e rs)) (ex_cmd e) (build_commands e rs ! k))))),
          take (Suc k) (build_commands e rs)))"
  using run_commands_result [of run e "build_commands e rs" "[]"]
  by (simp only: execute_def append_Nil)

text \<open>
  C35: A rule with a loss and no delay makes the tool pass an empty argument to the command, and no
  other rule does: the text "netem  loss p%" has two blanks and is split at each.
\<close>

theorem netem_empty_argument_iff:
  assumes "clean (ex_dev e)" and "ex_dev e \<noteq> ''''"
  shows "'''' \<in> set (make_qdisc e minor major r) \<longleftrightarrow>
     delay_value (rule_delay r) \<le> 0 \<and> \<not> loss_value (rule_loss r) \<le> 0 \<and> \<not> 1 < loss_value (rule_loss r)"
  using assms by (auto simp: make_qdisc_words netem_words Let_def)

theorem netem_empty_argument_iff_witness:
  "'''' \<in> set (make_qdisc \<lparr>ex_dev = ''eth0'', ex_cmd = ''tc''\<rparr> 10 11 (new_loss_rule ''127.0.0.3'' (Fin (1 / 2))))"
  by (subst netem_empty_argument_iff)
    (simp_all add: new_loss_rule_def no_delay_def no_loss_def zero_float64_def one_float64_def)

end
