(* ===== verification/Emulation.thy ===== *)
theory Emulation
  imports Netem Docker_Daemon
begin

text \<open>
  From the topology to the kernel: the topology, the Docker strategy and the traffic shaping daemon
  together. The rules that a deployment delivers make the daemon of every node filter exactly the
  addresses of the nodes its links lead to. What does not depend on Docker is \<open>topology_filters\<close>.
\<close>

section \<open>The filters of a list of commands\<close>

definition filtered :: "command list \<Rightarrow> string list" where
  "filtered cmds = map (\<lambda>c. c ! 14) (filter (\<lambda>c. hd c = ''filter'') cmds)"

lemma filtered_commands:
  assumes "clean (ex_dev e)" and "\<forall>r \<in> set rs. clean (rule_ip r)"
  shows "filtered (build_commands e rs) = map match_addr (first_rules rs)"
proof -
  have one: "filtered (rule_commands e k r) = [match_addr r]" if "clean (rule_ip r)" for k r
    using assms(1) that
    by (simp add: filtered_def rule_commands_def make_class_words make_filter_words make_qdisc_words match_addr_def)
  have append: "filtered (xs @ ys) = filtered xs @ filtered ys" for xs ys
    by (simp add: filtered_def)
  have "filtered (concat (map (\<lambda>(k, r). rule_commands e k r) (enumerate n xs))) = map match_addr xs"
    if "\<forall>r \<in> set xs. clean (rule_ip r)" for n xs
    using that by (induction xs arbitrary: n) (simp_all add: append one, simp add: filtered_def)
  moreover have "\<forall>r \<in> set (first_rules rs). clean (rule_ip r)"
    using assms(2) first_rules_subset by blast
  ultimately have "filtered (concat (map (\<lambda>(k, r). rule_commands e k r) (enumerate 0 (first_rules rs))))
      = map match_addr (first_rules rs)"
    by blast
  then show ?thesis
    using assms(1) by (simp add: build_commands_eq filtered_def make_root_words make_parent_words)
qed

lemma netem_main_accepts:
  "netem_main (\<lambda>_ _ _. None) dev cmd input None None (Inr rs) = Return (build_commands \<lparr>ex_dev = dev, ex_cmd = cmd\<rparr> rs)"
  by (simp add: netem_main_def check_err_def execute_def run_commands_ok)

section \<open>The filters of a topology\<close>

text \<open>
  Whatever distributes them: the rules of a node, computed with a mapping that knows an address of every
  node, make the daemon filter the addresses of the nodes that its links lead to.
\<close>

lemma topology_filters:
  assumes "go_map_order node_ord entry_ord" and "topo_wf tp"
    and "\<forall>d \<in> set (topo_nodes node_ord tp). \<exists>a. m (node_name d) = Some a \<and> clean a"
  shows "\<exists>cmds. netem_main (\<lambda>_ _ _. None) ''eth0'' ''tc'' '''' None None (Inr (topo_rules entry_ord tp name m)) = Return cmds
    \<and> distinct (filtered cmds)
    \<and> set (filtered cmds) = {a @ ''/32'' | a. \<exists>l \<in> set (topo_targets tp name). m (node_name (link_distant l)) = Some a}"
proof -
  let ?rules = "topo_rules entry_ord tp name m"
  have rs: "?rules = map (link_rule m) (topo_targets tp name)"
    by (rule go_map_order.rules_of_targets [OF assms(1,2)])
  have address: "\<exists>a. m (node_name (link_distant l)) = Some a \<and> clean a" if "l \<in> set (topo_targets tp name)" for l
    using assms(3) go_map_order.targets_in_nodes [OF assms(1,2) that] by blast
  then have clean: "\<forall>r \<in> set ?rules. clean (rule_ip r)"
    by (fastforce simp: rs link_rule_def get_or_def)
  let ?cmds = "build_commands \<lparr>ex_dev = ''eth0'', ex_cmd = ''tc''\<rparr> ?rules"
  have filters: "filtered ?cmds = map (\<lambda>a. a @ ''/32'') (map rule_ip (first_rules ?rules))"
    using filtered_commands [OF _ clean, of "\<lparr>ex_dev = ''eth0'', ex_cmd = ''tc''\<rparr>"] by (simp add: match_addr_def comp_def)
  have "distinct (filtered ?cmds)"
    unfolding filters distinct_map [of "\<lambda>a. a @ ''/32''"] using first_rules_distinct by (simp add: inj_on_def)
  moreover have "set (filtered ?cmds) = (\<lambda>a. a @ ''/32'') ` rule_ip ` set ?rules"
    unfolding filters set_map first_rules_ips by simp
  moreover have "rule_ip ` set ?rules = {a. \<exists>l \<in> set (topo_targets tp name). m (node_name (link_distant l)) = Some a}"
    using address by (force simp: rs link_rule_def get_or_def image_iff)
  ultimately show ?thesis
    by (intro exI [of _ ?cmds]) (auto simp: netem_main_accepts)
qed

section \<open>The addresses of a deployment\<close>

definition known_as :: "app \<Rightarrow> string \<Rightarrow> string \<Rightarrow> bool" where
  "known_as c name address \<longleftrightarrow> container_name c = Return name \<and> container_address c = Return address"

lemma entries_lookup:
  assumes "list_all2 (\<lambda>(k, v) c. container_name c = Return k \<and> container_address c = Return v) kvs cs"
    and "distinct (map container_name cs)"
  shows "map_of (rev kvs) k = Some v \<longleftrightarrow> (\<exists>c \<in> set cs. known_as c k v)"
proof -
  have names: "map container_name cs = map Return (map fst kvs)"
    using assms(1) by (induction rule: list_all2_induct) auto
  have "distinct (map fst kvs)"
    using assms(2) unfolding names by (auto simp: distinct_map inj_on_def)
  then have "map_of (rev kvs) k = Some v \<longleftrightarrow> (k, v) \<in> set kvs"
    by (simp add: map_of_eq_Some_iff rev_map [symmetric] flip: rev_map)
  also have "\<dots> \<longleftrightarrow> (\<exists>c \<in> set cs. known_as c k v)"
    using assms(1) by (induction rule: list_all2_induct) (auto simp: known_as_def)
  finally show ?thesis .
qed

section \<open>Properties\<close>

text \<open>
  C2: A successful deployment emulates its topology. For any topology of the package whose nodes all
  have a container, every container has a traffic shaping container in its network namespace that
  received rules with which the daemon, as long as no command of the kernel fails, filters the
  addresses of exactly the nodes that the links of its own node lead to, each address once.
\<close>

theorem docker_emulates_topology:
  assumes "docker_shaper env sent placed" and "opt_topology (d_options s) = Some tp" and "topo_wf tp"
    and "\<forall>k. range_order (env_node_order env k)" and "\<forall>k. range_order (env_entry_order env k)"
    and "configure_containers env s = (Return (Inr ()), t)"
    and "distinct (map container_name (d_containers s))"
    and "\<forall>d \<in> set (topo_nodes (env_node_order env) tp). \<exists>c \<in> set (d_containers s). \<exists>a. known_as c (node_name d) a \<and> clean a"
    and "c \<in> set (d_containers s)" and "container_name c = Return name"
  shows "\<exists>cid rules cmds. (cid, rules) \<in> set (sent (d_world t)) \<and> placed (d_world t) cid = Some (netem_host_config c)
    \<and> netem_main (\<lambda>_ _ _. None) ''eth0'' ''tc'' '''' None None (Inr rules) = Return cmds
    \<and> distinct (filtered cmds)
    \<and> set (filtered cmds) = {a @ ''/32'' | a. \<exists>l \<in> set (topo_targets tp name). \<exists>c' \<in> set (d_containers s).
        known_as c' (node_name (link_distant l)) a}"
proof -
  from delivered_rules [OF assms(1,2,6)] obtain cids kvs where
      kvs: "list_all2 (\<lambda>(name, address) c. container_name c = Return name \<and> container_address c = Return address) kvs (d_containers s)"
      and cids: "list_all2 (\<lambda>cid c. placed (d_world t) cid = Some (netem_host_config c)) cids (d_containers s)"
      and sent: "sent (d_world t) = sent (d_world s)
        @ zip cids (map (\<lambda>(name, _). topo_rules (env_entry_order env) tp name (map_of (rev kvs))) kvs)"
    by blast
  note lookup = entries_lookup [OF kvs assms(7)]
  define m where "m = map_of (rev kvs)"
  define rules where "rules = topo_rules (env_entry_order env) tp name m"
  obtain i where i: "i < length (d_containers s)" "d_containers s ! i = c"
    using assms(9) by (auto simp: in_set_conv_nth)
  have len: "length kvs = length (d_containers s)" "length cids = length (d_containers s)"
    using list_all2_lengthD [OF kvs] list_all2_lengthD [OF cids] by simp_all
  have "fst (kvs ! i) = name"
    using list_all2_nthD2 [OF kvs i(1)] i(2) assms(10) by (auto split: prod.splits)
  then have "(cids ! i, rules) \<in> set (sent (d_world t))"
    using i(1) len by (auto simp: sent rules_def m_def in_set_zip case_prod_beta intro!: exI [of _ i])
  moreover have "placed (d_world t) (cids ! i) = Some (netem_host_config c)"
    using list_all2_nthD2 [OF cids i(1)] i(2) by simp
  moreover have "go_map_order (env_node_order env) (env_entry_order env)"
    using assms(4,5) by (simp add: go_map_order_def)
  from topology_filters [OF this assms(3), of m name] obtain cmds where
      "netem_main (\<lambda>_ _ _. None) ''eth0'' ''tc'' '''' None None (Inr rules) = Return cmds" and "distinct (filtered cmds)"
      and "set (filtered cmds) = {a @ ''/32'' | a. \<exists>l \<in> set (topo_targets tp name). m (node_name (link_distant l)) = Some a}"
    using assms(8) lookup unfolding rules_def m_def by blast
  moreover have "m k = Some a \<longleftrightarrow> (\<exists>c' \<in> set (d_containers s). known_as c' k a)" for k a
    using lookup by (simp add: m_def)
  ultimately show ?thesis
    by (intro exI [of _ "cids ! i"] exI [of _ rules] exI [of _ cmds]) simp
qed

text \<open>Two containers of a full topology with one link, from the first to the second.\<close>

definition pair_app :: "string \<Rightarrow> string \<Rightarrow> app" where
  "pair_app name address =
     \<lparr>app_id = name, app_names = [slash # name], app_networks = [DefaultContainerNetwork \<mapsto> address]\<rparr>"

definition pair_inputs :: "full_input list" where
  "pair_inputs = [\<lparr>fi_from = ''a'', fi_to = ''b'', fi_latency = 5000000\<rparr>]"

definition pair :: "engine docker" where
  "pair = two_nodes
     \<lparr>d_options := initial_options\<lparr>opt_topology := Some (Full (new_full_topology pair_inputs))\<rparr>,
      d_containers := [pair_app ''a'' ''10.0.0.1'', pair_app ''b'' ''10.0.0.2''],
      d_events := map (\<lambda>cid. Event ''die'' cid [''exitCode'' \<mapsto> ''0'']) [''0'', ''1'']\<rparr>"

theorem docker_emulates_topology_witness:
  "\<exists>t cid rules cmds. configure_containers engine_env pair = (Return (Inr ()), t)
    \<and> (cid, rules) \<in> set (eng_sent (d_world t))
    \<and> netem_main (\<lambda>_ _ _. None) ''eth0'' ''tc'' '''' None None (Inr rules) = Return cmds
    \<and> set (filtered cmds) = {''10.0.0.2/32''}"
proof -
  have "fst (configure_containers engine_env pair) = Return (Inr ())"
    by code_simp
  then obtain t where t: "configure_containers engine_env pair = (Return (Inr ()), t)"
    by (cases "configure_containers engine_env pair") auto
  have tp: "opt_topology (d_options pair) = Some (Full (new_full_topology pair_inputs))"
    by (simp add: pair_def)
  have wf: "topo_wf (Full (new_full_topology pair_inputs))"
    by (simp add: new_full_topology_wf)
  have cs: "d_containers pair = [pair_app ''a'' ''10.0.0.1'', pair_app ''b'' ''10.0.0.2'']"
    by (simp add: pair_def)
  have known: "known_as (pair_app n a) n' a' \<longleftrightarrow> n' = n \<and> a' = a" for n a n' a'
    by (auto simp: known_as_def pair_app_def container_name_def container_address_def)
  have nodes: "simple_get_nodes (new_full_topology pair_inputs) = [named_node ''a'', named_node ''b'']"
    by (simp add: simple_get_nodes_def full_nodes input_names_def pair_inputs_def)
  have clean: "clean ''10.0.0.1'' \<and> clean ''10.0.0.2''"
    by code_simp

  have targets: "simple_targets (new_full_topology pair_inputs) ''a'' = [input_link (hd pair_inputs)]"
    by code_simp
  have name: "container_name (pair_app n a) = Return n" for n a
    by (simp add: pair_app_def container_name_def)
  have far: "link_distant (input_link (hd pair_inputs)) = named_node ''b''"
    by code_simp
  have names: "distinct (map container_name (d_containers pair))"
    by (simp add: cs name)
  have member: "pair_app ''a'' ''10.0.0.1'' \<in> set (d_containers pair)"
    by (simp add: cs)
  have "\<exists>c \<in> set (d_containers pair). \<exists>a. known_as c n a \<and> clean a" if "n = ''a'' \<or> n = ''b''" for n
    using that clean known by (metis cs list.set_intros)
  then have contained: "\<forall>d \<in> set (topo_nodes (env_node_order engine_env) (Full (new_full_topology pair_inputs))).
      \<exists>c \<in> set (d_containers pair). \<exists>a. known_as c (node_name d) a \<and> clean a"
    by (simp add: nodes)
  have order: "\<forall>k. range_order (env_node_order engine_env k)" "\<forall>k. range_order (env_entry_order engine_env k)"
    by (simp_all add: engine_env_def range_order_id)
  have "\<exists>cid rules cmds. (cid, rules) \<in> set (eng_sent (d_world t))
      \<and> eng_hosts (d_world t) cid = Some (netem_host_config (pair_app ''a'' ''10.0.0.1''))
      \<and> netem_main (\<lambda>_ _ _. None) ''eth0'' ''tc'' '''' None None (Inr rules) = Return cmds
      \<and> distinct (filtered cmds)
      \<and> set (filtered cmds) = {a @ ''/32'' | a. \<exists>l \<in> set (topo_targets (Full (new_full_topology pair_inputs)) ''a'').
        \<exists>c' \<in> set (d_containers pair). known_as c' (node_name (link_distant l)) a}"
    by (rule docker_emulates_topology [OF memory_shaper.docker_shaper_axioms tp wf order t names contained member name])
  moreover have "{a @ ''/32'' | a. \<exists>l \<in> set (topo_targets (Full (new_full_topology pair_inputs)) ''a'').
        \<exists>c' \<in> set (d_containers pair). known_as c' (node_name (link_distant l)) a} = {''10.0.0.2/32''}"
    by (auto simp: targets far cs known)
  ultimately obtain cid rules cmds where
      "(cid, rules) \<in> set (eng_sent (d_world t))"
      "netem_main (\<lambda>_ _ _. None) ''eth0'' ''tc'' '''' None None (Inr rules) = Return cmds"
      "set (filtered cmds) = {''10.0.0.2/32''}"
    by (elim exE conjE) (simp only: simp_thms)
  with t show ?thesis
    by (intro exI conjI)
qed

end
