(* ===== verification/Kube_Emulation.thy ===== *)
theory Kube_Emulation
  imports Emulation Kube_Cluster
begin

text \<open>
  From the topology to the kernel on Kubernetes: the topology, the upload of the configuration and the
  traffic shaping daemon together. The rules travel encoded through the standard input of the daemon;
  \<open>decode\<close> is how it reads them.
\<close>

section \<open>The addresses of the pods\<close>

lemma mapping_fold:
  assumes "distinct (map (\<lambda>p. pod_label p LabelNode) pods)" and "'''' \<notin> (\<lambda>p. pod_label p LabelNode) ` set pods"
    and "\<forall>p \<in> set pods. m0 (pod_label p LabelNode) = None"
  shows "fold (\<lambda>p m. let n = pod_label p LabelNode in if n \<noteq> '''' then m(n \<mapsto> pod_ip p) else m) pods m0 k = Some a
    \<longleftrightarrow> m0 k = Some a \<or> (\<exists>p \<in> set pods. pod_label p LabelNode = k \<and> pod_ip p = a)"
  using assms
proof (induction pods arbitrary: m0)
  case (Cons p pods)
  let ?n = "pod_label p LabelNode"
  have n: "?n \<noteq> ''''" and rest: "\<forall>q \<in> set pods. pod_label q LabelNode \<noteq> ?n"
    using Cons.prems(1,2) by (auto simp: image_iff)
  have "\<forall>q \<in> set pods. (m0(?n \<mapsto> pod_ip p)) (pod_label q LabelNode) = None"
    using Cons.prems(3) rest by simp
  then have "fold (\<lambda>p m. let n = pod_label p LabelNode in if n \<noteq> '''' then m(n \<mapsto> pod_ip p) else m) pods (m0(?n \<mapsto> pod_ip p)) k = Some a
      \<longleftrightarrow> (m0(?n \<mapsto> pod_ip p)) k = Some a \<or> (\<exists>q \<in> set pods. pod_label q LabelNode = k \<and> pod_ip q = a)"
    using Cons.prems(1,2) by (intro Cons.IH) auto
  then show ?case using n Cons.prems(3) by auto
qed simp

lemma node_mapping_lookup:
  assumes "distinct (map (\<lambda>p. pod_label p LabelNode) pods)" and "'''' \<notin> (\<lambda>p. pod_label p LabelNode) ` set pods"
  shows "node_mapping pods k = Some a \<longleftrightarrow> (\<exists>p \<in> set pods. pod_label p LabelNode = k \<and> pod_ip p = a)"
  unfolding node_mapping_def by (subst mapping_fold [OF assms]) simp_all

lemma singleton_image: "f ` A = {b} \<Longrightarrow> (\<exists>x \<in> A. f x = k) \<longleftrightarrow> k = b"
  by blast

section \<open>Properties\<close>

text \<open>
  C3: A successful upload emulates the topology on Kubernetes. For any topology of the package whose
  nodes all have a pod, the monitor of every pod has been started with the encoded rules of its node on
  its input, and when they are decoded as they were encoded it filters, as long as no command of the
  kernel fails, the addresses of exactly the pods of the nodes that the links of its node lead to, each
  address once.
\<close>

theorem kube_emulates_topology:
  assumes "kube_executor env execs" and "\<forall>rs out. ke_encode_rules env rs = Inr out \<longrightarrow> decode out = Inr rs"
    and "opt_topology (k_options s) = Some tp" and "topo_wf tp"
    and "\<forall>k. range_order (ke_node_order env k)" and "\<forall>k. range_order (ke_entry_order env k)"
    and "upload_config env s = (Return (Inr ()), t)"
    and "distinct (map (\<lambda>p. pod_label p LabelNode) (k_pods s))" and "'''' \<notin> (\<lambda>p. pod_label p LabelNode) ` set (k_pods s)"
    and "mset (ke_schedule env (k_pods s)) = mset (k_pods s)"
    and "\<forall>d \<in> set (topo_nodes (ke_node_order env) tp). \<exists>q \<in> set (k_pods s). pod_label q LabelNode = node_name d \<and> clean (pod_ip q)"
    and "p \<in> set (k_pods s)"
    and "ke_encode_rules env (topo_rules (ke_entry_order env) tp (pod_label p LabelNode) (node_mapping (k_pods s))) = Inr out"
  shows "(pod_name p, ContainerMonitorName, commandNetEm, Some (out, None)) \<in> set (execs (k_world t))
    \<and> (\<exists>cmds. netem_main (\<lambda>_ _ _. None) ''eth0'' ''tc'' '''' None None (decode out) = Return cmds
      \<and> distinct (filtered cmds)
      \<and> set (filtered cmds) = {pod_ip q @ ''/32'' | q. q \<in> set (k_pods s)
          \<and> (\<exists>l \<in> set (topo_targets tp (pod_label p LabelNode)). node_name (link_distant l) = pod_label q LabelNode)})"
proof
  let ?m = "node_mapping (k_pods s)" and ?n = "pod_label p LabelNode"
  note lookup = node_mapping_lookup [OF assms(8,9)]
  have sched: "set (ke_schedule env (k_pods s)) = set (k_pods s)"
    using assms(10) by (rule mset_eq_setD)
  have "kube_executor.rules_exec env tp ?m p = (pod_name p, ContainerMonitorName, commandNetEm, Some (out, None))"
    using assms(13) by (simp add: kube_executor.rules_exec_def [OF assms(1)] piped_def)
  moreover from kube_executor.uploaded [OF assms(1,7,3,8)] sched
  have "kube_executor.rules_exec env tp ?m p \<in> set (execs (k_world t))" using assms(12) by simp
  ultimately show "(pod_name p, ContainerMonitorName, commandNetEm, Some (out, None)) \<in> set (execs (k_world t))" by simp
  have "go_map_order (ke_node_order env) (ke_entry_order env)"
    using assms(5,6) by (simp add: go_map_order_def)
  moreover have "\<forall>d \<in> set (topo_nodes (ke_node_order env) tp). \<exists>a. ?m (node_name d) = Some a \<and> clean a"
  proof
    fix d assume "d \<in> set (topo_nodes (ke_node_order env) tp)"
    then obtain q where q: "q \<in> set (k_pods s)" "pod_label q LabelNode = node_name d" and "clean (pod_ip q)"
      using assms(11) by blast
    moreover have "?m (node_name d) = Some (pod_ip q)" using q lookup by blast
    ultimately show "\<exists>a. ?m (node_name d) = Some a \<and> clean a" by blast
  qed
  ultimately obtain cmds where
      "netem_main (\<lambda>_ _ _. None) ''eth0'' ''tc'' '''' None None (Inr (topo_rules (ke_entry_order env) tp ?n ?m)) = Return cmds"
      and "distinct (filtered cmds)"
      and filters: "set (filtered cmds) = {a @ ''/32'' | a. \<exists>l \<in> set (topo_targets tp ?n). ?m (node_name (link_distant l)) = Some a}"
    using topology_filters [OF _ assms(4)] by meson
  moreover have "decode out = Inr (topo_rules (ke_entry_order env) tp ?n ?m)" using assms(2,13) by blast
  moreover have "set (filtered cmds) = {pod_ip q @ ''/32'' | q. q \<in> set (k_pods s)
      \<and> (\<exists>l \<in> set (topo_targets tp ?n). node_name (link_distant l) = pod_label q LabelNode)}"
    unfolding filters lookup by (rule Collect_cong) metis
  ultimately show "\<exists>cmds. netem_main (\<lambda>_ _ _. None) ''eth0'' ''tc'' '''' None None (decode out) = Return cmds
      \<and> distinct (filtered cmds)
      \<and> set (filtered cmds) = {pod_ip q @ ''/32'' | q. q \<in> set (k_pods s)
          \<and> (\<exists>l \<in> set (topo_targets tp ?n). node_name (link_distant l) = pod_label q LabelNode)}"
    by (intro exI [of _ cmds]) simp
qed

text \<open>
  Two pods of a full topology with one link, from the first to the second, in the cluster in memory. The
  encoding knows the rules of the first pod and of a pod without links.
\<close>

definition pair_rules :: "rule list" where
  "pair_rules = [new_delay_rule ''10.0.0.2'' 5000000]"

definition pair_encode :: "rule list \<Rightarrow> gerror + string" where
  "pair_encode rs = (if rs = [] then Inr ''none'' else if rs = pair_rules then Inr ''one'' else Inl (Msg ''unknown rules''))"

definition pair_decode :: "string \<Rightarrow> gerror + rule list" where
  "pair_decode s = (if s = ''none'' then Inr [] else if s = ''one'' then Inr pair_rules else Inl (Msg ''bad input''))"

definition pair_env :: "cluster kube_env" where
  "pair_env = memory_cluster\<lparr>ke_encode_rules := pair_encode\<rparr>"

definition pair_pods :: "pod list" where
  "pair_pods = [pod_of ''p0'' ''a'' ''10.0.0.1'' True, pod_of ''p1'' ''b'' ''10.0.0.2'' True]"

definition pair_kube :: "cluster kube" where
  "pair_kube = (ks_engine two_node_strategy)
     \<lparr>k_options := initial_options\<lparr>opt_topology := Some (Full (new_full_topology pair_inputs))\<rparr>, k_pods := pair_pods\<rparr>"

interpretation pair_executor: kube_executor pair_env cl_execs
  by unfold_locales (auto simp: pair_env_def memory_cluster_def)

theorem kube_emulates_topology_witness:
  "\<exists>t cmds. upload_config pair_env pair_kube = (Return (Inr ()), t)
     \<and> (''p0'', ContainerMonitorName, commandNetEm, Some (''one'', None)) \<in> set (cl_execs (k_world t))
     \<and> netem_main (\<lambda>_ _ _. None) ''eth0'' ''tc'' '''' None None (pair_decode ''one'') = Return cmds
     \<and> set (filtered cmds) = {''10.0.0.2/32''}"
proof -
  let ?tp = "Full (new_full_topology pair_inputs)" and ?p = "pod_of ''p0'' ''a'' ''10.0.0.1'' True"
  have "fst (upload_config pair_env pair_kube) = Return (Inr ())"
    by code_simp
  then obtain t where t: "upload_config pair_env pair_kube = (Return (Inr ()), t)"
    by (cases "upload_config pair_env pair_kube") auto
  have pods: "k_pods pair_kube = pair_pods" and tp: "opt_topology (k_options pair_kube) = Some ?tp"
    by (simp_all add: pair_kube_def)
  have label: "pod_label (pod_of n l a True) LabelNode = l" and ip: "pod_ip (pod_of n l a True) = a" for n l a
    by (simp_all add: pod_of_def pod_label_def)
  have wf: "topo_wf ?tp" by (simp add: new_full_topology_wf)
  have clean: "clean ''10.0.0.1'' \<and> clean ''10.0.0.2''" by code_simp
  have order: "\<forall>k. range_order (ke_node_order pair_env k)" "\<forall>k. range_order (ke_entry_order pair_env k)"
    by (simp_all add: pair_env_def memory_cluster_def range_order_id)
  have labels: "distinct (map (\<lambda>p. pod_label p LabelNode) (k_pods pair_kube))"
      "'''' \<notin> (\<lambda>p. pod_label p LabelNode) ` set (k_pods pair_kube)"
    by (simp_all add: pods pair_pods_def label)
  have sched: "mset (ke_schedule pair_env (k_pods pair_kube)) = mset (k_pods pair_kube)"
    by (simp add: pair_env_def memory_cluster_def)
  have nodes: "simple_get_nodes (new_full_topology pair_inputs) = [named_node ''a'', named_node ''b'']"
    by (simp add: simple_get_nodes_def full_nodes input_names_def pair_inputs_def)
  have contained: "\<forall>d \<in> set (topo_nodes (ke_node_order pair_env) ?tp).
      \<exists>q \<in> set (k_pods pair_kube). pod_label q LabelNode = node_name d \<and> clean (pod_ip q)"
    using clean by (simp add: nodes pods pair_pods_def label ip)
  have member: "?p \<in> set (k_pods pair_kube)" by (simp add: pods pair_pods_def)
  have law: "\<forall>rs out. ke_encode_rules pair_env rs = Inr out \<longrightarrow> pair_decode out = Inr rs"
    by (auto simp: pair_env_def pair_encode_def pair_decode_def)
  have "ke_encode_rules pair_env (topo_rules (ke_entry_order pair_env) ?tp (pod_label ?p LabelNode) (node_mapping (k_pods pair_kube))) = Inr ''one''"
    by code_simp
  from kube_emulates_topology [OF pair_executor.kube_executor_axioms law tp wf order t labels sched contained member this]
  obtain cmds where e: "(pod_name ?p, ContainerMonitorName, commandNetEm, Some (''one'', None)) \<in> set (cl_execs (k_world t))"
      and m: "netem_main (\<lambda>_ _ _. None) ''eth0'' ''tc'' '''' None None (pair_decode ''one'') = Return cmds"
      and f: "set (filtered cmds) = {pod_ip q @ ''/32'' | q. q \<in> set (k_pods pair_kube)
        \<and> (\<exists>l \<in> set (topo_targets ?tp (pod_label ?p LabelNode)). node_name (link_distant l) = pod_label q LabelNode)}"
    by blast
  have "map (\<lambda>l. node_name (link_distant l)) (topo_targets ?tp ''a'') = [''b'']"
    by code_simp
  then have "(\<lambda>l. node_name (link_distant l)) ` set (topo_targets ?tp ''a'') = {''b''}"
    by (simp only: flip: set_map) simp
  then have linked: "(\<exists>l \<in> set (topo_targets ?tp ''a''). node_name (link_distant l) = k) \<longleftrightarrow> k = ''b''" for k
    by (rule singleton_image)
  have "set (filtered cmds) = {pod_ip q @ ''/32'' | q. q \<in> set pair_pods \<and> pod_label q LabelNode = ''b''}"
    by (simp only: f label linked pods)
  also have "\<dots> = (\<lambda>q. pod_ip q @ ''/32'') ` set (filter (\<lambda>q. pod_label q LabelNode = ''b'') pair_pods)" by auto
  also have "\<dots> = {''10.0.0.2/32''}" by (simp add: pair_pods_def label ip)
  finally have "set (filtered cmds) = {''10.0.0.2/32''}" .
  moreover have "pod_name ?p = ''p0''" by (simp add: pod_of_def)
  ultimately show ?thesis using t e m by auto
qed

end
