(* ===== verification/Kube_Tunnel.thy ===== *)
theory Kube_Tunnel
  imports Kube_Frame Tunnel
begin

text \<open>
  The Kubernetes strategy with the tunnel of the program: the world of the cluster is that of the tunnel,
  and a deployment opens the tunnel to the router that it has made. The locale \<open>router_tunnel\<close> states
  what the router holds and the cluster announces, what files contain, and which commands were run.
\<close>

section \<open>Certificates\<close>




section \<open>The phases of a deployment\<close>




section \<open>Properties\<close>

lemma find_append: "find P (xs @ ys) = (case find P xs of None \<Rightarrow> find P ys | Some x \<Rightarrow> Some x)"
  by (induction xs) auto

lemma wait_node_port_first:
  "wait_node_port (map Service_object pss)
     = (case find (\<lambda>q. 0 < q) (concat pss) of None \<Rightarrow> Blocked | Some q \<Rightarrow> Return q)"
  by (induction pss) (auto simp: find_append split: option.splits)

text \<open>
  The service of the router is not looked for: the port of the tunnel is the first node port that any
  service of the namespace announces, so with another one it may be the wrong port; without any the
  deployment waits for ever.
\<close>

theorem vpn_port_of_any_service:
  assumes "ke_watch_services env (k_world k) = (Return (Inr x), w1)"
    and "ke_create_service env make_router_service w1 = (Return (Inr ()), w2)"
    and "ke_events env x w2 = map Service_object pss"
  shows "create_vpn_service env k =
    (case find (\<lambda>q. 0 < q) (concat pss) of None \<Rightarrow> Blocked | Some q \<Rightarrow> Return (Inr q), k\<lparr>k_world := w2\<rparr>)"
  using assms
  by (simp add: create_vpn_service_def on_cluster_def focus_def attempt_def wait_node_port_first split: option.splits)


text \<open>
  A cluster of one pod and a router, on a host whose world is its files and the commands that were run.
  The log says at the first poll that the tunnel is open.
\<close>

type_synonym host = "(string \<times> string) list \<times> (string list \<times> (string \<rightharpoonup> string)) list"

definition put_file :: "string \<Rightarrow> string \<Rightarrow> host \<Rightarrow> host" where
  "put_file f content h = (AList.update f content (fst h), snd h)"


definition router_pod :: pod where
  "router_pod = pod_of ''simnet-router-0'' '''' ''10.0.0.9'' True"

definition app_pod :: pod where
  "app_pod = pod_of ''simnet-node0-0'' ''node0'' ''10.0.0.1'' True"

definition routed_env :: "host tunnel kube_env" where
  "routed_env =
     \<lparr>ke_watch_pods = (\<lambda>sel. give sel), ke_watch_services = give ''services'', ke_watch_deployments = (\<lambda>sel. give sel),
      ke_events = (\<lambda>watched w. if watched = ''services'' then [Service_object [0, 31]] else [Pod_object app_pod]),
      ke_stop = (\<lambda>watched w. w), ke_create_deployment = (\<lambda>d. give ()), ke_create_service = (\<lambda>sv. give ()),
      ke_list_pods = (\<lambda>sel. give [if sel = label_selector LabelID RouterID then router_pod else app_pod]),
      ke_list_nodes = give [[(''Hostname'', ''n1''), (''ExternalIP'', ''192.0.2.1'')]], ke_delete_service = (\<lambda>name. give ()),
      ke_delete_deployments = (\<lambda>sel. give ()), ke_logs = (\<lambda>p c. give ()), ke_executor = (\<lambda>p c cmd. give ()),
      ke_stream = (\<lambda>p c cmd stdin w. (Return (''router:'' @ last cmd, '''', None), w)),
      ke_remove_all = (\<lambda>p. give ()), ke_mkdir_all = (\<lambda>p. give ()), ke_create_file = (\<lambda>p. give ()),
      ke_open_file = (\<lambda>f. update (\<lambda>w. w\<lparr>tn_world := put_file f '''' (tn_world w)\<rparr>)),
      ke_write_file = (\<lambda>f c. update (\<lambda>w. w\<lparr>tn_world := put_file f c (tn_world w)\<rparr>)), ke_encode_stats = (\<lambda>f st. give ()),
      ke_encode_rules = (\<lambda>rules. Inr ''''), ke_now = (\<lambda>w. 0), ke_schedule = (\<lambda>ps. ps), ke_file_order = rev,
      ke_node_order = (\<lambda>n xs. xs), ke_entry_order = (\<lambda>n xs. xs)\<rparr>"

interpretation routed_frame: cluster_frame routed_env "\<lambda>w. snd (tn_world w) = l \<and> tn_out_dir w = d" for l d
  by unfold_locales (auto simp: routed_env_def put_file_def intro!: keepsI)






end
