(* ===== verification/Spec2Isabelle.thy ===== *)
theory Spec2Isabelle
  imports Simplot Docker_VPN Examples Kube_Types Kube_Emulation Kube_Tunnel
begin

text \<open>
  Simnet (\<open>go.dedis.ch/simnet\<close>) runs a distributed program on a simulated network: it starts one
  container per node of a topology, with Docker or on a Kubernetes cluster, shapes the traffic between
  them, runs the round of the user's simulation, collects the resource usage of every node, and cleans.
  This library models the implementation and proves what makes it correct, together with the places
  where it is not.

  \<^bold>\<open>The program and its model.\<close>

  \<^item> \<^bold>\<open>The flow.\<close> \<open>mod.go\<close> parses the flags and runs the phases of a strategy: \<open>run\<close>, \<open>run_steps\<close> and
    \<open>run_flagged\<close> in \<open>Simulation\<close>, over the record \<open>strategy\<close>, which is the interface \<open>sim.Strategy\<close>.
    What a strategy promises to the flow is the locale \<open>strategy_contract\<close>. The interfaces \<open>sim.IO\<close> and
    \<open>sim.Round\<close> of \<open>sim/mod.go\<close> are the records \<open>sim_io\<close> and \<open>sim_round\<close> of \<open>Sim_IO\<close>; the options
    of \<open>sim/option.go\<close> are in \<open>Options\<close>.
  \<^item> \<^bold>\<open>Networks.\<close> \<open>network/*.go\<close>: rules, nodes, links and the simple, full and cloud topologies in
    \<open>Network\<close>, the area topology in \<open>Area\<close>, and in \<open>Topology\<close> the interface \<open>network.Topology\<close> as the
    datatype \<open>topology\<close> of its implementations and the locale \<open>topology_ops\<close> of its contract.
  \<^item> \<^bold>\<open>Daemons.\<close> \<open>daemon/monitor/netem\<close>, which turns the rules of a node into commands of \<open>tc\<close>, is
    \<open>Netem\<close>. \<open>daemon/monitor\<close>, which writes the usage of a container, is \<open>Monitor\<close>; its goroutines are
    the step relation \<open>mon_step\<close> with the reachable states \<open>mon_reachable\<close>.
  \<^item> \<^bold>\<open>Statistics.\<close> \<open>metrics/mod.go\<close> reads what the monitors wrote: \<open>new_node_stats\<close> and the aggregates
    in \<open>Metrics\<close>. The command \<open>metrics/simplot\<close> is \<open>Simplot\<close>.
  \<^item> \<^bold>\<open>Docker.\<close> \<open>sim/docker/mod.go\<close> is \<open>Docker\<close> (state \<open>docker\<close>, phases \<open>docker_deploy\<close>,
    \<open>docker_execute\<close>, \<open>docker_write_stats\<close>, \<open>docker_clean\<close>), \<open>sim/docker/io.go\<close> is \<open>Docker_IO\<close> and, as
    an implementation of \<open>sim.IO\<close>, \<open>Docker_Rounds\<close>; \<open>sim/docker/vpn_*.go\<close> is \<open>Docker_VPN\<close>.
  \<^item> \<^bold>\<open>Kubernetes.\<close> \<open>sim/kubernetes/engine.go\<close> is \<open>Kube_Objects\<close> (the objects it makes) and
    \<open>Kube_Engine\<close> (state \<open>kube\<close> and operations, with \<open>sim/kubernetes/io.go\<close>),
    \<open>sim/kubernetes/mod.go\<close> is \<open>Kube_Strategy\<close> (state \<open>kube_strategy\<close>), and the engine as \<open>sim.IO\<close> is
    \<open>Kube_IO\<close>. The tunnel of \<open>sim/tunnel.go\<close> is \<open>Tunnel\<close>.
  \<^item> \<^bold>\<open>Examples.\<close> The four programs of \<open>examples/\<close> are in \<open>Examples\<close>: their rounds, options and \<open>main\<close>.

  \<^bold>\<open>How the code is translated.\<close> \<open>Go_Base\<close>, \<open>Go_Strings\<close> and \<open>Go_Bufio\<close> hold what the program uses of
  the standard library. A function with effects is a \<open>call\<close> (\<open>Go_Calls\<close>): it takes the state to an
  outcome, which is a value, an error, a panic or blocking, and the state after it. Deferred calls, error
  wrapping and early returns are combinators with their own logic (\<open>keeps\<close> for invariants, \<open>succeeds\<close>
  for what a success establishes). Counters are 64-bit words; signed integers are \<open>int\<close> with \<open>wrap64\<close>
  where they can overflow; \<open>float64\<close> is the rational it denotes with explicit rounding (\<open>Float64\<close>,
  \<open>Float64_Sqrt\<close>). A loop over a Go map takes its order as a parameter, any rearrangement of the entries.
  Goroutines that are joined run in any order of their elements.

  \<^bold>\<open>The outside world.\<close> Code that is not part of the repository is a parameter: the Docker client
  (\<open>docker_env\<close>, \<open>docker_client\<close>), the Kubernetes client, its executor, files and clock (\<open>kube_env\<close>),
  processes and files of the tunnel (\<open>tunnel_env\<close>), the VPN of macOS (\<open>vpn_env\<close>), \<open>tc\<close>, the standard
  deviation of gonum, the plotting library, the HTTP client of nginx (\<open>web_env\<close>) and the conodes
  (\<open>conode_env\<close>). What the code relies on is stated as locales, each interpreted on an
  environment in memory that runs the model:

  \<^item> \<open>docker_daemon\<close>: which containers run after the calls of the client; \<open>docker_shaper\<close>: which rules
    the traffic shaping containers have received, extended by \<open>docker_network\<close> with what the other
    calls leave alone (\<open>Docker_Daemon\<close>).
  \<^item> \<open>kube_cluster\<close>: the services that a deletion leaves and the events with which a watch begins, but
    nothing on when the deployments are gone; \<open>kube_executor\<close>: what containers have executed
    (\<open>Kube_Cluster\<close>); \<open>kube_recorder\<close>: how the data of the monitors, which grows and whose reading may
    fail, is read and statistics are saved (\<open>Kube_Stats\<close>); \<open>router_tunnel\<close>: what the router holds, what
    the cluster announces, and which commands the host has run with which files (\<open>Kube_Tunnel\<close>);
    \<open>pod_firewall\<close>: what \<open>iptables\<close> does in a pod (\<open>Kube_IO\<close>).
  \<^item> \<open>network_faults\<close>: the contract of \<open>Disconnect\<close> and \<open>Reconnect\<close> over an abstract network, the set of
    pairs of nodes that are severed; \<open>pod_firewall\<close> is a sublocale of it through the Kubernetes engine.
    \<open>io_frame\<close>: what a round that only uses \<open>sim.IO\<close> leaves alone (\<open>Sim_IO\<close>); \<open>engine_calls\<close>: what
    the operations of the Kubernetes engine leave alone, given by \<open>engine_frame\<close> for the state of the
    engine and by \<open>cluster_frame\<close> for the world (\<open>Kube_Frame\<close>).

  \<^bold>\<open>What is shown.\<close>

  \<^item> From the topology to the kernel: after a successful deployment the daemon of every node filters
    exactly the addresses of the nodes that its links lead to, on Docker (\<open>Emulation\<close>) and on Kubernetes
    (\<open>Kube_Emulation\<close>), for every topology; with the closed forms of the topologies, the completeness of
    the area topology for every order of its maps, and the exact list of \<open>tc\<close> commands.
  \<^item> From the monitor to the plots: the lines of the monitor are written in order under every
    interleaving (\<open>Monitor\<close>), read back unchanged, and the result file of a run holds the measures
    in the window of its round, read from the monitors after it (\<open>Kube_Stats\<close>); on Docker every
    message of the streams is recorded column by column (\<open>Docker_IO\<close>); the aggregates and plots are
    those of the series, the nodes in the order of their names (\<open>Metrics\<close>, \<open>Simplot\<close>).
  \<^item> Runs: cleaning comes last whatever happened; on Docker it leaves no container
    (\<open>Docker_Daemon\<close>); on Kubernetes it removes the router service and waits until each deployment that
    had replicas was seen without (\<open>Kube_Cluster\<close>). The lists of pods are never partial (\<open>Kube_Types\<close>),
    the waits end exactly when their events say so (\<open>Kube_Waits\<close>).
  \<^item> The VPN: a successful deployment on Kubernetes has run one command on the host, the client against
    its own router with the certificates of the router (\<open>Kube_Tunnel\<close>, over \<open>Tunnel\<close>).
  \<^item> Partitions: sequences of \<open>Disconnect\<close> and \<open>Reconnect\<close> implement the abstract network on Kubernetes
    (\<open>Kube_IO\<close>); on Docker they succeed and change nothing (lemma \<open>docker_faults\<close> of \<open>Docker_Rounds\<close>).
  \<^item> Where the code deviates from what it means to do, the theorem says exactly when: the deadlock of the
    monitor's \<open>Stop\<close>, the cleaning that needs the router, the pods counted twice by the wait, the tunnel
    that starts once, the window of a lone execution, the sizes above \<open>2 ^ 40\<close> bytes, and others.

  \<^bold>\<open>Bounds and fuel.\<close> Only \<open>human_loop\<close> of \<open>Simplot\<close> takes fuel, since the loop may run on: three rounds
  are enough up to \<open>2 ^ 40\<close>, and a larger value is still scaled after any number of rounds below \<open>2 ^ 63\<close>,
  as \<open>int2human_spec\<close> shows. \<open>MaxSize\<close>
  and \<open>max_scan_token\<close> are the program's and the scanner's own limits. The events of a wait, the messages
  of a stream and the polls of a log are finite lists: what happened until the timer or the end.

  \<^bold>\<open>Not modelled.\<close> What is only printed for progress, the \<open>String\<close> methods of the strategies, the
  creation of clients from configuration files, the release of streams, contexts and the goroutines that
  copy logs (pure input and output); the JSON encoding of files (the calls \<open>encode\<close> of the environments);
  the parsing of the command line of \<open>simplot\<close>, which is a library's; of \<open>strconv.ParseFloat\<close> the
  hexadecimal, underscored and named forms, which no input of the program uses; tests and mocks.
\<close>

end
